(* ===== verification/Prelude.thy ===== *)
theory Prelude
  imports Complex_Main "HOL-Library.Word" "HOL-Library.AList" "HOL-Library.Sublist"
    "HOL-Library.Multiset"
begin

text \<open>
  What every component shares: machine types, the outcome of a Go call, Go's built-in map with
  its unspecified iteration order, and the generic lemmas on them.

  A Go \<open>string\<close> is a sequence of bytes, which is what HOL's \<^typ>\<open>string\<close> is: a \<^typ>\<open>char\<close> has
  256 values. A \<open>[]byte\<close> is a list of 8-bit words. A call either returns a value, returns an
  error (the text of its \<open>Error()\<close> method), or panics (the runtime stops the program).
\<close>

section \<open>Machine types\<close>

type_synonym byte = "8 word"
type_synonym bytes = "byte list"
type_synonym u64 = "64 word"

section \<open>Outcomes of a call\<close>

datatype 'a outcome = Ok 'a | Err string | Panic string

primrec and_then :: "'a outcome \<Rightarrow> ('a \<Rightarrow> 'b outcome) \<Rightarrow> 'b outcome" where
  "and_then (Ok x) f = f x"
| "and_then (Err e) f = Err e"
| "and_then (Panic p) f = Panic p"

text \<open>\<open>fmt.Errorf("msg, %w", err)\<close>: the error of a callee with a prefix in front of its text.\<close>

primrec wrap_err :: "string \<Rightarrow> 'a outcome \<Rightarrow> 'a outcome" where
  "wrap_err m (Ok x) = Ok x"
| "wrap_err m (Err e) = Err (m @ e)"
| "wrap_err m (Panic p) = Panic p"

primrec is_ok :: "'a outcome \<Rightarrow> bool" where
  "is_ok (Ok x) = True"
| "is_ok (Err e) = False"
| "is_ok (Panic p) = False"

primrec is_err :: "'a outcome \<Rightarrow> bool" where
  "is_err (Ok x) = False"
| "is_err (Err e) = True"
| "is_err (Panic p) = False"

primrec is_panic :: "'a outcome \<Rightarrow> bool" where
  "is_panic (Ok x) = False"
| "is_panic (Err e) = False"
| "is_panic (Panic p) = True"

named_theorems outcome_simps \<open>inversion of outcomes\<close>

lemma and_then_Ok [outcome_simps]: "and_then r f = Ok y \<longleftrightarrow> (\<exists>x. r = Ok x \<and> f x = Ok y)"
  by (cases r) auto

lemma and_then_Err [outcome_simps]:
  "and_then r f = Err e \<longleftrightarrow> r = Err e \<or> (\<exists>x. r = Ok x \<and> f x = Err e)"
  by (cases r) auto

lemma and_then_Panic [outcome_simps]:
  "and_then r f = Panic p \<longleftrightarrow> r = Panic p \<or> (\<exists>x. r = Ok x \<and> f x = Panic p)"
  by (cases r) auto

lemma wrap_err_Ok [outcome_simps]: "wrap_err m r = Ok y \<longleftrightarrow> r = Ok y"
  by (cases r) auto

lemma wrap_err_Err [outcome_simps]: "wrap_err m r = Err e \<longleftrightarrow> (\<exists>e'. r = Err e' \<and> e = m @ e')"
  by (cases r) auto

lemma wrap_err_Panic [outcome_simps]: "wrap_err m r = Panic p \<longleftrightarrow> r = Panic p"
  by (cases r) auto

lemma is_ok_iff [outcome_simps]: "is_ok r \<longleftrightarrow> (\<exists>x. r = Ok x)"
  by (cases r) auto

lemma is_err_iff [outcome_simps]: "is_err r \<longleftrightarrow> (\<exists>e. r = Err e)"
  by (cases r) auto

lemma is_panic_iff [outcome_simps]: "is_panic r \<longleftrightarrow> (\<exists>p. r = Panic p)"
  by (cases r) auto

lemma outcome_turn [outcome_simps]:
  "Ok y = and_then r f \<longleftrightarrow> and_then r f = Ok y"
  "Err e = and_then r f \<longleftrightarrow> and_then r f = Err e"
  "Panic p = and_then r f \<longleftrightarrow> and_then r f = Panic p"
  "Ok y = wrap_err m s \<longleftrightarrow> wrap_err m s = Ok y"
  by auto

section \<open>Go maps\<close>

text \<open>
  A Go map is an association list with one entry per key. Ranging over it visits the entries in
  an order the language leaves open: a range loop takes the order as an argument, a function that
  permutes lists.
\<close>

type_synonym ('k, 'v) gomap = "('k \<times> 'v) list"

definition gomap_set :: "'k \<Rightarrow> 'v \<Rightarrow> ('k, 'v) gomap \<Rightarrow> ('k, 'v) gomap" where
  "gomap_set k v m = AList.update k v m"

definition gomap_ok :: "('k, 'v) gomap \<Rightarrow> bool" where
  "gomap_ok m \<longleftrightarrow> distinct (map fst m)"

definition iteration_order :: "('a list \<Rightarrow> 'a list) \<Rightarrow> bool" where
  "iteration_order ord \<longleftrightarrow> (\<forall>xs. mset (ord xs) = mset xs)"

named_theorems gomap_simps \<open>lookups and invariants of Go maps\<close>

lemma map_of_gomap_set [gomap_simps]: "map_of (gomap_set k v m) = (map_of m)(k \<mapsto> v)"
  by (simp add: gomap_set_def update_conv')

lemma gomap_ok_Nil [gomap_simps]: "gomap_ok []"
  by (simp add: gomap_ok_def)

lemma gomap_ok_set [gomap_simps]: "gomap_ok m \<Longrightarrow> gomap_ok (gomap_set k v m)"
  by (simp add: gomap_ok_def gomap_set_def distinct_update)

lemma gomap_set_not_Nil [gomap_simps]: "gomap_set k v m \<noteq> []"
  by (cases m) (auto simp: gomap_set_def)

lemma set_gomap_iff [gomap_simps]: "gomap_ok m \<Longrightarrow> (k, v) \<in> set m \<longleftrightarrow> map_of m k = Some v"
  by (simp add: gomap_ok_def)

lemma gomap_set_mem:
  "(k', v') \<in> set (gomap_set k v m) \<Longrightarrow> (k', v') = (k, v) \<or> (k', v') \<in> set m"
  by (induction m) (auto simp: gomap_set_def split: if_splits)

lemma iteration_order_id: "iteration_order id"
  by (simp add: iteration_order_def)

lemma iteration_order_rev: "iteration_order rev"
  by (simp add: iteration_order_def)

lemma iteration_order_set: "iteration_order ord \<Longrightarrow> set (ord xs) = set xs"
  by (metis iteration_order_def set_mset_mset)

lemma iteration_order_length: "iteration_order ord \<Longrightarrow> length (ord xs) = length xs"
  by (metis iteration_order_def size_mset)

lemma iteration_order_distinct: "iteration_order ord \<Longrightarrow> distinct (ord xs) = distinct xs"
  by (metis iteration_order_def mset_eq_imp_distinct_iff)

lemma iteration_order_distinct_map:
  assumes "iteration_order ord"
  shows "distinct (map f (ord xs)) = distinct (map f xs)"
proof -
  have "mset (map f (ord xs)) = mset (map f xs)"
    using assms by (simp add: iteration_order_def)
  then show ?thesis by (rule mset_eq_imp_distinct_iff)
qed

lemma iteration_order_Nil [simp]: "iteration_order ord \<Longrightarrow> ord [] = []"
  by (metis iteration_order_def mset_zero_iff)

lemma iteration_order_Nil_iff [simp]: "iteration_order ord \<Longrightarrow> ord xs = [] \<longleftrightarrow> xs = []"
  by (metis iteration_order_def mset_zero_iff)

section \<open>Lists and words\<close>

lemma take_append_exact [simp]: "n = length xs \<Longrightarrow> take n (xs @ ys) = xs"
  by simp

lemma drop_append_exact [simp]: "n = length xs \<Longrightarrow> drop n (xs @ ys) = ys"
  by simp

lemma unat_byte_lt: "unat (b :: byte) < 256"
  using unsigned_less [of b] by simp

lemma unat_of_nat_byte: "n < 256 \<Longrightarrow> unat (of_nat n :: byte) = n"
  by (simp add: unsigned_of_nat take_bit_nat_eq_self)

lemma unat_byte_Suc: "unat (b :: byte) < 255 \<Longrightarrow> unat (b + 1) = Suc (unat b)"
  by (simp add: unat_word_ariths)

lemma byte_eq_iff: "(a :: byte) = b \<longleftrightarrow> unat a = unat b"
  by (metis word_unat_eq_iff)

lemma byte_255: "unat (b :: byte) = 255 \<longleftrightarrow> b = 255"
  by (simp add: byte_eq_iff)

end
