(* ===== verification/Go_Lib.thy ===== *)
theory Go_Lib
  imports Prelude
begin

text \<open>
  The part of Go's standard library the program calls: \<open>bytes\<close>, \<open>strings\<close>, \<open>strconv\<close>,
  \<open>encoding/hex\<close> and slice expressions with their capacity. Slicing out of range is a panic.
\<close>

unbundle bit_operations_syntax

section \<open>Slices\<close>

text \<open>
  A slice is the visible part of its backing array and the spare capacity behind it. \<open>s[:n]\<close> may
  reach into the spare capacity; \<open>s[n:]\<close> may not pass the visible length.
\<close>

datatype slice = Slice (vis: bytes) (spare: bytes)

definition out_of_range :: string where
  "out_of_range = ''runtime error: slice bounds out of range''"

definition slice_from :: "nat \<Rightarrow> slice \<Rightarrow> slice outcome" where
  "slice_from lo s =
     (if lo \<le> length (vis s) then Ok (Slice (drop lo (vis s)) (spare s)) else Panic out_of_range)"

definition slice_to :: "nat \<Rightarrow> slice \<Rightarrow> slice outcome" where
  "slice_to hi s =
     (let whole = vis s @ spare s
      in if hi \<le> length whole then Ok (Slice (take hi whole) (drop hi whole))
         else Panic out_of_range)"

text \<open>Slicing where only the visible bytes of the result are read.\<close>

definition from_index :: "nat \<Rightarrow> 'a list \<Rightarrow> 'a list outcome" where
  "from_index lo xs = (if lo \<le> length xs then Ok (drop lo xs) else Panic out_of_range)"

lemma from_index_Ok [outcome_simps]:
  "from_index lo xs = Ok ys \<longleftrightarrow> lo \<le> length xs \<and> ys = drop lo xs"
  by (auto simp: from_index_def)

lemma from_index_not_Err [outcome_simps]: "from_index lo xs \<noteq> Err e"
  by (simp add: from_index_def)

lemma slice_from_Ok [outcome_simps]:
  "slice_from lo s = Ok t \<longleftrightarrow> lo \<le> length (vis s) \<and> t = Slice (drop lo (vis s)) (spare s)"
  by (auto simp: slice_from_def)

lemma slice_to_Ok [outcome_simps]:
  "slice_to hi s = Ok t \<longleftrightarrow> hi \<le> length (vis s) + length (spare s) \<and>
     t = Slice (take hi (vis s @ spare s)) (drop hi (vis s @ spare s))"
  by (auto simp: slice_to_def Let_def)

lemma slice_not_Err [outcome_simps]: "slice_from lo s \<noteq> Err e" "slice_to hi s \<noteq> Err e"
  by (simp_all add: slice_from_def slice_to_def Let_def)

section \<open>Bytes and strings\<close>

definition string_of_bytes :: "bytes \<Rightarrow> string" where
  "string_of_bytes bs = map (\<lambda>b. char_of (unat b)) bs"

definition bytes_of_string :: "string \<Rightarrow> bytes" where
  "bytes_of_string s = map (\<lambda>c. of_nat (of_char c)) s"

lemma string_of_bytes_Nil [simp]: "string_of_bytes [] = []"
  by (simp add: string_of_bytes_def)

lemma bytes_of_string_of_bytes [simp]: "bytes_of_string (string_of_bytes bs) = bs"
proof -
  have "of_nat (of_char (char_of (unat b) :: char)) = (b :: byte)" for b
    using unat_byte_lt [of b] by simp
  then show ?thesis by (simp add: bytes_of_string_def string_of_bytes_def o_def)
qed

lemma string_of_bytes_of_string [simp]: "string_of_bytes (bytes_of_string s) = s"
proof -
  have "char_of (unat (of_nat (of_char c) :: byte)) = c" for c :: char
  proof -
    have "(of_char c :: nat) < 256" by (rule nat_of_char_less_256)
    then have "unat (of_nat (of_char c) :: byte) = of_char c" by (rule unat_of_nat_byte)
    then show ?thesis by (simp only: char_of_char)
  qed
  then show ?thesis by (simp add: bytes_of_string_def string_of_bytes_def o_def)
qed

lemma string_of_bytes_inj [simp]: "string_of_bytes a = string_of_bytes b \<longleftrightarrow> a = b"
  by (metis bytes_of_string_of_bytes)

lemma length_bytes_of_string [simp]: "length (bytes_of_string s) = length s"
  by (simp add: bytes_of_string_def)

lemma string_of_bytes_append [simp]:
  "string_of_bytes (a @ b) = string_of_bytes a @ string_of_bytes b"
  by (simp add: string_of_bytes_def)

section \<open>encoding/hex\<close>

definition hextable :: string where
  "hextable = ''0123456789abcdef''"

definition hex_byte :: "byte \<Rightarrow> string" where
  "hex_byte b = [hextable ! unat (drop_bit 4 b), hextable ! unat (b AND 15)]"

definition hex_encode :: "bytes \<Rightarrow> string" where
  "hex_encode bs = concat (map hex_byte bs)"

lemma hi_nibble: "unat (drop_bit 4 (b :: byte)) = unat b div 16"
  by (simp add: drop_bit_eq_div unat_div_distrib)

lemma lo_nibble: "unat ((b :: byte) AND 15) = unat b mod 16"
proof -
  have "b AND 15 = b AND mask 4"
    by (simp add: mask_eq_exp_minus_1)
  then have "unat (b AND 15) = unat (take_bit 4 b)"
    by (simp add: take_bit_eq_mask)
  then show ?thesis
    by (simp add: take_bit_eq_mod unat_mod_distrib)
qed

lemma distinct_hextable: "distinct hextable"
  by (simp add: hextable_def)

lemma length_hextable: "length hextable = 16"
  by (simp add: hextable_def)

lemma hex_byte_inj: "hex_byte a = hex_byte b \<longleftrightarrow> a = b"
proof
  assume "hex_byte a = hex_byte b"
  then have hi: "hextable ! (unat a div 16) = hextable ! (unat b div 16)"
    and lo: "hextable ! (unat a mod 16) = hextable ! (unat b mod 16)"
    by (simp_all add: hex_byte_def hi_nibble lo_nibble)
  have lt: "unat a div 16 < 16" "unat b div 16 < 16"
    using unat_byte_lt [of a] unat_byte_lt [of b] by simp_all
  from hi lt have "unat a div 16 = unat b div 16"
    by (simp add: nth_eq_iff_index_eq distinct_hextable length_hextable)
  moreover from lo have "unat a mod 16 = unat b mod 16"
    by (simp add: nth_eq_iff_index_eq distinct_hextable length_hextable)
  ultimately have "unat a = unat b"
    by (metis div_mult_mod_eq)
  then show "a = b" by (simp add: byte_eq_iff)
qed simp

lemma length_hex_encode: "length (hex_encode bs) = 2 * length bs"
  by (induction bs) (simp_all add: hex_encode_def hex_byte_def)

lemma hex_encode_inj [simp]: "hex_encode a = hex_encode b \<longleftrightarrow> a = b"
proof
  show "hex_encode a = hex_encode b \<Longrightarrow> a = b"
  proof (induction a arbitrary: b)
    case Nil
    then show ?case by (cases b) (simp_all add: hex_encode_def hex_byte_def)
  next
    case (Cons x xs)
    then obtain y ys where b: "b = y # ys"
      by (cases b) (simp_all add: hex_encode_def hex_byte_def)
    from Cons.prems have eq: "hex_byte x @ hex_encode xs = hex_byte y @ hex_encode ys"
      by (simp add: hex_encode_def b)
    have "length (hex_byte x) = length (hex_byte y)"
      by (simp add: hex_byte_def)
    with eq have "hex_byte x = hex_byte y" "hex_encode xs = hex_encode ys"
      by (simp_all add: append_eq_append_conv)
    with Cons.IH show ?case by (simp add: b hex_byte_inj)
  qed
qed simp

lemma hex_encode_Nil_iff [simp]: "hex_encode bs = [] \<longleftrightarrow> bs = []"
  by (metis length_hex_encode length_0_conv mult_eq_0_iff zero_neq_numeral)

lemma hex_encode_Nil [simp]: "hex_encode [] = []"
  by simp

lemma hex_encode_chars: "set (hex_encode bs) \<subseteq> set hextable"
proof -
  have "set (hex_byte b) \<subseteq> set hextable" for b
    using unat_byte_lt [of b] by (auto simp: hex_byte_def hi_nibble lo_nibble length_hextable)
  then show ?thesis by (auto simp: hex_encode_def)
qed

section \<open>strconv and fmt: numbers in decimal\<close>

fun itoa :: "nat \<Rightarrow> string" where
  "itoa n = (if n < 10 then [''0123456789'' ! n]
             else itoa (n div 10) @ [''0123456789'' ! (n mod 10)])"

declare itoa.simps [simp del]

definition itoa_int :: "int \<Rightarrow> string" where
  "itoa_int i = (if i < 0 then ''-'' @ itoa (nat (- i)) else itoa (nat i))"

lemma itoa_not_Nil: "itoa n \<noteq> []"
  by (subst itoa.simps) simp

lemma itoa_digits: "set (itoa n) \<subseteq> set ''0123456789''"
proof (induction n rule: itoa.induct)
  case (1 n)
  have digit: "m < 10 \<Longrightarrow> ''0123456789'' ! m \<in> set ''0123456789''" for m
    by (rule nth_mem) simp
  show ?case
  proof (cases "n < 10")
    case True
    with digit [of n] show ?thesis by (subst itoa.simps) simp
  next
    case False
    with "1.IH" have "set (itoa (n div 10)) \<subseteq> set ''0123456789''" by simp
    with False digit [of "n mod 10"] show ?thesis by (subst itoa.simps) auto
  qed
qed

section \<open>strings\<close>

text \<open>\<open>strings.Split\<close> by one character: at least one field, empty fields kept.\<close>

fun split_on :: "char \<Rightarrow> string \<Rightarrow> string list" where
  "split_on c [] = [[]]"
| "split_on c (x # xs) =
     (if x = c then [] # split_on c xs
      else case split_on c xs of [] \<Rightarrow> [[x]] | f # fs \<Rightarrow> (x # f) # fs)"

text \<open>\<open>strings.FieldsFunc\<close> for one separator: empty fields dropped.\<close>

definition fields_on :: "char \<Rightarrow> string \<Rightarrow> string list" where
  "fields_on c s = filter (\<lambda>f. f \<noteq> []) (split_on c s)"

text \<open>\<open>strings.Replace(s, old, new, 1)\<close>, for a non-empty \<open>old\<close>: the leftmost occurrence.\<close>

fun replace_first :: "string \<Rightarrow> string \<Rightarrow> string \<Rightarrow> string" where
  "replace_first old new [] = (if old = [] then new else [])"
| "replace_first old new (c # cs) =
     (if prefix old (c # cs) then new @ drop (length old) (c # cs)
      else c # replace_first old new cs)"

fun join :: "string \<Rightarrow> string list \<Rightarrow> string" where
  "join sep [] = []"
| "join sep [x] = x"
| "join sep (x # y # ys) = x @ sep @ join sep (y # ys)"

lemma split_on_not_Nil [simp]: "split_on c s \<noteq> []"
  by (induction s) (auto split: list.splits)

lemma split_on_no_sep: "c \<notin> set s \<Longrightarrow> split_on c s = [s]"
  by (induction s) auto

lemma split_on_append_sep:
  "c \<notin> set s \<Longrightarrow> split_on c (s @ c # t) = s # split_on c t"
  by (induction s) auto

lemma join_split_on: "join [c] (split_on c s) = s"
proof (induction s)
  case Nil
  then show ?case by simp
next
  case (Cons x xs)
  show ?case
  proof (cases "split_on c xs")
    case Nil
    then show ?thesis by simp
  next
    case (Cons f fs)
    with Cons.IH show ?thesis by (cases fs) auto
  qed
qed

lemma split_on_field_no_sep: "f \<in> set (split_on c s) \<Longrightarrow> c \<notin> set f"
  by (induction s arbitrary: f) (auto split: if_splits list.splits)

lemma replace_first_absent: "\<not> sublist old s \<Longrightarrow> replace_first old new s = s"
  by (induction s) (auto simp: sublist_Cons_right)

lemma replace_first_prefix: "prefix old s \<Longrightarrow> replace_first old new s = new @ drop (length old) s"
  by (cases s) auto

section \<open>fmt.Sprintf with the verb for strings\<close>

fun sprintf :: "string \<Rightarrow> string list \<Rightarrow> string" where
  "sprintf [] args = []"
| "sprintf [c] args = [c]"
| "sprintf (c # d # cs) args =
     (if c = CHR ''%'' \<and> d = CHR ''s''
      then (case args of [] \<Rightarrow> ''%!s(MISSING)'' @ sprintf cs [] | a # as \<Rightarrow> a @ sprintf cs as)
      else c # sprintf (d # cs) args)"

section \<open>Ranging over a string: UTF-8\<close>

text \<open>\<open>for i, r := range s\<close> decodes one rune at a time; an invalid byte is the rune \<open>U+FFFD\<close> of width
  one. The input is the list of byte values; the result is the rune and its width.\<close>

definition is_cont :: "nat \<Rightarrow> bool" where
  "is_cont b \<longleftrightarrow> 128 \<le> b \<and> b < 192"

fun decode_rune :: "nat list \<Rightarrow> nat \<times> nat" where
  "decode_rune [] = (65533, 0)"
| "decode_rune (b0 # bs) =
     (if b0 < 128 then (b0, 1)
      else if 194 \<le> b0 \<and> b0 < 224 then
        (case bs of b1 # _ \<Rightarrow>
           if is_cont b1 then ((b0 - 192) * 64 + (b1 - 128), 2) else (65533, 1)
         | [] \<Rightarrow> (65533, 1))
      else if 224 \<le> b0 \<and> b0 < 240 then
        (case bs of b1 # b2 # _ \<Rightarrow>
           if is_cont b1 \<and> is_cont b2 \<and> (b0 = 224 \<longrightarrow> 160 \<le> b1) \<and> (b0 = 237 \<longrightarrow> b1 < 160)
           then ((b0 - 224) * 4096 + (b1 - 128) * 64 + (b2 - 128), 3) else (65533, 1)
         | _ \<Rightarrow> (65533, 1))
      else if 240 \<le> b0 \<and> b0 < 245 then
        (case bs of b1 # b2 # b3 # _ \<Rightarrow>
           if is_cont b1 \<and> is_cont b2 \<and> is_cont b3 \<and> (b0 = 240 \<longrightarrow> 144 \<le> b1) \<and> (b0 = 244 \<longrightarrow> b1 < 144)
           then ((b0 - 240) * 262144 + (b1 - 128) * 4096 + (b2 - 128) * 64 + (b3 - 128), 4)
           else (65533, 1)
         | _ \<Rightarrow> (65533, 1))
      else (65533, 1))"

lemma decode_rune_width: "bs \<noteq> [] \<Longrightarrow> 0 < snd (decode_rune bs)"
  by (cases bs) (auto split: list.splits)

function runes_from :: "nat \<Rightarrow> nat list \<Rightarrow> (nat \<times> nat) list" where
  "runes_from i bs =
     (if bs = [] then []
      else let (r, w) = decode_rune bs in (i, r) # runes_from (i + w) (drop w bs))"
  by pat_completeness auto
termination
proof (relation "measure (\<lambda>(i, bs). length bs)")
  show "((i + w, drop w bs), (i, bs)) \<in> measure (\<lambda>(i, bs). length bs)"
    if "bs \<noteq> []" "p = decode_rune bs" "(r, w) = p" for i bs p r w
    using that decode_rune_width [of bs] by (cases bs) (auto dest: sym)
qed simp

declare runes_from.simps [simp del]

definition runes_of :: "string \<Rightarrow> (nat \<times> nat) list" where
  "runes_of s = runes_from 0 (map of_char s)"

lemma runes_from_ascii:
  "\<forall>b \<in> set bs. b < 128 \<Longrightarrow> runes_from i bs = zip [i..<i + length bs] bs"
proof (induction bs arbitrary: i)
  case Nil
  then show ?case by (simp add: runes_from.simps)
next
  case (Cons b bs)
  then have "runes_from i (b # bs) = (i, b) # runes_from (Suc i) bs"
    by (subst runes_from.simps) simp
  with Cons show ?case by (simp add: upt_conv_Cons del: upt_Suc)
qed

end
