(* ===== verification/Models.thy ===== *)
theory Models
  imports Go_Lib
begin

text \<open>
  The database rows (\<open>models/models.go\<close>). Go embeds \<open>TracelistenerDatabaseRow\<close> in every row
  struct; here every row record extends \<open>tl_row\<close>. The interface \<open>DatabaseEntrier\<close> is the sum of the
  rows that implement it. A row reaches the database through its \<open>db\<close> tags: \<open>db_args\<close> gives the
  column/value pairs the named-query binder reads, and \<open>NumField\<close> is what \<open>reflect\<close> counts.
\<close>

section \<open>Values of a database column\<close>

record unbonding_entry =
  ube_Balance :: string
  ube_InitialBalance :: string
  ube_CreationHeight :: "64 word"
  ube_CompletionTime :: string

record redelegation_entry =
  rde_CreationHeight :: "64 word"
  rde_CompletionTime :: string
  rde_InitialBalance :: string
  rde_SharesDst :: string

datatype sqlval =
    Null
  | Text string
  | UInt u64
  | SInt "64 word"
  | Blob bytes
  | Boolean bool
  | TextArray "string list"
  | UbdEntries "unbonding_entry list"
  | RedEntries "redelegation_entry list"

section \<open>Rows\<close>

record tl_row =
  ChainName :: string
  RowID :: u64
  Height :: u64
  DeleteHeight :: "u64 option"

record BalanceRow = tl_row +
  bal_Address :: string
  bal_Amount :: string
  bal_Denom :: string

record CW20BalanceRow = tl_row +
  cwb_ContractAddress :: string
  cwb_Address :: string
  cwb_Amount :: string

record CW20TokenInfoRow = tl_row +
  cwt_ContractAddress :: string
  cwt_Name :: string
  cwt_Symbol :: string
  cwt_Decimals :: "64 word"
  cwt_TotalSupply :: string

record DelegationRow = tl_row +
  del_Delegator :: string
  del_Validator :: string
  del_Amount :: string

record IBCChannelRow = tl_row +
  chn_ChannelID :: string
  chn_CounterChannelID :: string
  chn_Hops :: "string list"
  chn_Port :: string
  chn_State :: "32 word"

record IBCConnectionRow = tl_row +
  con_ConnectionID :: string
  con_ClientID :: string
  con_State :: string
  con_CounterConnectionID :: string
  con_CounterClientID :: string

record IBCDenomTraceRow = tl_row +
  dnt_Path :: string
  dnt_BaseDenom :: string
  dnt_Hash :: string

record PoolRow = tl_row +
  pool_PoolID :: u64
  pool_TypeID :: "32 word"
  pool_ReserveCoinDenoms :: "string list"
  pool_ReserveAccountAddress :: string
  pool_PoolCoinDenom :: string

record SwapRow = tl_row +
  swap_MsgHeight :: "64 word"
  swap_MsgIndex :: u64
  swap_Executed :: bool
  swap_Succeeded :: bool
  swap_ExpiryHeight :: "64 word"
  swap_ExchangedOfferCoin :: string
  swap_RemainingOfferCoin :: string
  swap_ReservedOfferCoinFee :: string
  swap_PoolCoinDenom :: string
  swap_RequesterAddress :: string
  swap_PoolID :: u64
  swap_OfferCoin :: string
  swap_OrderPrice :: string

record AuthRow = tl_row +
  auth_Address :: string
  auth_SequenceNumber :: u64
  auth_AccountNumber :: u64

record IBCClientStateRow = tl_row +
  cli_ChainID :: string
  cli_ClientID :: string
  cli_LatestHeight :: u64
  cli_TrustingPeriod :: "64 word"

record UnbondingDelegationRow = tl_row +
  ubd_Delegator :: string
  ubd_Validator :: string
  ubd_Entries :: "unbonding_entry list"

record ValidatorRow = tl_row +
  val_ValidatorAddress :: string
  val_OperatorAddress :: string
  val_ConsensusPubKeyType :: string
  val_ConsensusPubKeyValue :: bytes
  val_Jailed :: bool
  val_Status :: "32 word"
  val_Tokens :: string
  val_DelegatorShares :: string
  val_Moniker :: string
  val_Identity :: string
  val_Website :: string
  val_SecurityContact :: string
  val_Details :: string
  val_UnbondingHeight :: "64 word"
  val_UnbondingTime :: string
  val_CommissionRate :: string
  val_MaxRate :: string
  val_MaxChangeRate :: string
  val_UpdateTime :: string
  val_MinSelfDelegation :: string

record RedelegationRow = tl_row +
  red_Delegator :: string
  red_ValidatorSrcAddress :: string
  red_ValidatorDstAddress :: string
  red_Entries :: "redelegation_entry list"

section \<open>The interface DatabaseEntrier\<close>

datatype entrier =
    EBalance BalanceRow
  | ECW20Balance CW20BalanceRow
  | ECW20TokenInfo CW20TokenInfoRow
  | EDelegation DelegationRow
  | EChannel IBCChannelRow
  | EConnection IBCConnectionRow
  | EDenomTrace IBCDenomTraceRow
  | EPool PoolRow
  | ESwap SwapRow
  | EAuth AuthRow
  | EClient IBCClientStateRow
  | EUnbonding UnbondingDelegationRow
  | EValidator ValidatorRow
  | ERedelegation RedelegationRow

primrec WithChainName :: "string \<Rightarrow> entrier \<Rightarrow> entrier" where
  "WithChainName cn (EBalance b) = EBalance (b\<lparr>ChainName := cn\<rparr>)"
| "WithChainName cn (ECW20Balance b) = ECW20Balance (b\<lparr>ChainName := cn\<rparr>)"
| "WithChainName cn (ECW20TokenInfo b) = ECW20TokenInfo (b\<lparr>ChainName := cn\<rparr>)"
| "WithChainName cn (EDelegation b) = EDelegation (b\<lparr>ChainName := cn\<rparr>)"
| "WithChainName cn (EChannel c) = EChannel (c\<lparr>ChainName := cn\<rparr>)"
| "WithChainName cn (EConnection c) = EConnection (c\<lparr>ChainName := cn\<rparr>)"
| "WithChainName cn (EDenomTrace c) = EDenomTrace (c\<lparr>ChainName := cn\<rparr>)"
| "WithChainName cn (EPool p) = EPool (p\<lparr>ChainName := cn\<rparr>)"
| "WithChainName cn (ESwap p) = ESwap (p\<lparr>ChainName := cn\<rparr>)"
| "WithChainName cn (EAuth b) = EAuth (b\<lparr>ChainName := cn\<rparr>)"
| "WithChainName cn (EClient b) = EClient (b\<lparr>ChainName := cn\<rparr>)"
| "WithChainName cn (EUnbonding b) = EUnbonding (b\<lparr>ChainName := cn\<rparr>)"
| "WithChainName cn (EValidator b) = EValidator (b\<lparr>ChainName := cn\<rparr>)"
| "WithChainName cn (ERedelegation b) = ERedelegation (b\<lparr>ChainName := cn\<rparr>)"

text \<open>The embedded row of an entrier.\<close>

primrec base_row :: "entrier \<Rightarrow> tl_row" where
  "base_row (EBalance b) = tl_row.truncate b"
| "base_row (ECW20Balance b) = tl_row.truncate b"
| "base_row (ECW20TokenInfo b) = tl_row.truncate b"
| "base_row (EDelegation b) = tl_row.truncate b"
| "base_row (EChannel b) = tl_row.truncate b"
| "base_row (EConnection b) = tl_row.truncate b"
| "base_row (EDenomTrace b) = tl_row.truncate b"
| "base_row (EPool b) = tl_row.truncate b"
| "base_row (ESwap b) = tl_row.truncate b"
| "base_row (EAuth b) = tl_row.truncate b"
| "base_row (EClient b) = tl_row.truncate b"
| "base_row (EUnbonding b) = tl_row.truncate b"
| "base_row (EValidator b) = tl_row.truncate b"
| "base_row (ERedelegation b) = tl_row.truncate b"

text \<open>The fields of the struct itself, by \<open>db\<close> tag, in declaration order.\<close>

primrec own_args :: "entrier \<Rightarrow> (string \<times> sqlval) list" where
  "own_args (EBalance b) =
     [(''address'', Text (bal_Address b)), (''amount'', Text (bal_Amount b)),
      (''denom'', Text (bal_Denom b))]"
| "own_args (ECW20Balance b) =
     [(''contract_address'', Text (cwb_ContractAddress b)), (''address'', Text (cwb_Address b)),
      (''amount'', Text (cwb_Amount b))]"
| "own_args (ECW20TokenInfo b) =
     [(''contract_address'', Text (cwt_ContractAddress b)), (''name'', Text (cwt_Name b)),
      (''symbol'', Text (cwt_Symbol b)), (''decimals'', SInt (cwt_Decimals b)),
      (''total_supply'', Text (cwt_TotalSupply b))]"
| "own_args (EDelegation b) =
     [(''delegator_address'', Text (del_Delegator b)), (''validator_address'', Text (del_Validator b)),
      (''amount'', Text (del_Amount b))]"
| "own_args (EChannel b) =
     [(''channel_id'', Text (chn_ChannelID b)), (''counter_channel_id'', Text (chn_CounterChannelID b)),
      (''hops'', TextArray (chn_Hops b)), (''port'', Text (chn_Port b)),
      (''state'', SInt (scast (chn_State b)))]"
| "own_args (EConnection b) =
     [(''connection_id'', Text (con_ConnectionID b)), (''client_id'', Text (con_ClientID b)),
      (''state'', Text (con_State b)), (''counter_connection_id'', Text (con_CounterConnectionID b)),
      (''counter_client_id'', Text (con_CounterClientID b))]"
| "own_args (EDenomTrace b) =
     [(''path'', Text (dnt_Path b)), (''base_denom'', Text (dnt_BaseDenom b)),
      (''hash'', Text (dnt_Hash b))]"
| "own_args (EPool b) =
     [(''pool_id'', UInt (pool_PoolID b)), (''type_id'', UInt (ucast (pool_TypeID b))),
      (''reserve_coin_denoms'', TextArray (pool_ReserveCoinDenoms b)),
      (''reserve_account_address'', Text (pool_ReserveAccountAddress b)),
      (''pool_coin_denom'', Text (pool_PoolCoinDenom b))]"
| "own_args (ESwap b) =
     [(''msg_height'', SInt (swap_MsgHeight b)), (''msg_index'', UInt (swap_MsgIndex b)),
      (''executed'', Boolean (swap_Executed b)), (''succeeded'', Boolean (swap_Succeeded b)),
      (''expiry_height'', SInt (swap_ExpiryHeight b)),
      (''exchanged_offer_coin'', Text (swap_ExchangedOfferCoin b)),
      (''remaining_offer_coin'', Text (swap_RemainingOfferCoin b)),
      (''reserved_offer_coin_fee'', Text (swap_ReservedOfferCoinFee b)),
      (''pool_coin_denom'', Text (swap_PoolCoinDenom b)),
      (''requester_address'', Text (swap_RequesterAddress b)), (''pool_id'', UInt (swap_PoolID b)),
      (''offer_coin'', Text (swap_OfferCoin b)), (''order_price'', Text (swap_OrderPrice b))]"
| "own_args (EAuth b) =
     [(''address'', Text (auth_Address b)), (''sequence_number'', UInt (auth_SequenceNumber b)),
      (''account_number'', UInt (auth_AccountNumber b))]"
| "own_args (EClient b) =
     [(''chain_id'', Text (cli_ChainID b)), (''client_id'', Text (cli_ClientID b)),
      (''latest_height'', UInt (cli_LatestHeight b)), (''trusting_period'', SInt (cli_TrustingPeriod b))]"
| "own_args (EUnbonding b) =
     [(''delegator_address'', Text (ubd_Delegator b)), (''validator_address'', Text (ubd_Validator b)),
      (''entries'', UbdEntries (ubd_Entries b))]"
| "own_args (EValidator b) =
     [(''validator_address'', Text (val_ValidatorAddress b)),
      (''operator_address'', Text (val_OperatorAddress b)),
      (''consensus_pubkey_type'', Text (val_ConsensusPubKeyType b)),
      (''consensus_pubkey_value'', Blob (val_ConsensusPubKeyValue b)),
      (''jailed'', Boolean (val_Jailed b)),
      (''status'', SInt (scast (val_Status b))),
      (''tokens'', Text (val_Tokens b)), (''delegator_shares'', Text (val_DelegatorShares b)),
      (''moniker'', Text (val_Moniker b)), (''identity'', Text (val_Identity b)),
      (''website'', Text (val_Website b)), (''security_contact'', Text (val_SecurityContact b)),
      (''details'', Text (val_Details b)), (''unbonding_height'', SInt (val_UnbondingHeight b)),
      (''unbonding_time'', Text (val_UnbondingTime b)),
      (''commission_rate'', Text (val_CommissionRate b)), (''max_rate'', Text (val_MaxRate b)),
      (''max_change_rate'', Text (val_MaxChangeRate b)), (''update_time'', Text (val_UpdateTime b)),
      (''min_self_delegation'', Text (val_MinSelfDelegation b))]"
| "own_args (ERedelegation b) =
     [(''delegator_address'', Text (red_Delegator b)),
      (''validator_src_address'', Text (red_ValidatorSrcAddress b)),
      (''validator_dst_address'', Text (red_ValidatorDstAddress b)),
      (''entries'', RedEntries (red_Entries b))]"

definition base_args :: "tl_row \<Rightarrow> (string \<times> sqlval) list" where
  "base_args r =
     [(''chain_name'', Text (ChainName r)), (''id'', UInt (RowID r)), (''height'', UInt (Height r)),
      (''delete_height'', case DeleteHeight r of None \<Rightarrow> Null | Some h \<Rightarrow> UInt h)]"

definition db_args :: "entrier \<Rightarrow> (string \<times> sqlval) list" where
  "db_args e = base_args (base_row e) @ own_args e"

text \<open>\<open>reflect.TypeOf(e).NumField()\<close>: the embedded struct counts as one field.\<close>

definition NumField :: "entrier \<Rightarrow> nat" where
  "NumField e = 1 + length (own_args e)"

section \<open>Zero values\<close>

definition zero_tl :: tl_row where
  "zero_tl = \<lparr>ChainName = [], RowID = 0, Height = 0, DeleteHeight = None\<rparr>"

definition at_height :: "u64 \<Rightarrow> tl_row" where
  "at_height h = zero_tl\<lparr>Height := h\<rparr>"

section \<open>Facts\<close>

lemma base_row_WithChainName [simp]: "base_row (WithChainName cn e) = (base_row e)\<lparr>ChainName := cn\<rparr>"
  by (cases e) (simp_all add: tl_row.defs)

lemma own_args_WithChainName [simp]: "own_args (WithChainName cn e) = own_args e"
  by (cases e) simp_all

lemma NumField_WithChainName [simp]: "NumField (WithChainName cn e) = NumField e"
  by (simp add: NumField_def)

lemma NumField_pos: "0 < NumField e"
  by (simp add: NumField_def)

lemma NumField_le: "NumField e \<le> 21"
  by (cases e) (simp_all add: NumField_def)

end
