(* ===== verification/Float64.thy ===== *)
theory Float64
  imports Prelude "HOL-Library.Log_Nat"
begin

text \<open>
  Go's \<open>float64\<close> as far as the program computes with it: conversion from an integer, division,
  \<open>math.Ceil\<close> and the conversion back. A finite value is a rational; every operation rounds its
  exact result to the nearest number with a 53-bit significand, ties to even. The exponent is not
  bounded: the quotients of \<open>SplitStatements\<close> stay far from the largest and smallest exponents.
\<close>

section \<open>Rounding\<close>

definition round_even :: "rat \<Rightarrow> int" where
  "round_even x =
     (let f = \<lfloor>x\<rfloor>; d = x - of_int f
      in if d < 1 / 2 then f else if d > 1 / 2 then f + 1 else if even f then f else f + 1)"

text \<open>The binary exponent of a positive rational: the largest \<open>e\<close> with \<open>2 powi e \<le> r\<close>.\<close>

definition f64_exponent :: "rat \<Rightarrow> int" where
  "f64_exponent r =
     (let (p, q) = quotient_of r; e = bitlen p - bitlen q
      in if 2 powi e \<le> r then e else e - 1)"

definition f64_round_pos :: "rat \<Rightarrow> rat" where
  "f64_round_pos r = (let u = 2 powi (f64_exponent r - 52) in of_int (round_even (r / u)) * u)"

definition f64_round :: "rat \<Rightarrow> rat" where
  "f64_round r = (if r = 0 then 0 else if r < 0 then - f64_round_pos (- r) else f64_round_pos r)"

section \<open>The operations\<close>

datatype f64 = Fin rat | PInf | NInf | NaN

definition f64_of_int :: "int \<Rightarrow> f64" where
  "f64_of_int i = Fin (f64_round (of_int i))"

fun f64_div :: "f64 \<Rightarrow> f64 \<Rightarrow> f64" where
  "f64_div (Fin a) (Fin b) =
     (if b = 0 then (if a > 0 then PInf else if a < 0 then NInf else NaN)
      else Fin (f64_round (a / b)))"
| "f64_div (Fin a) PInf = Fin 0"
| "f64_div (Fin a) NInf = Fin 0"
| "f64_div PInf (Fin b) = (if b \<ge> 0 then PInf else NInf)"
| "f64_div NInf (Fin b) = (if b \<ge> 0 then NInf else PInf)"
| "f64_div _ _ = NaN"

fun f64_ceil :: "f64 \<Rightarrow> f64" where
  "f64_ceil (Fin a) = Fin (of_int \<lceil>a\<rceil>)"
| "f64_ceil x = x"

text \<open>Conversion to \<open>int64\<close> drops the fraction. Outside the range the language leaves the result to
  the machine; the value here is the one of amd64.\<close>

fun f64_to_int64 :: "f64 \<Rightarrow> int" where
  "f64_to_int64 (Fin a) =
     (let t = (if a < 0 then \<lceil>a\<rceil> else \<lfloor>a\<rfloor>)
      in if - (2 ^ 63) \<le> t \<and> t < 2 ^ 63 then t else - (2 ^ 63))"
| "f64_to_int64 _ = - (2 ^ 63)"

section \<open>What integer code may rely on\<close>

text \<open>
  The two facts about a rounding function that make integer quotients come out right: integers up
  to \<open>2 ^ 53\<close> are exact, and the relative error is at most one part in \<open>2 ^ 53\<close>.
\<close>

locale rounding =
  fixes rnd :: "rat \<Rightarrow> rat"
  assumes rnd_int: "0 \<le> n \<Longrightarrow> n \<le> 2 ^ 53 \<Longrightarrow> rnd (of_int n) = of_int n"
    and rnd_err: "0 < x \<Longrightarrow> \<bar>rnd x - x\<bar> \<le> x / 2 ^ 53"
begin

lemma rnd_bounds:
  assumes "0 < x"
  shows "x - x / 2 ^ 53 \<le> rnd x" "rnd x \<le> x + x / 2 ^ 53"
  using rnd_err [OF assms] by linarith+

text \<open>A quotient of integers never crosses an integer when it is rounded.\<close>

lemma rnd_quotient_ceiling:
  fixes P L :: int
  assumes "0 < L" "0 < P" "P < 2 ^ 53"
  shows "\<lceil>rnd (of_int P / of_int L)\<rceil> = \<lceil>of_int P / (of_int L :: rat)\<rceil>"
proof -
  define x where "x = (of_int P / of_int L :: rat)"
  have pos: "0 < x" using assms by (simp add: x_def)
  define k where "k = \<lceil>x\<rceil>"
  have k: "of_int k - 1 < x" "x \<le> of_int k"
    unfolding k_def by linarith+
  show ?thesis
  proof (cases "x = of_int k")
    case True
    have "0 \<le> k" using pos True by (simp add: x_def)
    moreover have "k \<le> 2 ^ 53"
    proof -
      have "x \<le> of_int P" using assms by (simp add: x_def divide_le_eq mult_le_cancel_left1)
      with True have "k \<le> P" by simp
      with assms show ?thesis by simp
    qed
    ultimately have "rnd x = x" using rnd_int True by metis
    then show ?thesis by (simp add: x_def)
  next
    case False
    with k(2) have lt: "x < of_int k" by simp
    have "of_int P < (of_int (k * L) :: rat)" "of_int ((k - 1) * L) < (of_int P :: rat)"
      using lt k(1) assms(1) by (simp_all add: x_def field_simps)
    then have "P < k * L" "(k - 1) * L < P" unfolding of_int_less_iff .
    then have "P + 1 \<le> k * L" "(k - 1) * L + 1 \<le> P" by linarith+
    then have "of_int (P + 1) \<le> (of_int (k * L) :: rat)"
      "of_int ((k - 1) * L + 1) \<le> (of_int P :: rat)"
      unfolding of_int_le_iff .
    then have "of_int P + 1 \<le> of_int k * (of_int L :: rat)"
      "(of_int k - 1) * of_int L + 1 \<le> (of_int P :: rat)"
      by simp_all
    then have "(of_int P + 1) / of_int L \<le> of_int k * (of_int L :: rat) / of_int L"
      "((of_int k - 1) * of_int L + 1) / of_int L \<le> (of_int P / of_int L :: rat)"
      using assms(1) by (intro divide_right_mono; simp)+
    then have gap: "x + 1 / of_int L \<le> of_int k" "of_int k - 1 + 1 / of_int L \<le> x"
      using assms(1) by (simp_all add: x_def add_divide_distrib)
    have "x / 2 ^ 53 < 1 / of_int L"
    proof -
      have "of_int P < (2 ^ 53 :: rat)" using assms(3) by (metis of_int_less_iff of_int_numeral of_int_power)
      then show ?thesis using assms(1) by (simp add: x_def field_simps)
    qed
    with gap rnd_bounds [OF pos] have "of_int k - 1 < rnd x" "rnd x \<le> of_int k" by linarith+
    then have "\<lceil>rnd x\<rceil> = k" by (simp add: ceiling_eq_iff)
    then show ?thesis by (simp add: x_def k_def)
  qed
qed

text \<open>Two roundings in a row keep the integer part of \<open>n / c\<close>.\<close>

lemma rnd_two_quotients_floor:
  fixes n c f :: int
  assumes "0 < n" "0 < c" "0 < f" "n * f < 2 ^ 51"
  shows "\<lfloor>rnd (rnd (of_int (n * f) / of_int c) / of_int f)\<rfloor> = n div c"
proof -
  define y where "y = (of_int n / of_int c :: rat)"
  define r1 where "r1 = rnd (of_int (n * f) / of_int c)"
  define r2 where "r2 = rnd (r1 / of_int f)"
  have y: "0 < y" using assms by (simp add: y_def)
  have "n * 1 \<le> n * f" using assms by (intro mult_left_mono) auto
  then have n: "n < 2 ^ 51" using assms(4) by simp
  have x: "of_int (n * f) / of_int c = y * of_int f" by (simp add: y_def)
  show ?thesis
  proof (cases "c dvd n")
    case True
    then obtain m where m: "n = c * m" by (auto simp: dvd_def)
    then have "0 < m" using assms by (simp add: zero_less_mult_iff)
    have ym: "y = of_int m" using assms(2) by (simp add: y_def m)
    have "m \<le> n" using assms(2) \<open>0 < m\<close> by (simp add: m mult_le_cancel_right1)
    then have mf: "m * f \<le> n * f" using assms(3) by (simp add: mult_right_mono)
    have "r1 = rnd (of_int (m * f))" unfolding r1_def x ym by simp
    also have "\<dots> = of_int (m * f)"
    proof (rule rnd_int)
      show "0 \<le> m * f" using \<open>0 < m\<close> assms(3) by simp
      show "m * f \<le> 2 ^ 53" using mf assms(4) by simp
    qed
    finally have "r1 / of_int f = of_int m" using assms(3) by simp
    then have "r2 = of_int m"
      unfolding r2_def using \<open>0 < m\<close> \<open>m \<le> n\<close> n by (simp add: rnd_int)
    then show ?thesis using assms(2) by (simp add: r2_def r1_def m)
  next
    case False
    define k where "k = n div c"
    define j where "j = n mod c"
    have "j \<noteq> 0" using False by (simp add: j_def dvd_eq_mod_eq_0)
    then have j: "1 \<le> j" "j \<le> c - 1" and n_eq: "n = c * k + j"
      using pos_mod_sign [OF assms(2), of n] pos_mod_bound [OF assms(2), of n]
      by (simp_all add: j_def k_def)
    have yk: "y = of_int k + of_int j / of_int c"
      using assms(2) by (simp add: y_def n_eq add_divide_distrib)
    have "of_int j \<le> (of_int (c - 1) :: rat)" using j(2) unfolding of_int_le_iff .
    moreover have "(1::rat) \<le> of_int j" using j(1) by simp
    ultimately have gap: "1 / of_int c \<le> of_int j / (of_int c :: rat)"
      "of_int j / of_int c \<le> 1 - 1 / (of_int c :: rat)"
      using assms(2) by (simp_all add: field_simps)
    have small: "y / 2 ^ 51 < 1 / of_int c"
    proof -
      have "of_int n < (2 ^ 51 :: rat)" using n by (metis of_int_less_iff of_int_numeral of_int_power)
      then show ?thesis using assms(2) by (simp add: y_def field_simps)
    qed
    have b1: "y * of_int f - y * of_int f / 2 ^ 53 \<le> r1" "r1 \<le> y * of_int f + y * of_int f / 2 ^ 53"
      unfolding r1_def x using y assms(3) by (rule_tac [!] rnd_bounds) simp_all
    define z where "z = r1 / of_int f"
    have z: "y - y / 2 ^ 53 \<le> z" "z \<le> y + y / 2 ^ 53"
      using b1 assms(3) by (simp_all add: z_def field_simps)
    have "0 < z" using z(1) y by (simp add: field_simps)
    from rnd_bounds [OF this] have b2: "z - z / 2 ^ 53 \<le> r2" "r2 \<le> z + z / 2 ^ 53"
      by (simp_all add: r2_def z_def)
    have z2: "z \<le> 2 * y" using z(2) y by simp
    have "r2 \<le> y + y / 2 ^ 51" using b2(2) z(2) z2 by (simp add: field_simps)
    moreover have "y - y / 2 ^ 51 \<le> r2" using b2(1) z(1) z2 by (simp add: field_simps)
    ultimately have "of_int k \<le> r2" "r2 < of_int k + 1"
      using small gap yk by linarith+
    then have "\<lfloor>r2\<rfloor> = k" by (simp add: floor_eq_iff)
    then show ?thesis by (simp add: r2_def r1_def k_def)
  qed
qed

end

section \<open>Rounding to 53 bits satisfies them\<close>

lemma round_even_near: "\<bar>of_int (round_even x) - x\<bar> \<le> 1 / 2"
proof -
  have "of_int \<lfloor>x\<rfloor> \<le> x" "x < of_int \<lfloor>x\<rfloor> + 1" by linarith+
  then show ?thesis by (auto simp: round_even_def Let_def abs_le_iff)
qed

lemma round_even_int [simp]: "round_even (of_int n) = n"
  by (simp add: round_even_def)

lemma power_int_pos [simp]: "0 < (2 powi e :: rat)"
  by simp

lemma bitlen_pow:
  assumes "0 < p"
  shows "2 powi (bitlen p - 1) \<le> (of_int p :: rat)" "of_int p < (2 powi (bitlen p) :: rat)"
proof -
  have b: "2 ^ nat (bitlen p - 1) \<le> p \<and> p < 2 ^ nat (bitlen p)"
    using assms bitlen_bounds by blast
  have "1 \<le> bitlen p" using assms by (simp add: bitlen_def floorlog_def)
  then have e: "(2 powi (bitlen p - 1) :: rat) = of_int (2 ^ nat (bitlen p - 1))"
    "(2 powi (bitlen p) :: rat) = of_int (2 ^ nat (bitlen p))"
    by (simp_all add: power_int_def)
  show "2 powi (bitlen p - 1) \<le> (of_int p :: rat)" "of_int p < (2 powi (bitlen p) :: rat)"
    using b unfolding e of_int_le_iff of_int_less_iff by blast+
qed

lemma f64_exponent_bounds:
  assumes "0 < r"
  shows "2 powi (f64_exponent r) \<le> r" "r < 2 powi (f64_exponent r + 1)"
proof -
  obtain p q where pq: "quotient_of r = (p, q)" by (cases "quotient_of r")
  have q: "0 < q" using pq by (rule quotient_of_denom_pos)
  have r: "r = of_int p / of_int q" using pq by (rule quotient_of_div)
  then have p: "0 < p" using assms q by (simp add: zero_less_divide_iff)
  define e where "e = bitlen p - bitlen q"
  have lo: "2 powi (e - 1) < r"
  proof -
    have "(2 powi (e - 1) :: rat) * of_int q < 2 powi (e - 1) * 2 powi (bitlen q)"
      using bitlen_pow(2) [OF q] by simp
    also have "\<dots> = 2 powi (bitlen p - 1)"
      by (simp add: e_def flip: power_int_add)
    also have "\<dots> \<le> of_int p" by (rule bitlen_pow(1) [OF p])
    finally show ?thesis using q by (simp add: r field_simps)
  qed
  have hi: "r < 2 powi (e + 1)"
  proof -
    have "of_int p < (2 powi (bitlen p) :: rat)" by (rule bitlen_pow(2) [OF p])
    also have "\<dots> = 2 powi (e + 1) * 2 powi (bitlen q - 1)"
      by (simp add: e_def flip: power_int_add)
    also have "\<dots> \<le> 2 powi (e + 1) * of_int q"
      using bitlen_pow(1) [OF q] by simp
    finally show ?thesis using q by (simp add: r field_simps)
  qed
  show "2 powi (f64_exponent r) \<le> r" "r < 2 powi (f64_exponent r + 1)"
    using lo hi by (auto simp: f64_exponent_def pq Let_def e_def [symmetric])
qed

lemma f64_round_pos_err:
  assumes "0 < r"
  shows "\<bar>f64_round_pos r - r\<bar> \<le> r / 2 ^ 53"
proof -
  define u where "u = (2 powi (f64_exponent r - 52) :: rat)"
  have u: "0 < u" by (simp add: u_def)
  have "2 ^ 52 * u = 2 powi (f64_exponent r)"
    by (simp add: u_def power_int_diff)
  then have big: "2 ^ 52 * u \<le> r" using f64_exponent_bounds(1) [OF assms] by simp
  have "f64_round_pos r - r = (of_int (round_even (r / u)) - r / u) * u"
    using u by (simp add: f64_round_pos_def u_def [symmetric] field_simps)
  then have "\<bar>f64_round_pos r - r\<bar> = \<bar>of_int (round_even (r / u)) - r / u\<bar> * u"
    using u by (simp add: abs_mult)
  also have "\<dots> \<le> 1 / 2 * u"
    using round_even_near u by (intro mult_right_mono) auto
  also have "\<dots> \<le> r / 2 ^ 53" using big by simp
  finally show ?thesis .
qed

text \<open>A value that is a whole number of units in the last place is exact.\<close>

lemma f64_round_pos_exact:
  assumes "r / 2 powi (f64_exponent r - 52) = of_int m"
  shows "f64_round_pos r = r"
proof -
  have "f64_round_pos r = of_int m * 2 powi (f64_exponent r - 52)"
    by (simp add: f64_round_pos_def Let_def assms)
  also have "\<dots> = r"
    by (simp flip: assms)
  finally show ?thesis .
qed

lemma f64_round_pos_int:
  assumes "0 < n" "n \<le> 2 ^ 53"
  shows "f64_round_pos (of_int n) = of_int n"
proof -
  let ?e = "f64_exponent (of_int n)"
  have pos: "0 < (of_int n :: rat)" using assms(1) by simp
  note b = f64_exponent_bounds [OF pos]
  show ?thesis
  proof (cases "?e \<le> 52")
    case True
    then have "(2 powi (52 - ?e) :: rat) = 2 ^ nat (52 - ?e)"
      by (simp add: power_int_def)
    then have "(2 powi (?e - 52) :: rat) = 1 / 2 ^ nat (52 - ?e)"
      by (metis minus_diff_eq power_int_minus_divide)
    then have "(of_int n :: rat) / 2 powi (?e - 52) = of_int (n * 2 ^ nat (52 - ?e))"
      by simp
    then show ?thesis by (rule f64_round_pos_exact)
  next
    case False
    have "(2::rat) powi 53 \<le> 2 powi ?e" using False by (intro power_int_increasing) auto
    also have "\<dots> \<le> of_int n" by (rule b(1))
    finally have "2 ^ 53 \<le> (of_int n :: rat)" by simp
    then have "(2 ^ 53 :: int) \<le> n"
      by (metis of_int_le_iff of_int_numeral of_int_power)
    with assms(2) have n: "n = 2 ^ 53" by simp
    have "?e = 53"
    proof (rule antisym)
      show "53 \<le> ?e" using False by simp
      show "?e \<le> 53"
      proof (rule ccontr)
        assume "\<not> ?e \<le> 53"
        then have "(2::rat) powi 54 \<le> 2 powi ?e" by (intro power_int_increasing) auto
        with b(1) show False by (simp add: n)
      qed
    qed
    then have "(of_int n :: rat) / 2 powi (?e - 52) = of_int (2 ^ 52)"
      by (simp add: n)
    then show ?thesis by (rule f64_round_pos_exact)
  qed
qed

interpretation f64: rounding f64_round
proof
  show "f64_round (of_int n) = of_int n" if "0 \<le> n" "n \<le> 2 ^ 53" for n
    using that by (cases "n = 0") (simp_all add: f64_round_def f64_round_pos_int)
  show "\<bar>f64_round x - x\<bar> \<le> x / 2 ^ 53" if "0 < x" for x
    using f64_round_pos_err [OF that] that by (simp add: f64_round_def)
qed

end
