(* ===== verification/Writeback.thy ===== *)
theory Writeback
  imports Models Float64
begin

text \<open>
  Units of database work (\<open>tracelistener/tracelistener.go\<close>): \<open>WritebackOp\<close>, the count of its query
  placeholders, and \<open>SplitStatements\<close>, which cuts one into units small enough for a query.
\<close>

section \<open>Writeback operations\<close>

text \<open>The type is a Go \<open>uint\<close>; \<open>Unknown\<close> stands for a value other than the two constants.\<close>

datatype WritebackStatementTypes = Delete | Write | Unknown nat

record WritebackOp =
  wb_Type :: WritebackStatementTypes
  wb_Data :: "entrier list"
  wb_Statement :: string
  wb_SourceModule :: string

fun statement_type_index :: "WritebackStatementTypes \<Rightarrow> nat" where
  "statement_type_index Delete = 0"
| "statement_type_index Write = 1"
| "statement_type_index (Unknown n) = n"

definition WritebackStatementTypes_String :: "WritebackStatementTypes \<Rightarrow> string" where
  "WritebackStatementTypes_String t =
     (let name = ''DeleteWrite''; index = [0, 6, 11]; i = statement_type_index t
      in if i \<ge> length index - 1
         then ''WritebackStatementTypes('' @ itoa i @ '')''
         else take (index ! (i + 1) - index ! i) (drop (index ! i) name))"

definition InterfaceSlice :: "WritebackOp \<Rightarrow> entrier list" where
  "InterfaceSlice wo = fold (\<lambda>d acc. acc @ [d]) (wb_Data wo) []"

definition dbPlaceholderTotalLimit :: int where
  "dbPlaceholderTotalLimit = 65535"

definition dbPlaceholderLimit :: int where
  "dbPlaceholderLimit = dbPlaceholderTotalLimit div 10"

text \<open>\<open>wo.Data[0]\<close> panics on an empty slice. A product of machine integers wraps around.\<close>

definition index_out_of_range :: string where
  "index_out_of_range = ''runtime error: index out of range''"

definition wrap64 :: "int \<Rightarrow> int" where
  "wrap64 i = sint (word_of_int i :: 64 word)"

definition DBSinglePlaceholderAmount :: "WritebackOp \<Rightarrow> int outcome" where
  "DBSinglePlaceholderAmount wo =
     (case wb_Data wo of [] \<Rightarrow> Panic index_out_of_range | d # _ \<Rightarrow> Ok (int (NumField d)))"

definition DBPlaceholderAmount :: "WritebackOp \<Rightarrow> int outcome" where
  "DBPlaceholderAmount wo =
     and_then (DBSinglePlaceholderAmount wo) (\<lambda>one. Ok (wrap64 (one * int (length (wb_Data wo)))))"

section \<open>Splitting\<close>

text \<open>The loop of \<open>buildEntrierChunks\<close> from index \<open>i\<close>; a step of zero never gets here.\<close>

function chunk_loop :: "'a list \<Rightarrow> nat \<Rightarrow> nat \<Rightarrow> 'a list list" where
  "chunk_loop xs chunkSize i =
     (if i < length xs \<and> 0 < chunkSize then
        let j = i + chunkSize; e = (if j > length xs then length xs else j)
        in take (e - i) (drop i xs) # chunk_loop xs chunkSize (i + chunkSize)
      else [])"
  by pat_completeness auto
termination
  by (relation "measure (\<lambda>(xs, c, i). length xs - i)") auto

declare chunk_loop.simps [simp del]

definition divide_by_zero :: string where
  "divide_by_zero = ''runtime error: integer divide by zero''"

definition makeslice_cap :: string where
  "makeslice_cap = ''runtime error: makeslice: cap out of range''"

text \<open>With a negative chunk size the capacity of the result is negative or the first slice runs
  backwards; either way the call panics unless there is nothing to cut.\<close>

definition buildEntrierChunks :: "entrier list \<Rightarrow> int \<Rightarrow> entrier list list outcome" where
  "buildEntrierChunks xs chunkSize =
     (if chunkSize = 0 then Panic divide_by_zero
      else if chunkSize < 0 then (if xs = [] then Ok [] else Panic makeslice_cap)
      else Ok (chunk_loop xs (nat chunkSize) 0))"

definition chunk_op :: "WritebackOp \<Rightarrow> entrier list \<Rightarrow> WritebackOp" where
  "chunk_op wo chunk =
     \<lparr>wb_Type = wb_Type wo, wb_Data = chunk, wb_Statement = wb_Statement wo, wb_SourceModule = []\<rparr>"

definition SplitStatements :: "WritebackOp \<Rightarrow> int \<Rightarrow> WritebackOp list outcome" where
  "SplitStatements wo limit =
     (if wb_Data wo = [] then Ok [wo]
      else and_then (DBPlaceholderAmount wo) (\<lambda>dbQueryPlaceholderAmount.
        if dbQueryPlaceholderAmount \<le> limit then Ok [wo]
        else
          let amount = f64_of_int dbQueryPlaceholderAmount;
              chunksAmount = f64_ceil (f64_div amount (f64_of_int limit));
              placeholderPerChunkAmount = f64_div amount chunksAmount
          in and_then (DBSinglePlaceholderAmount wo) (\<lambda>one.
             let splitAmount = f64_to_int64 (f64_div placeholderPerChunkAmount (f64_of_int one))
             in if splitAmount < 0 then Panic makeslice_cap
                else and_then (buildEntrierChunks (wb_Data wo) splitAmount) (\<lambda>chunks.
                  Ok (map (chunk_op wo) chunks)))))"

definition SplitStatementToDBLimit :: "WritebackOp \<Rightarrow> WritebackOp list outcome" where
  "SplitStatementToDBLimit wo = SplitStatements wo dbPlaceholderLimit"

section \<open>Facts about chunks\<close>

lemma concat_chunk_loop: "0 < c \<Longrightarrow> concat (chunk_loop xs c i) = drop i xs"
proof (induction xs c i rule: chunk_loop.induct)
  case (1 xs c i)
  show ?case
  proof (cases "i < length xs")
    case True
    with "1" have IH: "concat (chunk_loop xs c (i + c)) = drop (i + c) xs" by simp
    show ?thesis
    proof (cases "i + c > length xs")
      case True
      with IH "1.prems" \<open>i < length xs\<close> show ?thesis by (simp add: chunk_loop.simps [of xs c i])
    next
      case False
      with IH "1.prems" \<open>i < length xs\<close> show ?thesis
        by (simp add: chunk_loop.simps [of xs c i] Let_def)
          (metis add.commute append_take_drop_id drop_drop)
    qed
  next
    case False
    then show ?thesis by (simp add: chunk_loop.simps [of xs c i])
  qed
qed

lemma chunk_loop_sizes:
  "0 < c \<Longrightarrow> chunk \<in> set (chunk_loop xs c i) \<Longrightarrow> chunk \<noteq> [] \<and> length chunk \<le> c"
proof (induction xs c i rule: chunk_loop.induct)
  case (1 xs c i)
  then show ?case
    by (cases "i < length xs") (auto simp: chunk_loop.simps [of xs c i] Let_def split: if_splits)
qed

lemma buildEntrierChunks_Ok:
  "0 < c \<Longrightarrow> buildEntrierChunks xs c = Ok (chunk_loop xs (nat c) 0)"
  by (simp add: buildEntrierChunks_def)

lemma wrap64_id: "0 \<le> i \<Longrightarrow> i < 2 ^ 51 \<Longrightarrow> wrap64 i = i"
  by (simp add: wrap64_def signed_of_int signed_take_bit_int_eq_self)

lemma InterfaceSlice_Data: "InterfaceSlice wo = wb_Data wo"
proof -
  have "fold (\<lambda>d acc. acc @ [d]) xs ys = ys @ xs" for xs ys :: "entrier list"
    by (induction xs arbitrary: ys) auto
  then show ?thesis by (simp add: InterfaceSlice_def)
qed

section \<open>The size of a chunk\<close>

text \<open>The floating-point computation of \<open>splitAmount\<close> is exact integer arithmetic.\<close>

definition split_chunks :: "int \<Rightarrow> int \<Rightarrow> int" where
  "split_chunks amount limit = \<lceil>of_int amount / (of_int limit :: rat)\<rceil>"

lemma split_chunks_pos:
  assumes "0 < limit" "0 < amount"
  shows "0 < split_chunks amount limit"
  using assms by (simp add: split_chunks_def)

lemma split_chunks_le_iff:
  assumes "0 < limit"
  shows "split_chunks (n * f) limit \<le> n \<longleftrightarrow> n * f \<le> n * limit"
proof -
  have "split_chunks (n * f) limit \<le> n \<longleftrightarrow> of_int (n * f) / of_int limit \<le> (of_int n :: rat)"
    by (simp add: split_chunks_def ceiling_le_iff)
  also have "\<dots> \<longleftrightarrow> of_int (n * f) \<le> (of_int (n * limit) :: rat)"
    using assms by (simp add: divide_le_eq)
  also have "\<dots> \<longleftrightarrow> n * f \<le> n * limit"
    by (rule of_int_le_iff)
  finally show ?thesis .
qed

lemma splitAmount_exact:
  assumes "0 < limit" "0 < n" "0 < f" "n * f < 2 ^ 51" and over: "limit < n * f"
  shows "f64_to_int64 (f64_div (f64_div (f64_of_int (n * f))
            (f64_ceil (f64_div (f64_of_int (n * f)) (f64_of_int limit)))) (f64_of_int f)) =
         n div split_chunks (n * f) limit"
    (is "?l = _")
proof -
  have amt: "0 < n * f" using assms by simp
  then have r1: "f64_round (of_int (n * f)) = of_int (n * f)"
    using assms by (intro f64.rnd_int) auto
  have r2: "f64_round (of_int limit) = of_int limit"
    using assms by (intro f64.rnd_int) auto
  have "n \<ge> 1" "f * 1 \<le> f * n" using assms by (auto intro!: mult_left_mono)
  then have "f < 2 ^ 51" using assms(4) by (simp add: mult.commute)
  then have r3: "f64_round (of_int f) = of_int f"
    using assms by (intro f64.rnd_int) auto
  define c where "c = split_chunks (n * f) limit"
  have c: "0 < c" unfolding c_def using assms(1) amt by (rule split_chunks_pos)
  have ceil: "\<lceil>f64_round (of_int (n * f) / of_int limit)\<rceil> = c"
    unfolding c_def split_chunks_def using assms amt by (intro f64.rnd_quotient_ceiling) auto
  define q where "q = f64_round (f64_round (of_int (n * f) / of_int c) / of_int f)"
  have floor: "\<lfloor>q\<rfloor> = n div c"
    unfolding q_def using assms c by (intro f64.rnd_two_quotients_floor)
  have "n * 1 \<le> n * f" using assms by (intro mult_left_mono) auto
  then have n: "n < 2 ^ 51" using assms(4) by simp
  have "0 \<le> n div c" "n div c \<le> n"
    using assms c \<open>n \<ge> 1\<close> zdiv_mono2 [of n 1 c]
    by (auto simp: pos_imp_zdiv_nonneg_iff)
  then have "f64_to_int64 (Fin q) = n div c"
    using floor n zero_le_floor [of q] by (auto simp: Let_def)
  moreover have "?l = f64_to_int64 (Fin q)"
    using r1 r2 r3 ceil assms c
    by (simp add: f64_of_int_def q_def del: f64_to_int64.simps of_int_mult)
  ultimately show ?thesis by (simp add: c_def)
qed

text \<open>The three outcomes: small enough already, no room for a single row, cut into equal chunks.\<close>

lemma SplitStatements_cases:
  assumes "0 < limit" and data: "wb_Data wo = d # ds"
    and n: "n = int (length (wb_Data wo))" and f: "f = int (NumField d)" and small: "n * f < 2 ^ 51"
  shows "SplitStatements wo limit =
    (if n * f \<le> limit then Ok [wo]
     else if limit < f then Panic divide_by_zero
     else Ok (map (chunk_op wo)
                (chunk_loop (wb_Data wo) (nat (n div split_chunks (n * f) limit)) 0)))"
proof -
  have pos: "0 < n" "0 < f" using data NumField_pos [of d] by (simp_all add: n f)
  have one: "DBSinglePlaceholderAmount wo = Ok f"
    by (simp add: DBSinglePlaceholderAmount_def data f)
  have "wrap64 (f * n) = n * f"
    using pos small by (simp add: wrap64_id mult.commute)
  then have amount: "DBPlaceholderAmount wo = Ok (n * f)"
    using n by (simp add: DBPlaceholderAmount_def one)
  show ?thesis
  proof (cases "n * f \<le> limit")
    case True
    then show ?thesis by (simp add: SplitStatements_def amount data)
  next
    case False
    define c where "c = split_chunks (n * f) limit"
    have c: "0 < c" unfolding c_def using assms(1) pos by (intro split_chunks_pos) auto
    have iff: "c \<le> n \<longleftrightarrow> f \<le> limit"
      unfolding c_def split_chunks_le_iff [OF assms(1)] using pos by simp
    have split: "SplitStatements wo limit =
      (if n div c < 0 then Panic makeslice_cap
       else and_then (buildEntrierChunks (wb_Data wo) (n div c)) (\<lambda>chunks. Ok (map (chunk_op wo) chunks)))"
      using False splitAmount_exact [OF assms(1) pos small]
      by (simp add: SplitStatements_def amount one data Let_def c_def del: of_int_mult)
    have nonneg: "\<not> n div c < 0" using pos c by (simp add: pos_imp_zdiv_neg_iff)
    show ?thesis
    proof (cases "limit < f")
      case True
      then have "n div c = 0" using iff pos by (simp add: div_pos_pos_trivial)
      with False True split show ?thesis by (simp add: buildEntrierChunks_def)
    next
      case room: False
      then have "0 < n div c" using iff c by (simp add: pos_imp_zdiv_pos_iff)
      with False room split nonneg show ?thesis
        by (simp add: buildEntrierChunks_Ok c_def)
    qed
  qed
qed

lemma chunk_size_fits:
  assumes "0 < limit" "0 < n" "0 < f" "f \<le> limit" "limit < n * f"
  shows "0 < n div split_chunks (n * f) limit" "f * (n div split_chunks (n * f) limit) \<le> limit"
proof -
  define c where "c = split_chunks (n * f) limit"
  have c: "0 < c" unfolding c_def using assms by (intro split_chunks_pos) auto
  have "c \<le> n" unfolding c_def split_chunks_le_iff [OF assms(1)] using assms by simp
  then show "0 < n div split_chunks (n * f) limit"
    using c by (simp add: pos_imp_zdiv_pos_iff flip: c_def)
  have "of_int (n * f) / of_int limit \<le> (of_int c :: rat)"
    unfolding c_def split_chunks_def by (rule le_of_int_ceiling)
  then have "of_int (n * f) \<le> (of_int (c * limit) :: rat)"
    using assms(1) by (simp add: divide_le_eq)
  then have le: "n * f \<le> c * limit" unfolding of_int_le_iff .
  have "c * (n div c) \<le> n"
    using mult_div_mod_eq [of c n] pos_mod_sign [OF c, of n] by linarith
  then have "f * (c * (n div c)) \<le> f * n"
    using assms(3) by (intro mult_left_mono) simp_all
  then have "c * (f * (n div c)) \<le> f * n" by (simp only: mult.left_commute [of c f])
  also have "\<dots> \<le> c * limit" using le by (simp add: mult.commute)
  finally show "f * (n div split_chunks (n * f) limit) \<le> limit"
    using c by (simp flip: c_def)
qed

lemma SplitStatements_form:
  assumes "SplitStatements wo limit = Ok parts"
  shows "parts = [wo] \<or> (\<exists>s chunks. buildEntrierChunks (wb_Data wo) s = Ok chunks \<and>
                                 parts = map (chunk_op wo) chunks)"
  using assms by (auto simp: SplitStatements_def Let_def outcome_simps split: if_splits)

lemma buildEntrierChunks_concat:
  "buildEntrierChunks xs s = Ok chunks \<Longrightarrow> concat chunks = xs"
  by (auto simp: buildEntrierChunks_def concat_chunk_loop split: if_splits)

lemma SplitStatements_lossless:
  assumes "SplitStatements wo limit = Ok parts"
  shows "concat (map wb_Data parts) = wb_Data wo"
    and "\<forall>p \<in> set parts. wb_Type p = wb_Type wo \<and> wb_Statement p = wb_Statement wo"
proof -
  have data: "map wb_Data (map (chunk_op wo) chunks) = chunks" for chunks
    by (induction chunks) (simp_all add: chunk_op_def)
  show "concat (map wb_Data parts) = wb_Data wo"
    using SplitStatements_form [OF assms] by (auto simp: data buildEntrierChunks_concat simp del: map_map)
  show "\<forall>p \<in> set parts. wb_Type p = wb_Type wo \<and> wb_Statement p = wb_Statement wo"
    using SplitStatements_form [OF assms] by (auto simp: chunk_op_def)
qed

lemma SplitStatements_exact:
  assumes "0 < limit" "\<forall>e \<in> set (wb_Data wo). int (NumField e) = f" "f \<le> limit"
    and "int (length (wb_Data wo)) * f < 2 ^ 51"
  shows "\<exists>parts. SplitStatements wo limit = Ok parts \<and>
    concat (map wb_Data parts) = wb_Data wo \<and>
    (\<forall>p \<in> set parts. wb_Type p = wb_Type wo \<and> wb_Statement p = wb_Statement wo \<and>
       f * int (length (wb_Data p)) \<le> limit \<and> (wb_Data wo \<noteq> [] \<longrightarrow> wb_Data p \<noteq> []))"
proof (cases "wb_Data wo")
  case Nil
  then show ?thesis using assms(1) by (simp add: SplitStatements_def)
next
  case (Cons d ds)
  define n where "n = int (length (wb_Data wo))"
  have f: "f = int (NumField d)" using assms(2) by (simp add: Cons)
  have pos: "0 < n" "0 < f" using NumField_pos [of d] by (simp_all add: n_def Cons f)
  have small: "n * f < 2 ^ 51" using assms(4) by (simp add: n_def)
  note split = SplitStatements_cases [OF assms(1) Cons n_def f small]
  show ?thesis
  proof (cases "n * f \<le> limit")
    case True
    then show ?thesis using split by (simp add: n_def mult.commute Cons)
  next
    case False
    define c where "c = n div split_chunks (n * f) limit"
    have c: "0 < c" "f * c \<le> limit"
      unfolding c_def using assms(1,3) pos False by (intro chunk_size_fits; simp)+
    define parts where "parts = map (chunk_op wo) (chunk_loop (wb_Data wo) (nat c) 0)"
    have ok: "SplitStatements wo limit = Ok parts"
      using split False assms(3) by (simp add: parts_def c_def)
    have "f * int (length (wb_Data p)) \<le> limit \<and> wb_Data p \<noteq> []" if p: "p \<in> set parts" for p
    proof -
      from p obtain chunk where "chunk \<in> set (chunk_loop (wb_Data wo) (nat c) 0)" "wb_Data p = chunk"
        by (auto simp: parts_def chunk_op_def)
      with chunk_loop_sizes [of "nat c" chunk "wb_Data wo" 0] c(1)
      have "wb_Data p \<noteq> []" "int (length (wb_Data p)) \<le> c" by auto
      moreover from this(2) have "f * int (length (wb_Data p)) \<le> f * c"
        using pos by (intro mult_left_mono) simp_all
      ultimately show ?thesis using c(2) by linarith
    qed
    then show ?thesis using ok SplitStatements_lossless [OF ok] by blast
  qed
qed

section \<open>Properties\<close>

text \<open>C19. For rows of one struct with at most \<open>limit\<close> fields, \<open>SplitStatements\<close> returns: the parts
  concatenate to the original rows in order, keep its type and statement, and none of them counts
  more than \<open>limit\<close> placeholders; a non-empty operation has no empty part. The rounding of the
  floating-point computation never changes the chunk size below \<open>2 ^ 51\<close> placeholders.\<close>

theorem SplitStatements_splits:
  assumes "0 < limit" "\<forall>e \<in> set (wb_Data wo). int (NumField e) = f" "f \<le> limit"
    and "int (length (wb_Data wo)) * f < 2 ^ 51"
  shows "\<exists>parts. SplitStatements wo limit = Ok parts \<and>
    concat (map wb_Data parts) = wb_Data wo \<and>
    (\<forall>p \<in> set parts. wb_Type p = wb_Type wo \<and> wb_Statement p = wb_Statement wo \<and>
       f * int (length (wb_Data p)) \<le> limit \<and> (wb_Data wo \<noteq> [] \<longrightarrow> wb_Data p \<noteq> []))"
  using assms by (rule SplitStatements_exact)

definition demo_rows :: "entrier list" where
  "demo_rows = map (\<lambda>a. EAuth \<lparr>ChainName = ''chain'', RowID = 0, Height = 1, DeleteHeight = None,
     auth_Address = a, auth_SequenceNumber = 1, auth_AccountNumber = 1\<rparr>) [''a'', ''b'', ''c'', ''d'']"

definition demo_op :: WritebackOp where
  "demo_op = \<lparr>wb_Type = Write, wb_Data = demo_rows, wb_Statement = ''stmt'', wb_SourceModule = ''acc''\<rparr>"

theorem SplitStatements_splits_witness:
  "\<exists>parts. SplitStatements demo_op 15 = Ok parts \<and>
    concat (map wb_Data parts) = wb_Data demo_op \<and>
    (\<forall>p \<in> set parts. wb_Type p = wb_Type demo_op \<and> wb_Statement p = wb_Statement demo_op \<and>
       4 * int (length (wb_Data p)) \<le> 15 \<and> (wb_Data demo_op \<noteq> [] \<longrightarrow> wb_Data p \<noteq> []))"
  by (rule SplitStatements_splits) (simp_all add: demo_op_def demo_rows_def NumField_def)

text \<open>C20. \<open>SplitStatements\<close> panics (dividing by a chunk size of zero) exactly when a single row
  already has more fields than the limit.\<close>

theorem SplitStatements_panics_iff:
  assumes "0 < limit" "wb_Data wo = d # ds"
    and "int (length (wb_Data wo)) * int (NumField d) < 2 ^ 51"
  shows "is_panic (SplitStatements wo limit) \<longleftrightarrow> limit < int (NumField d)"
proof -
  define n f where "n = int (length (wb_Data wo))" and "f = int (NumField d)"
  have pos: "1 \<le> n" "0 < f" using assms(2) NumField_pos [of d] by (simp_all add: n_def f_def)
  then have "1 * f \<le> n * f" by (intro mult_right_mono) auto
  then show ?thesis
    using SplitStatements_cases [OF assms(1,2) n_def f_def] assms(3)
    by (auto simp: f_def n_def)
qed

theorem SplitStatements_panics_iff_witness:
  "is_panic (SplitStatements demo_op 3) \<longleftrightarrow> (3::int) < int (NumField (hd demo_rows))"
  by (rule SplitStatements_panics_iff [where ds = "tl demo_rows"])
    (simp_all add: demo_op_def demo_rows_def NumField_def)

end
