(* ===== verification/Json.thy ===== *)
theory Json
  imports Go_Lib Float64
begin

text \<open>
  The part of \<open>encoding/json\<close> the program relies on, from the parsed value on: which object keys
  match a struct field, how a value is stored into a string, an integer, a byte slice or an
  \<open>interface{}\<close>, and the standard base64 encoding of byte slices. The scanner that turns bytes into a
  value is an argument of the definitions that need it. The texts of the package's errors are not
  represented.
\<close>

section \<open>Values\<close>

text \<open>A number keeps its literal: sign, digits before the point, digits after it, exponent.\<close>

datatype json =
    JNull
  | JBool bool
  | JNum bool nat "nat list" "int option"
  | JStr string
  | JArr "json list"
  | JObj "(string \<times> json) list"

definition json_error :: string where
  "json_error = ''json: cannot unmarshal''"

section \<open>Object keys\<close>

text \<open>Keys match field names up to case; the Kelvin sign and the long s fold to ASCII letters.\<close>

definition lower :: "char \<Rightarrow> char" where
  "lower c = (if 65 \<le> (of_char c :: nat) \<and> (of_char c :: nat) \<le> 90
              then char_of ((of_char c :: nat) + 32) else c)"

fun fold_key :: "string \<Rightarrow> string" where
  "fold_key (a # b # c # s) =
     (if a = CHR 0xE2 \<and> b = CHR 0x84 \<and> c = CHR 0xAA then CHR ''k'' # fold_key s
      else if a = CHR 0xC5 \<and> b = CHR 0xBF then CHR ''s'' # fold_key (c # s)
      else lower a # fold_key (b # c # s))"
| "fold_key [a, b] =
     (if a = CHR 0xC5 \<and> b = CHR 0xBF then ''s'' else [lower a, lower b])"
| "fold_key [a] = [lower a]"
| "fold_key [] = []"

text \<open>
  An object is stored into a struct key by key; a later key overwrites an earlier one. \<open>set_field\<close>
  yields the struct with one field assigned, or the struct itself for an unknown field. The package
  goes on after a value of a wrong type and reports it at the end; the callers drop the struct then.
\<close>

fun store_fields :: "(string \<Rightarrow> json \<Rightarrow> 's \<Rightarrow> 's outcome) \<Rightarrow> (string \<times> json) list \<Rightarrow> 's \<Rightarrow> 's outcome" where
  "store_fields set_field [] s = Ok s"
| "store_fields set_field ((k, v) # kvs) s =
     and_then (set_field (fold_key k) v s) (store_fields set_field kvs)"

definition store_struct :: "(string \<Rightarrow> json \<Rightarrow> 's \<Rightarrow> 's outcome) \<Rightarrow> json \<Rightarrow> 's \<Rightarrow> 's outcome" where
  "store_struct set_field v s =
     (case v of JNull \<Rightarrow> Ok s | JObj kvs \<Rightarrow> store_fields set_field kvs s | _ \<Rightarrow> Err json_error)"

section \<open>Scalars\<close>

fun store_string :: "json \<Rightarrow> string \<Rightarrow> string outcome" where
  "store_string JNull old = Ok old"
| "store_string (JStr s) old = Ok s"
| "store_string _ old = Err json_error"

fun store_int64 :: "json \<Rightarrow> 64 word \<Rightarrow> 64 word outcome" where
  "store_int64 JNull old = Ok old"
| "store_int64 (JNum neg n [] None) old =
     (let i = (if neg then - int n else int n)
      in if - (2 ^ 63) \<le> i \<and> i < 2 ^ 63 then Ok (word_of_int i) else Err json_error)"
| "store_int64 _ old = Err json_error"

fun store_uint64 :: "json \<Rightarrow> u64 \<Rightarrow> u64 outcome" where
  "store_uint64 JNull old = Ok old"
| "store_uint64 (JNum False n [] None) old = (if n < 2 ^ 64 then Ok (of_nat n) else Err json_error)"
| "store_uint64 _ old = Err json_error"

section \<open>Numbers as interface values\<close>

definition number_value :: "bool \<Rightarrow> nat \<Rightarrow> nat list \<Rightarrow> int option \<Rightarrow> rat" where
  "number_value neg n fr ex =
     (let digits = foldl (\<lambda>acc d. 10 * acc + d) n fr;
          scale = 10 powi ((case ex of None \<Rightarrow> 0 | Some e \<Rightarrow> e) - int (length fr));
          m = of_nat digits * scale
      in if neg then - m else m)"

text \<open>\<open>strconv.ParseFloat\<close> rounds to the nearest \<open>float64\<close> and rejects what is out of range.\<close>

definition ParseFloat :: "rat \<Rightarrow> f64 outcome" where
  "ParseFloat x =
     (let y = f64_round x in if \<bar>y\<bar> < 2 ^ 1024 then Ok (Fin y) else Err json_error)"

text \<open>\<open>uint64(x)\<close> drops the fraction; out of range the language leaves the result to the
  implementation, here the argument \<open>wild\<close>.\<close>

fun f64_to_uint64 :: "(f64 \<Rightarrow> u64) \<Rightarrow> f64 \<Rightarrow> u64" where
  "f64_to_uint64 wild (Fin a) =
     (let t = (if a < 0 then \<lceil>a\<rceil> else \<lfloor>a\<rfloor>)
      in if 0 \<le> t \<and> t < 2 ^ 64 then word_of_int t else wild (Fin a))"
| "f64_to_uint64 wild x = wild x"

section \<open>Base64\<close>

definition base64_alphabet :: string where
  "base64_alphabet = ''ABCDEFGHIJKLMNOPQRSTUVWXYZabcdefghijklmnopqrstuvwxyz0123456789+/''"

fun index_of :: "'a \<Rightarrow> 'a list \<Rightarrow> nat option" where
  "index_of x [] = None"
| "index_of x (y # ys) = (if x = y then Some 0 else map_option Suc (index_of x ys))"

definition sextet :: "char \<Rightarrow> nat option" where
  "sextet c = index_of c base64_alphabet"

definition three_bytes :: "nat \<Rightarrow> nat \<Rightarrow> nat \<Rightarrow> nat \<Rightarrow> bytes" where
  "three_bytes a b c d =
     [of_nat (4 * a + b div 16), of_nat (16 * (b mod 16) + c div 4), of_nat (64 * (c mod 4) + d)]"

text \<open>Padding ends the text. Bits past the last byte are ignored.\<close>

fun base64_quads :: "string \<Rightarrow> bytes option" where
  "base64_quads [] = Some []"
| "base64_quads (p # q # r # s # cs) =
     (case (sextet p, sextet q) of
        (Some a, Some b) \<Rightarrow>
          if r = CHR ''='' then
            (if s = CHR ''='' \<and> cs = [] then Some (take 1 (three_bytes a b 0 0)) else None)
          else (case sextet r of
            None \<Rightarrow> None
          | Some c \<Rightarrow>
              if s = CHR ''='' then (if cs = [] then Some (take 2 (three_bytes a b c 0)) else None)
              else (case sextet s of
                None \<Rightarrow> None
              | Some d \<Rightarrow> map_option (\<lambda>bs. three_bytes a b c d @ bs) (base64_quads cs)))
      | _ \<Rightarrow> None)"
| "base64_quads _ = None"

text \<open>
  The decoder skips line ends. The buffer it fills has \<open>DecodedLen\<close> bytes, three for four
  characters, so padding leaves spare capacity behind the result.
\<close>

definition base64_decode :: "string \<Rightarrow> slice outcome" where
  "base64_decode s =
     (case base64_quads (filter (\<lambda>c. c \<noteq> CHR 0x0A \<and> c \<noteq> CHR 0x0D) s) of
        None \<Rightarrow> Err ''illegal base64 data''
      | Some bs \<Rightarrow> Ok (Slice bs (replicate (length s div 4 * 3 - length bs) 0)))"

fun base64_encode :: "bytes \<Rightarrow> string" where
  "base64_encode [] = []"
| "base64_encode [x] =
     [base64_alphabet ! (unat x div 4), base64_alphabet ! (unat x mod 4 * 16), CHR ''='', CHR ''='']"
| "base64_encode [x, y] =
     [base64_alphabet ! (unat x div 4), base64_alphabet ! (unat x mod 4 * 16 + unat y div 16),
      base64_alphabet ! (unat y mod 16 * 4), CHR ''='']"
| "base64_encode (x # y # z # bs) =
     [base64_alphabet ! (unat x div 4), base64_alphabet ! (unat x mod 4 * 16 + unat y div 16),
      base64_alphabet ! (unat y mod 16 * 4 + unat z div 64), base64_alphabet ! (unat z mod 64)]
     @ base64_encode bs"

section \<open>Byte slices\<close>

text \<open>A byte slice is a base64 string, or an array of numbers; arrays grow by half from four.\<close>

fun store_byte :: "json \<Rightarrow> byte outcome" where
  "store_byte JNull = Ok 0"
| "store_byte (JNum False n [] None) = (if n < 256 then Ok (of_nat n) else Err json_error)"
| "store_byte _ = Err json_error"

fun store_byte_list :: "json list \<Rightarrow> bytes outcome" where
  "store_byte_list [] = Ok []"
| "store_byte_list (v # vs) =
     and_then (store_byte v) (\<lambda>b. and_then (store_byte_list vs) (\<lambda>bs. Ok (b # bs)))"

function array_cap :: "nat \<Rightarrow> nat \<Rightarrow> nat" where
  "array_cap cap n = (if n \<le> cap then cap else array_cap (max 4 (cap + cap div 2)) n)"
  by pat_completeness auto
termination
  by (relation "measure (\<lambda>(cap, n). n - cap)") auto

declare array_cap.simps [simp del]

fun store_bytes :: "json \<Rightarrow> slice outcome" where
  "store_bytes JNull = Ok (Slice [] [])"
| "store_bytes (JStr s) = base64_decode s"
| "store_bytes (JArr vs) =
     and_then (store_byte_list vs) (\<lambda>bs.
       Ok (Slice bs (replicate (array_cap 0 (length bs) - length bs) 0)))"
| "store_bytes _ = Err json_error"

section \<open>Facts\<close>

lemma index_of_nth: "distinct xs \<Longrightarrow> i < length xs \<Longrightarrow> index_of (xs ! i) xs = Some i"
proof (induction xs arbitrary: i)
  case (Cons x xs)
  then show ?case by (cases i) (auto simp: nth_mem)
qed simp

lemma distinct_base64_alphabet: "distinct base64_alphabet"
  by code_simp

lemma length_base64_alphabet: "length base64_alphabet = 64"
  by code_simp

lemma sextet_nth [simp]: "i < 64 \<Longrightarrow> sextet (base64_alphabet ! i) = Some i"
  by (simp add: sextet_def index_of_nth distinct_base64_alphabet length_base64_alphabet)

lemma base64_alphabet_plain:
  "\<forall>c \<in> set base64_alphabet. c \<noteq> CHR ''='' \<and> c \<noteq> CHR 0x0A \<and> c \<noteq> CHR 0x0D"
  by code_simp

lemma nth_base64_plain [simp]:
  assumes "i < 64"
  shows "base64_alphabet ! i \<noteq> CHR ''=''" "base64_alphabet ! i \<noteq> CHR 0x0A"
    "base64_alphabet ! i \<noteq> CHR 0x0D"
  using assms base64_alphabet_plain by (metis length_base64_alphabet nth_mem)+

lemma byte_div_mod [simp]:
  "unat (x :: byte) div 4 < 64" "unat x mod 4 * 16 < 64" "unat x mod 4 * 16 + unat (y :: byte) div 16 < 64"
  "unat x mod 16 * 4 + unat y div 64 < 64" "unat x mod 16 * 4 < 64"
  using unat_byte_lt [of x] unat_byte_lt [of y] by linarith+

text \<open>Three bytes cut into sextets and put together again.\<close>

lemma sextets:
  fixes x y z :: nat
  assumes "y < 256" "z < 256"
  shows "4 * (x div 4) + (x mod 4 * 16 + y div 16) div 16 = x"
    "16 * ((x mod 4 * 16 + y div 16) mod 16) + (y mod 16 * 4 + z div 64) div 4 = y"
    "64 * ((y mod 16 * 4 + z div 64) mod 4) + z mod 64 = z"
proof -
  have "y div 16 < 16" "z div 64 < 4" using assms by linarith+
  then have "(x mod 4 * 16 + y div 16) div 16 = x mod 4" "(x mod 4 * 16 + y div 16) mod 16 = y div 16"
    "(y mod 16 * 4 + z div 64) div 4 = y mod 16" "(y mod 16 * 4 + z div 64) mod 4 = z div 64"
    by simp_all
  then show "4 * (x div 4) + (x mod 4 * 16 + y div 16) div 16 = x"
    "16 * ((x mod 4 * 16 + y div 16) mod 16) + (y mod 16 * 4 + z div 64) div 4 = y"
    "64 * ((y mod 16 * 4 + z div 64) mod 4) + z mod 64 = z"
    by simp_all
qed

lemma three_bytes_split:
  "three_bytes (unat x div 4) (unat x mod 4 * 16 + unat y div 16) (unat y mod 16 * 4 + unat z div 64)
     (unat z mod 64) = [x, y, z :: byte]"
  unfolding three_bytes_def sextets [OF unat_byte_lt unat_byte_lt] by simp

lemma take_three_bytes:
  "take 1 (three_bytes (unat x div 4) (unat x mod 4 * 16) 0 0) = [x :: byte]"
  "take 2 (three_bytes (unat x div 4) (unat x mod 4 * 16 + unat y div 16) (unat y mod 16 * 4) 0) = [x, y]"
proof -
  show "take 1 (three_bytes (unat x div 4) (unat x mod 4 * 16) 0 0) = [x :: byte]"
  proof -
    have "4 * (unat x div 4) + unat x mod 4 * 16 div 16 = unat x" by presburger
    then show ?thesis unfolding three_bytes_def by (simp only:) simp
  qed
  show "take 2 (three_bytes (unat x div 4) (unat x mod 4 * 16 + unat y div 16) (unat y mod 16 * 4) 0) = [x, y]"
    using three_bytes_split [of x y 0] by (simp add: three_bytes_def)
qed

lemma base64_quads_encode: "base64_quads (base64_encode bs) = Some bs"
proof (induction bs rule: base64_encode.induct)
  case 1
  then show ?case by simp
next
  case (2 x)
  show ?case using take_three_bytes(1) [of x] by simp
next
  case (3 x y)
  show ?case by (simp add: take_three_bytes)
next
  case (4 x y z bs)
  then show ?case by (simp add: three_bytes_split)
qed

lemma base64_encode_chars: "set (base64_encode bs) \<subseteq> insert (CHR ''='') (set base64_alphabet)"
  by (induction bs rule: base64_encode.induct)
    (auto simp: length_base64_alphabet intro!: nth_mem simp del: set_conv_nth)

lemma length_base64_encode: "length (base64_encode bs) = 4 * ((length bs + 2) div 3)"
proof (induction bs rule: base64_encode.induct)
  case (4 x y z bs)
  have "(length bs + 5) div 3 = (length bs + 2) div 3 + 1" by presburger
  then show ?case by (simp add: 4 add.commute)
qed simp_all

text \<open>What the encoder writes, the decoder reads; the slice has at most two bytes of spare capacity.\<close>

definition padding :: "nat \<Rightarrow> bytes" where
  "padding n = replicate ((n + 2) div 3 * 3 - n) 0"

lemma base64_round_trip: "base64_decode (base64_encode bs) = Ok (Slice bs (padding (length bs)))"
proof -
  have "filter (\<lambda>c. c \<noteq> CHR 0x0A \<and> c \<noteq> CHR 0x0D) (base64_encode bs) = base64_encode bs"
    using base64_encode_chars [of bs] base64_alphabet_plain by (intro filter_True) auto
  then show ?thesis
    by (simp add: base64_decode_def base64_quads_encode length_base64_encode padding_def)
qed

section \<open>Storing never panics\<close>

lemma base64_decode_no_panic: "base64_decode s \<noteq> Panic p"
  by (simp add: base64_decode_def split: option.splits)

lemma store_byte_list_no_panic: "store_byte_list vs \<noteq> Panic p"
proof (induction vs)
  case (Cons v vs)
  have "store_byte v \<noteq> Panic q" for q
    by (induction v rule: store_byte.induct) simp_all
  with Cons show ?case by (simp add: and_then_Panic)
qed simp

lemma store_bytes_no_panic: "store_bytes v \<noteq> Panic p"
  by (cases v) (simp_all add: base64_decode_no_panic and_then_Panic store_byte_list_no_panic)

lemma store_struct_no_panic:
  assumes "\<And>k v s p. set_field k v s \<noteq> Panic p"
  shows "store_struct set_field v s \<noteq> Panic p"
proof -
  have "store_fields set_field kvs s \<noteq> Panic p" for kvs s p
  proof (induction kvs arbitrary: s)
    case (Cons kv kvs)
    then show ?case by (cases kv) (simp add: and_then_Panic assms)
  qed simp
  then show ?thesis by (simp add: store_struct_def split: json.splits)
qed

end
