(* ===== verification/Trace.thy ===== *)
theory Trace
  imports Json
begin

text \<open>
  One trace of a store access (\<open>tracelistener/trace.go\<close>) and how it is read from a line of JSON.
  The value passed in is what the JSON scanner makes of the line; \<open>wild\<close> is what the machine makes
  of a conversion from \<open>float64\<close> to \<open>uint64\<close> that is out of range.
\<close>

section \<open>Trace operations\<close>

record TraceOperation =
  top_Operation :: string
  top_Key :: slice
  top_Value :: bytes
  top_BlockHeight :: u64
  top_TxHash :: string
  top_SuggestedProcessor :: string

definition zero_trace :: TraceOperation where
  "zero_trace = \<lparr>top_Operation = [], top_Key = Slice [] [], top_Value = [], top_BlockHeight = 0,
     top_TxHash = [], top_SuggestedProcessor = []\<rparr>"

definition WriteOp :: bytes where "WriteOp = bytes_of_string ''write''"
definition DeleteOp :: bytes where "DeleteOp = bytes_of_string ''delete''"
definition ReadOp :: bytes where "ReadOp = bytes_of_string ''read''"
definition IterRangeOp :: bytes where "IterRangeOp = bytes_of_string ''iterRange''"

definition Operation_String :: "bytes \<Rightarrow> string" where
  "Operation_String op = string_of_bytes op"

definition TraceOperation_String :: "TraceOperation \<Rightarrow> string" where
  "TraceOperation_String t =
     ''['' @ top_Operation t @ ''] '' @ [CHR 0x22] @ string_of_bytes (vis (top_Key t)) @ [CHR 0x22] @
     '' -> '' @ [CHR 0x22] @ string_of_bytes (top_Value t) @ [CHR 0x22]"

definition is_delete :: "TraceOperation \<Rightarrow> bool" where
  "is_delete t \<longleftrightarrow> top_Operation t = Operation_String DeleteOp"

definition is_write :: "TraceOperation \<Rightarrow> bool" where
  "is_write t \<longleftrightarrow> top_Operation t = Operation_String WriteOp"

section \<open>The wire format\<close>

text \<open>A metadata value of type \<open>interface{}\<close>: nil, a number, a text, or something else.\<close>

datatype iface = INil | IFloat f64 | IString string | IOther

fun numbers_ok :: "json \<Rightarrow> bool" where
  "numbers_ok (JNum neg n fr ex) = is_ok (ParseFloat (number_value neg n fr ex))"
| "numbers_ok (JArr vs) = list_all numbers_ok vs"
| "numbers_ok (JObj kvs) = list_all (\<lambda>kv. numbers_ok (snd kv)) kvs"
| "numbers_ok _ = True"

fun store_iface :: "json \<Rightarrow> iface outcome" where
  "store_iface JNull = Ok INil"
| "store_iface (JNum neg n fr ex) =
     and_then (ParseFloat (number_value neg n fr ex)) (\<lambda>x. Ok (IFloat x))"
| "store_iface (JStr s) = Ok (IString s)"
| "store_iface v = (if numbers_ok v then Ok IOther else Err json_error)"

record traceOperationInter =
  toi_Operation :: string
  toi_Key :: slice
  toi_Value :: slice
  toi_Metadata :: "(string, iface) gomap option"

definition zero_toi :: traceOperationInter where
  "zero_toi = \<lparr>toi_Operation = [], toi_Key = Slice [] [], toi_Value = Slice [] [], toi_Metadata = None\<rparr>"

fun store_entries :: "(string \<times> json) list \<Rightarrow> (string, iface) gomap \<Rightarrow> (string, iface) gomap outcome" where
  "store_entries [] m = Ok m"
| "store_entries ((k, v) # kvs) m =
     and_then (store_iface v) (\<lambda>i. store_entries kvs (gomap_set k i m))"

fun store_metadata ::
    "json \<Rightarrow> (string, iface) gomap option \<Rightarrow> (string, iface) gomap option outcome" where
  "store_metadata JNull old = Ok None"
| "store_metadata (JObj kvs) old =
     and_then (store_entries kvs (case old of None \<Rightarrow> [] | Some m \<Rightarrow> m)) (\<lambda>m. Ok (Some m))"
| "store_metadata _ old = Err json_error"

definition toi_set_field :: "string \<Rightarrow> json \<Rightarrow> traceOperationInter \<Rightarrow> traceOperationInter outcome" where
  "toi_set_field k v s =
     (if k = ''operation'' then and_then (store_string v (toi_Operation s)) (\<lambda>x. Ok (s\<lparr>toi_Operation := x\<rparr>))
      else if k = ''key'' then and_then (store_bytes v) (\<lambda>x. Ok (s\<lparr>toi_Key := x\<rparr>))
      else if k = ''value'' then and_then (store_bytes v) (\<lambda>x. Ok (s\<lparr>toi_Value := x\<rparr>))
      else if k = ''metadata'' then and_then (store_metadata v (toi_Metadata s)) (\<lambda>x. Ok (s\<lparr>toi_Metadata := x\<rparr>))
      else Ok s)"

section \<open>UnmarshalJSON\<close>

definition metadataBlockHeight :: string where "metadataBlockHeight = ''blockHeight''"
definition metadataTxHash :: string where "metadataTxHash = ''txHash''"

definition bad_conversion :: string where
  "bad_conversion = ''interface conversion''"

definition read_height :: "(f64 \<Rightarrow> u64) \<Rightarrow> (string, iface) gomap \<Rightarrow> TraceOperation \<Rightarrow> TraceOperation outcome" where
  "read_height wild m t =
     (case map_of m metadataBlockHeight of
        None \<Rightarrow> Ok t
      | Some (IFloat x) \<Rightarrow> Ok (t\<lparr>top_BlockHeight := f64_to_uint64 wild x\<rparr>)
      | Some _ \<Rightarrow> Panic bad_conversion)"

definition read_hash :: "(string, iface) gomap \<Rightarrow> TraceOperation \<Rightarrow> TraceOperation outcome" where
  "read_hash m t =
     (case map_of m metadataTxHash of
        None \<Rightarrow> Ok t
      | Some (IString s) \<Rightarrow> Ok (t\<lparr>top_TxHash := s\<rparr>)
      | Some _ \<Rightarrow> Panic bad_conversion)"

definition UnmarshalJSON :: "(f64 \<Rightarrow> u64) \<Rightarrow> json \<Rightarrow> TraceOperation \<Rightarrow> TraceOperation outcome" where
  "UnmarshalJSON wild v t =
     and_then (store_struct toi_set_field v zero_toi) (\<lambda>toi.
     and_then
       (case toi_Metadata toi of
          None \<Rightarrow> Ok (t\<lparr>top_BlockHeight := 0\<rparr>)
        | Some m \<Rightarrow> and_then (read_height wild m t) (read_hash m))
       (\<lambda>t'. Ok (t'\<lparr>top_Operation := toi_Operation toi, top_Key := toi_Key toi,
                    top_Value := vis (toi_Value toi)\<rparr>)))"

section \<open>Facts\<close>

lemma Operation_String_simps [simp]:
  "Operation_String WriteOp = ''write''" "Operation_String DeleteOp = ''delete''"
  by (simp_all add: Operation_String_def WriteOp_def DeleteOp_def)

lemma read_height_keeps [outcome_simps]:
  "read_height wild m t = Ok t' \<Longrightarrow> top_SuggestedProcessor t' = top_SuggestedProcessor t"
  by (auto simp: read_height_def split: option.splits iface.splits)

lemma read_hash_keeps [outcome_simps]:
  "read_hash m t = Ok t' \<Longrightarrow> top_SuggestedProcessor t' = top_SuggestedProcessor t"
  by (auto simp: read_hash_def split: option.splits iface.splits)

lemma UnmarshalJSON_keeps_processor:
  assumes "UnmarshalJSON wild v t = Ok t'"
  shows "top_SuggestedProcessor t' = top_SuggestedProcessor t"
  using assms read_height_keeps read_hash_keeps
  by (fastforce simp: UnmarshalJSON_def and_then_Ok split: option.splits)

lemma read_height_panic: "read_height wild m t = Panic p \<longleftrightarrow>
    p = bad_conversion \<and> (\<exists>i. map_of m ''blockHeight'' = Some i \<and> (\<nexists>x. i = IFloat x))"
  by (auto simp: read_height_def metadataBlockHeight_def split: option.splits iface.splits)

lemma read_hash_panic: "read_hash m t = Panic p \<longleftrightarrow>
    p = bad_conversion \<and> (\<exists>i. map_of m ''txHash'' = Some i \<and> (\<nexists>s. i = IString s))"
  by (auto simp: read_hash_def metadataTxHash_def split: option.splits iface.splits)

lemma read_height_cases: "(\<exists>t'. read_height wild m t = Ok t') \<longleftrightarrow> (\<nexists>p. read_height wild m t = Panic p)"
  by (auto simp: read_height_def split: option.splits iface.splits)

lemma store_iface_no_panic: "store_iface v \<noteq> Panic p"
  by (cases v) (auto simp: and_then_Panic ParseFloat_def Let_def split: if_splits)

lemma store_entries_no_panic: "store_entries kvs m \<noteq> Panic p"
  by (induction kvs m rule: store_entries.induct) (simp_all add: and_then_Panic store_iface_no_panic)

lemma toi_set_field_no_panic: "toi_set_field k v s \<noteq> Panic p"
proof -
  have "store_string v o' \<noteq> Panic q" for o' q by (cases v) simp_all
  moreover have "store_metadata v m \<noteq> Panic q" for m q
    by (cases v) (simp_all add: and_then_Panic store_entries_no_panic)
  ultimately show ?thesis by (simp add: toi_set_field_def and_then_Panic store_bytes_no_panic)
qed

text \<open>A height that fits the 53 bits of a \<open>float64\<close> survives the detour.\<close>

lemma f64_round_int: "n \<le> 2 ^ 53 \<Longrightarrow> f64_round (of_nat n) = of_nat n"
  using f64_round_pos_int [of "int n"] by (auto simp: f64_round_def)

lemma ParseFloat_int:
  assumes "n \<le> 2 ^ 53"
  shows "ParseFloat (number_value False n [] None) = Ok (Fin (of_nat n))"
proof -
  have "(of_nat n :: rat) \<le> 2 ^ 53" using assms by (metis of_nat_le_iff of_nat_numeral of_nat_power)
  also have "\<dots> < 2 ^ 1024" by (rule power_strict_increasing) simp_all
  finally have "(of_nat n :: rat) < 2 ^ 1024" .
  with assms show ?thesis by (simp add: ParseFloat_def number_value_def f64_round_int)
qed

lemma f64_to_uint64_int:
  assumes "n \<le> 2 ^ 53"
  shows "f64_to_uint64 wild (Fin (of_nat n)) = of_nat n"
proof -
  have "n < 2 ^ 64" using assms by (rule le_less_trans) simp
  then have "int n < 2 ^ 64" by (metis of_nat_less_iff of_nat_numeral of_nat_power)
  then show ?thesis by simp
qed

section \<open>The line a store writes\<close>

text \<open>The object the trace store of the Cosmos SDK writes for one access.\<close>

definition trace_line :: "string \<Rightarrow> bytes \<Rightarrow> bytes \<Rightarrow> nat \<Rightarrow> string \<Rightarrow> json" where
  "trace_line op key val height hash =
     JObj [(''operation'', JStr op), (''key'', JStr (base64_encode key)),
           (''value'', JStr (base64_encode val)),
           (''metadata'', JObj [(''blockHeight'', JNum False height [] None), (''txHash'', JStr hash)])]"

lemma fold_key_names:
  "fold_key ''operation'' = ''operation''" "fold_key ''key'' = ''key''"
  "fold_key ''value'' = ''value''" "fold_key ''metadata'' = ''metadata''"
  by code_simp+

lemma toi_set_field_trace:
  "toi_set_field ''operation'' (JStr op) s = Ok (s\<lparr>toi_Operation := op\<rparr>)"
  "toi_set_field ''key'' (JStr (base64_encode k)) s = Ok (s\<lparr>toi_Key := Slice k (padding (length k))\<rparr>)"
  "toi_set_field ''value'' (JStr (base64_encode k)) s = Ok (s\<lparr>toi_Value := Slice k (padding (length k))\<rparr>)"
  "toi_set_field ''metadata'' v s = and_then (store_metadata v (toi_Metadata s)) (\<lambda>x. Ok (s\<lparr>toi_Metadata := x\<rparr>))"
  by (simp_all add: toi_set_field_def base64_round_trip)

lemma store_trace_metadata:
  assumes "ParseFloat (number_value False n [] None) = Ok x"
  shows "store_metadata (JObj [(''blockHeight'', JNum False n [] None), (''txHash'', JStr hash)]) None =
    Ok (Some [(''blockHeight'', IFloat x), (''txHash'', IString hash)])"
  by (simp add: assms gomap_set_def)

lemma UnmarshalJSON_trace_line:
  assumes "ParseFloat (number_value False n [] None) = Ok x"
  shows "UnmarshalJSON wild (trace_line op key val n hash) zero_trace =
    Ok \<lparr>top_Operation = op, top_Key = Slice key (padding (length key)), top_Value = val,
        top_BlockHeight = f64_to_uint64 wild x, top_TxHash = hash, top_SuggestedProcessor = []\<rparr>"
proof -
  have "store_struct toi_set_field (trace_line op key val n hash) zero_toi =
    Ok \<lparr>toi_Operation = op, toi_Key = Slice key (padding (length key)),
        toi_Value = Slice val (padding (length val)),
        toi_Metadata = Some [(''blockHeight'', IFloat x), (''txHash'', IString hash)]\<rparr>"
    by (simp only: store_struct_def trace_line_def json.case store_fields.simps and_then.simps
        fold_key_names toi_set_field_trace)
      (simp only: zero_toi_def traceOperationInter.simps traceOperationInter.update_convs
        store_trace_metadata [OF assms] and_then.simps store_fields.simps)
  then show ?thesis
    by (simp add: UnmarshalJSON_def read_height_def read_hash_def metadataBlockHeight_def
        metadataTxHash_def zero_trace_def del: f64_to_uint64.simps)
qed

text \<open>C23. Reading the line the store writes for an access gives back the operation, the key, the
  value, the transaction hash and the block height, for every height a \<open>float64\<close> holds exactly.\<close>

theorem UnmarshalJSON_reads_trace:
  assumes "height \<le> 2 ^ 53"
  shows "\<exists>t. UnmarshalJSON wild (trace_line op key val height hash) zero_trace = Ok t \<and>
    top_Operation t = op \<and> vis (top_Key t) = key \<and> top_Value t = val \<and>
    top_BlockHeight t = of_nat height \<and> top_TxHash t = hash"
  using UnmarshalJSON_trace_line [OF ParseFloat_int [OF assms]] f64_to_uint64_int [OF assms] by simp

theorem UnmarshalJSON_reads_trace_witness:
  "\<exists>t. UnmarshalJSON (\<lambda>_. 0) (trace_line ''write'' [2, 1, 7] [8, 9] 4711 ''AB'') zero_trace = Ok t \<and>
    top_Operation t = ''write'' \<and> vis (top_Key t) = [2, 1, 7] \<and> top_Value t = [8, 9] \<and>
    top_BlockHeight t = of_nat 4711 \<and> top_TxHash t = ''AB''"
  by (rule UnmarshalJSON_reads_trace) simp

text \<open>The bound is sharp: the next height is read as its predecessor.\<close>

theorem UnmarshalJSON_rounds_height:
  "\<exists>t. UnmarshalJSON wild (trace_line op key val (2 ^ 53 + 1) hash) zero_trace = Ok t \<and>
    top_BlockHeight t = 2 ^ 53"
proof -
  have "f64_round 9007199254740993 = 9007199254740992" by code_simp
  moreover have "(9007199254740992 :: rat) < 2 ^ 1024"
    using power_strict_increasing [of 53 1024 "2 :: rat"] by simp
  ultimately have p: "ParseFloat (number_value False (2 ^ 53 + 1) [] None) = Ok (Fin 9007199254740992)"
    by (simp add: ParseFloat_def number_value_def)
  show ?thesis unfolding UnmarshalJSON_trace_line [OF p] by simp
qed

text \<open>The name of the originating store is never read: whatever the line says, the suggested
  processor of the result is the one of the struct it is read into.\<close>

theorem UnmarshalJSON_ignores_store_name:
  "case UnmarshalJSON wild v t of
     Ok t' \<Rightarrow> top_SuggestedProcessor t' = top_SuggestedProcessor t | _ \<Rightarrow> True"
  using UnmarshalJSON_keeps_processor by (auto split: outcome.split)

text \<open>C24. \<open>UnmarshalJSON\<close> panics exactly when the metadata it has read holds a block height that is
  not a number or, after a height that is absent or a number, a transaction hash that is not a text.\<close>

theorem UnmarshalJSON_panics_iff:
  "is_panic (UnmarshalJSON wild v t) \<longleftrightarrow>
    (\<exists>toi m. store_struct toi_set_field v zero_toi = Ok toi \<and> toi_Metadata toi = Some m \<and>
      ((\<exists>i. map_of m ''blockHeight'' = Some i \<and> (\<nexists>x. i = IFloat x)) \<or>
       (\<exists>i. map_of m ''txHash'' = Some i \<and> (\<nexists>s. i = IString s))))"
proof (cases "store_struct toi_set_field v zero_toi")
  case (Ok toi)
  show ?thesis
  proof (cases "toi_Metadata toi")
    case None
    with Ok show ?thesis by (simp add: UnmarshalJSON_def)
  next
    case (Some m)
    have "is_panic (UnmarshalJSON wild v t) \<longleftrightarrow> is_panic (and_then (read_height wild m t) (read_hash m))"
      by (cases "and_then (read_height wild m t) (read_hash m)") (simp_all add: UnmarshalJSON_def Ok Some)
    also have "\<dots> \<longleftrightarrow> (\<exists>p. read_height wild m t = Panic p) \<or> (\<exists>p t'. read_hash m t' = Panic p)"
      using read_height_cases [of wild m t] by (auto simp: is_panic_iff and_then_Panic read_hash_panic)
    finally show ?thesis
      by (simp add: Ok Some read_height_panic read_hash_panic)
  qed
qed (simp_all add: UnmarshalJSON_def store_struct_no_panic toi_set_field_no_panic)

end
