(* ===== verification/Cache.thy ===== *)
theory Cache
  imports Writeback Trace
begin

text \<open>
  The two shapes of a processor module's state, as interfaces. A module collects rows in Go maps
  while a block is being read and hands them over when the block is complete. Most modules keep one
  map of rows to write; the staking modules keep a second one of rows to delete. Range loops over the
  maps run in an order that is an argument.
\<close>

section \<open>Range loops\<close>

text \<open>An order lists the indices of a map of a given size; a method with several range loops has one
  for each.\<close>

type_synonym order = "nat \<Rightarrow> nat list"
type_synonym orders = "nat \<Rightarrow> order"

definition range_order :: "order \<Rightarrow> bool" where
  "range_order ord \<longleftrightarrow> (\<forall>n. mset (ord n) = mset [0..<n])"

definition ranged :: "order \<Rightarrow> 'a list \<Rightarrow> 'a list" where
  "ranged ord xs = map (nth xs) (ord (length xs))"

definition forward :: order where
  "forward n = [0..<n]"

lemma range_order_forward [simp]: "range_order forward"
  by (simp add: range_order_def forward_def)

lemma ranged_forward [simp]: "ranged forward xs = xs"
  by (simp add: ranged_def forward_def map_nth)

lemma mset_ranged [simp]:
  assumes "range_order ord"
  shows "mset (ranged ord xs) = mset xs"
proof -
  have "mset (ranged ord xs) = image_mset (nth xs) (mset [0..<length xs])"
    using assms unfolding ranged_def range_order_def by (metis mset_map)
  also have "\<dots> = mset xs"
    by (metis map_nth mset_map)
  finally show ?thesis .
qed

lemma ranged_iteration_order: "range_order ord \<Longrightarrow> iteration_order (ranged ord)"
  by (simp add: iteration_order_def)

lemma set_ranged [simp]: "range_order ord \<Longrightarrow> set (ranged ord xs) = set xs"
  by (metis mset_ranged set_mset_mset)

lemma length_ranged [simp]: "range_order ord \<Longrightarrow> length (ranged ord xs) = length xs"
  by (metis mset_ranged size_mset)

lemma ranged_Nil [simp]: "range_order ord \<Longrightarrow> ranged ord [] = []"
  by (metis mset_ranged mset_zero_iff)

lemma ranged_Nil_iff [simp]: "range_order ord \<Longrightarrow> ranged ord xs = [] \<longleftrightarrow> xs = []"
  by (metis mset_ranged mset_zero_iff)

section \<open>A run of traces through a module\<close>

text \<open>A trace that a module rejects leaves its state as it was.\<close>

fun run_traces :: "('s \<Rightarrow> 'd \<Rightarrow> 's outcome) \<Rightarrow> 's \<Rightarrow> 'd list \<Rightarrow> 's outcome" where
  "run_traces process s [] = Ok s"
| "run_traces process s (d # ds) =
     (case process s d of
        Ok s' \<Rightarrow> run_traces process s' ds
      | Err e \<Rightarrow> run_traces process s ds
      | Panic p \<Rightarrow> Panic p)"

text \<open>The specification of a run: for each key the row of the last trace that has it.\<close>

fun latest :: "('d \<Rightarrow> ('k \<times> 'r) option) \<Rightarrow> 'd list \<Rightarrow> ('k \<rightharpoonup> 'r) \<Rightarrow> ('k \<rightharpoonup> 'r)" where
  "latest entry [] m = m"
| "latest entry (d # ds) m =
     latest entry ds (case entry d of None \<Rightarrow> m | Some (k, r) \<Rightarrow> m(k \<mapsto> r))"

lemma latest_append: "latest entry (ds @ es) m = latest entry es (latest entry ds m)"
  by (induction ds arbitrary: m) simp_all

lemma latest_Some:
  "latest entry ds m k = Some r \<Longrightarrow> m k = Some r \<or> (\<exists>d \<in> set ds. entry d = Some (k, r))"
  by (induction ds arbitrary: m) (fastforce split: option.splits prod.splits if_splits)+

lemma latest_last:
  assumes "entry d = Some (k, r)" "\<forall>e \<in> set es. \<forall>r'. entry e \<noteq> Some (k, r')"
  shows "latest entry (ds @ d # es) m k = Some r"
proof -
  have "latest entry es m' k = m' k" for m'
    using assms(2) by (induction es arbitrary: m') (auto split: option.splits prod.splits)
  with assms(1) show ?thesis by (simp add: latest_append)
qed

lemma gomap_rows:
  assumes "gomap_ok m"
  shows "(\<lambda>kv. f (snd kv)) ` set m = {f r | k r. map_of m k = Some r}"
proof -
  have m: "kv \<in> set m \<longleftrightarrow> map_of m (fst kv) = Some (snd kv)" for kv
    using set_gomap_iff [OF assms, of "fst kv" "snd kv"] by simp
  show ?thesis
  proof (intro set_eqI iffI)
    fix x assume "x \<in> {f r | k r. map_of m k = Some r}"
    then obtain k r where "x = f r" "map_of m k = Some r" by blast
    with m [of "(k, r)"] show "x \<in> (\<lambda>kv. f (snd kv)) ` set m" by force
  qed (use m in auto)
qed

section \<open>Rows of a list of operations\<close>

definition op_rows :: "WritebackOp list \<Rightarrow> entrier multiset" where
  "op_rows wos = (\<Sum>wo \<leftarrow> wos. mset (wb_Data wo))"

lemma op_rows_simps [simp]:
  "op_rows [] = {#}" "op_rows (wo # wos) = mset (wb_Data wo) + op_rows wos"
  "op_rows (wos @ wos') = op_rows wos + op_rows wos'"
  by (simp_all add: op_rows_def)

lemma op_rows_empty: "op_rows wos = {#} \<longleftrightarrow> (\<forall>wo \<in> set wos. wb_Data wo = [])"
  by (induction wos) auto

lemma op_rows_mem: "e \<in># op_rows wos \<longleftrightarrow> (\<exists>wo \<in> set wos. e \<in> set (wb_Data wo))"
  by (induction wos) auto

text \<open>The operations a flush hands over; statement and source are filled in later.\<close>

definition write_op :: "entrier list \<Rightarrow> WritebackOp" where
  "write_op es = \<lparr>wb_Type = Write, wb_Data = es, wb_Statement = [], wb_SourceModule = []\<rparr>"

definition delete_op :: "entrier \<Rightarrow> WritebackOp" where
  "delete_op e = \<lparr>wb_Type = Delete, wb_Data = [e], wb_Statement = [], wb_SourceModule = []\<rparr>"

lemma op_simps [simp]:
  "wb_Type (write_op es) = Write" "wb_Data (write_op es) = es"
  "wb_Type (delete_op e) = Delete" "wb_Data (delete_op e) = [e]"
  by (simp_all add: write_op_def delete_op_def)

section \<open>Flushing\<close>

text \<open>What every module promises when it is flushed: the rows handed over are the pending ones, each
  once, none stays behind, and the operations have types the module has statements for.\<close>

locale flushing =
  fixes flush :: "orders \<Rightarrow> 's \<Rightarrow> WritebackOp list \<times> 's"
    and pending :: "'s \<Rightarrow> entrier multiset"
    and types :: "WritebackStatementTypes set"
  assumes flush_hands_over: "\<forall>i. range_order (ord i) \<Longrightarrow>
      op_rows (fst (flush ord s)) = pending s"
    and flush_clears: "pending (snd (flush ord s)) = {#}"
    and flush_types: "\<forall>i. range_order (ord i) \<Longrightarrow> wo \<in> set (fst (flush ord s)) \<Longrightarrow> wb_Type wo \<in> types"
begin

lemma flush_twice:
  assumes "\<forall>i. range_order (ord i)"
  shows "\<forall>wo \<in> set (fst (flush ord (snd (flush ord' s)))). wb_Data wo = []"
  using flush_hands_over [OF assms, of "snd (flush ord' s)"] by (simp add: flush_clears op_rows_empty)

lemma flush_row_pending:
  assumes "\<forall>i. range_order (ord i)" "wo \<in> set (fst (flush ord s))" "e \<in> set (wb_Data wo)"
  shows "e \<in># pending s"
  using assms op_rows_mem unfolding flush_hands_over [OF assms(1), symmetric] by blast

end

section \<open>Modules that only write\<close>

locale write_cache =
  fixes cache :: "'s \<Rightarrow> ('k, 'r) gomap"
    and process :: "'s \<Rightarrow> TraceOperation \<Rightarrow> 's outcome"
    and flush :: "orders \<Rightarrow> 's \<Rightarrow> WritebackOp list \<times> 's"
    and row :: "TraceOperation \<Rightarrow> 'r outcome"
    and key :: "TraceOperation \<Rightarrow> 'r \<Rightarrow> 'k"
    and wrap :: "'r \<Rightarrow> entrier"
  assumes process_row: "row d = Ok r \<Longrightarrow>
      \<exists>s'. process s d = Ok s' \<and> cache s' = gomap_set (key d r) r (cache s)"
    and process_Err: "row d = Err e \<Longrightarrow> process s d = Err e"
    and process_Panic: "row d = Panic p \<Longrightarrow> process s d = Panic p"
    and flush_ops: "fst (flush ord s) =
      (if cache s = [] then []
       else [write_op (map (wrap \<circ> snd) (ranged (ord 0) (cache s)))])"
    and flush_empties: "cache (snd (flush ord s)) = []"
begin

lemma process_ok_iff:
  assumes "process s d = Ok s'"
  shows "\<exists>r. row d = Ok r \<and> cache s' = gomap_set (key d r) r (cache s)"
proof (cases "row d")
  case (Ok r)
  with process_row [OF Ok, of s] assms show ?thesis by auto
qed (use assms process_Err process_Panic in simp_all)

lemma process_error_iff: "is_err (process s d) = is_err (row d)" "is_panic (process s d) = is_panic (row d)"
proof -
  consider r where "row d = Ok r" | e where "row d = Err e" | p where "row d = Panic p"
    by (cases "row d") auto
  then have "is_err (process s d) = is_err (row d) \<and> is_panic (process s d) = is_panic (row d)"
  proof cases
    case 1
    with process_row [OF 1, of s] show ?thesis by auto
  qed (simp_all add: process_Err process_Panic)
  then show "is_err (process s d) = is_err (row d)" "is_panic (process s d) = is_panic (row d)"
    by simp_all
qed

lemma run_no_panic:
  "\<forall>d \<in> set ds. \<not> is_panic (row d) \<Longrightarrow> \<exists>s'. run_traces process s ds = Ok s'"
proof (induction ds arbitrary: s)
  case (Cons d ds)
  then have "\<not> is_panic (process s d)" by (simp add: process_error_iff)
  with Cons show ?case by (cases "process s d") simp_all
qed simp

definition entry :: "TraceOperation \<Rightarrow> ('k \<times> 'r) option" where
  "entry d = (case row d of Ok r \<Rightarrow> Some (key d r, r) | _ \<Rightarrow> None)"

lemma process_cache:
  "process s d = Ok s' \<Longrightarrow> map_of (cache s') = latest entry [d] (map_of (cache s))"
  using process_ok_iff by (fastforce simp: entry_def gomap_simps)

lemma run_cache:
  "run_traces process s ds = Ok s' \<Longrightarrow> map_of (cache s') = latest entry ds (map_of (cache s))"
proof (induction ds arbitrary: s)
  case (Cons d ds)
  show ?case
  proof (cases "process s d")
    case (Ok t)
    with Cons.prems Cons.IH [of t] process_cache [OF Ok] show ?thesis by simp
  next
    case (Err e)
    then have "entry d = None"
      using process_error_iff(1) [of s d] by (cases "row d") (simp_all add: entry_def)
    with Cons Err show ?thesis by simp
  qed (use Cons.prems in simp)
qed simp

lemma run_cache_ok:
  "run_traces process s ds = Ok s' \<Longrightarrow> gomap_ok (cache s) \<Longrightarrow> gomap_ok (cache s')"
proof (induction ds arbitrary: s)
  case (Cons d ds)
  show ?case
  proof (cases "process s d")
    case (Ok t)
    then have "gomap_ok (cache t)"
      using process_ok_iff Cons.prems(2) by (fastforce simp: gomap_simps)
    with Cons Ok show ?thesis by simp
  qed (use Cons in simp_all)
qed simp

lemma flush_data:
  assumes "\<forall>i. range_order (ord i)" "gomap_ok (cache s)"
  shows "{e. \<exists>wo \<in> set (fst (flush ord s)). e \<in> set (wb_Data wo)} =
    {wrap r | k r. map_of (cache s) k = Some r}"
proof -
  have "{e. \<exists>wo \<in> set (fst (flush ord s)). e \<in> set (wb_Data wo)} =
      (\<lambda>kv. wrap (snd kv)) ` set (cache s)"
    using assms(1) by (simp add: flush_ops image_def)
  then show ?thesis by (simp only: gomap_rows [OF assms(2)])
qed

text \<open>A block: the traces of a run, then a flush.\<close>

lemma block_rows:
  assumes "cache s = []" "run_traces process s ds = Ok s'" "\<forall>i. range_order (ord i)"
  shows "{e. \<exists>wo \<in> set (fst (flush ord s')). e \<in> set (wb_Data wo)} =
    {wrap r | k r. latest entry ds Map.empty k = Some r}"
proof -
  have "gomap_ok (cache s')"
    using run_cache_ok [OF assms(2)] assms(1) by (simp add: gomap_simps)
  moreover have "map_of (cache s') = latest entry ds Map.empty"
    using run_cache [OF assms(2)] assms(1) by simp
  ultimately show ?thesis using flush_data [OF assms(3)] by simp
qed

lemma sum_flush: "\<forall>i. range_order (ord i) \<Longrightarrow>
    op_rows (fst (flush ord s)) = image_mset (wrap \<circ> snd) (mset (cache s))"
  by (simp add: flush_ops)

lemma types_flush: "wo \<in> set (fst (flush ord s)) \<Longrightarrow> wb_Type wo \<in> {Write}"
  by (auto simp: flush_ops split: if_splits)

end

sublocale write_cache \<subseteq> flushing flush "\<lambda>s. image_mset (wrap \<circ> snd) (mset (cache s))" "{Write}"
  by unfold_locales (auto simp: sum_flush flush_empties dest: types_flush)

section \<open>Modules that write and delete\<close>

text \<open>\<open>row\<close> yields no row for a trace the module ignores.\<close>

locale write_delete_cache =
  fixes inserts :: "'s \<Rightarrow> ('k, 'r) gomap"
    and deletes :: "'s \<Rightarrow> ('k, 'r) gomap"
    and process :: "'s \<Rightarrow> TraceOperation \<Rightarrow> 's outcome"
    and flush :: "orders \<Rightarrow> 's \<Rightarrow> WritebackOp list \<times> 's"
    and row :: "TraceOperation \<Rightarrow> 'r option outcome"
    and key :: "'r \<Rightarrow> 'k"
    and wrap :: "'r \<Rightarrow> entrier"
  assumes process_none: "row d = Ok None \<Longrightarrow> process s d = Ok s"
    and process_write: "row d = Ok (Some r) \<Longrightarrow> \<not> is_delete d \<Longrightarrow>
      \<exists>s'. process s d = Ok s' \<and> inserts s' = gomap_set (key r) r (inserts s) \<and> deletes s' = deletes s"
    and process_delete: "row d = Ok (Some r) \<Longrightarrow> is_delete d \<Longrightarrow>
      \<exists>s'. process s d = Ok s' \<and> deletes s' = gomap_set (key r) r (deletes s) \<and> inserts s' = inserts s"
    and process_Err: "row d = Err e \<Longrightarrow> process s d = Err e"
    and process_Panic: "row d = Panic p \<Longrightarrow> process s d = Panic p"
    and flush_ops: "\<forall>i. range_order (ord i) \<Longrightarrow> fst (flush ord s) =
      (if inserts s = [] \<and> deletes s = [] then []
       else write_op (map (wrap \<circ> snd) (ranged (ord 0) (inserts s))) #
            map (\<lambda>kv. delete_op (wrap (snd kv))) (ranged (ord 1) (deletes s)))"
    and flush_empties: "inserts (snd (flush ord s)) = [] \<and> deletes (snd (flush ord s)) = []"
begin

definition pending_rows :: "'s \<Rightarrow> entrier multiset" where
  "pending_rows s = image_mset (wrap \<circ> snd) (mset (inserts s) + mset (deletes s))"

definition write_entry :: "TraceOperation \<Rightarrow> ('k \<times> 'r) option" where
  "write_entry d = (case row d of Ok (Some r) \<Rightarrow> if is_delete d then None else Some (key r, r) | _ \<Rightarrow> None)"

definition delete_entry :: "TraceOperation \<Rightarrow> ('k \<times> 'r) option" where
  "delete_entry d = (case row d of Ok (Some r) \<Rightarrow> if is_delete d then Some (key r, r) else None | _ \<Rightarrow> None)"

lemma process_step:
  assumes "process s d = Ok s'"
  shows "map_of (inserts s') = latest write_entry [d] (map_of (inserts s))"
    "map_of (deletes s') = latest delete_entry [d] (map_of (deletes s))"
    "gomap_ok (inserts s) \<Longrightarrow> gomap_ok (inserts s')"
    "gomap_ok (deletes s) \<Longrightarrow> gomap_ok (deletes s')"
proof -
  consider "row d = Ok None" | r where "row d = Ok (Some r)"
    using assms process_Err process_Panic by (cases "row d") (auto split: option.splits)
  then have "map_of (inserts s') = latest write_entry [d] (map_of (inserts s)) \<and>
    map_of (deletes s') = latest delete_entry [d] (map_of (deletes s)) \<and>
    (gomap_ok (inserts s) \<longrightarrow> gomap_ok (inserts s')) \<and> (gomap_ok (deletes s) \<longrightarrow> gomap_ok (deletes s'))"
  proof cases
    case 1
    with assms process_none show ?thesis by (simp add: write_entry_def delete_entry_def)
  next
    case 2
    with assms process_write [OF 2, of s] process_delete [OF 2, of s] show ?thesis
      by (cases "is_delete d") (auto simp: write_entry_def delete_entry_def gomap_simps)
  qed
  then show "map_of (inserts s') = latest write_entry [d] (map_of (inserts s))"
    "map_of (deletes s') = latest delete_entry [d] (map_of (deletes s))"
    "gomap_ok (inserts s) \<Longrightarrow> gomap_ok (inserts s')"
    "gomap_ok (deletes s) \<Longrightarrow> gomap_ok (deletes s')" by simp_all
qed

lemma run_caches:
  "run_traces process s ds = Ok s' \<Longrightarrow> gomap_ok (inserts s) \<Longrightarrow> gomap_ok (deletes s) \<Longrightarrow>
    map_of (inserts s') = latest write_entry ds (map_of (inserts s)) \<and>
    map_of (deletes s') = latest delete_entry ds (map_of (deletes s)) \<and>
    gomap_ok (inserts s') \<and> gomap_ok (deletes s')"
proof (induction ds arbitrary: s)
  case (Cons d ds)
  show ?case
  proof (cases "process s d")
    case (Ok t)
    note t = process_step [OF Ok]
    from Cons.IH [of t] Cons.prems t Ok show ?thesis by simp
  next
    case (Err e)
    then have "write_entry d = None" "delete_entry d = None"
      using process_none [of d s] process_write [of d _ s] process_delete [of d _ s]
      by (cases "row d"; force simp: write_entry_def delete_entry_def split: option.splits)+
    with Cons Err show ?thesis by simp
  qed (use Cons.prems in simp)
qed simp

text \<open>The flush of a block: all writes before all deletions, whatever order the traces had.\<close>

lemma block_ops:
  assumes "inserts s = []" "deletes s = []" "run_traces process s ds = Ok s'"
    and ord: "\<forall>i. range_order (ord i)"
  shows "\<exists>ws xs. (fst (flush ord s') = [] \<and> ws = [] \<and> xs = [] \<or>
      fst (flush ord s') = write_op ws #
        map delete_op xs) \<and>
    set ws = {wrap r | k r. latest write_entry ds Map.empty k = Some r} \<and>
    set xs = {wrap r | k r. latest delete_entry ds Map.empty k = Some r}"
proof -
  have run: "map_of (inserts s') = latest write_entry ds Map.empty"
    "map_of (deletes s') = latest delete_entry ds Map.empty"
    "gomap_ok (inserts s')" "gomap_ok (deletes s')"
    using run_caches [OF assms(3)] assms(1,2) by (simp_all add: gomap_simps)
  let ?ws = "map (wrap \<circ> snd) (ranged (ord 0) (inserts s'))"
  let ?xs = "map (wrap \<circ> snd) (ranged (ord 1) (deletes s'))"
  have img: "set (map (wrap \<circ> snd) (ranged (ord i) m)) = (\<lambda>kv. wrap (snd kv)) ` set m" for i m
    using ord by (simp add: comp_def)
  have "set ?ws = {wrap r | k r. latest write_entry ds Map.empty k = Some r}"
    unfolding img gomap_rows [OF run(3)] run(1) ..
  moreover have "set ?xs = {wrap r | k r. latest delete_entry ds Map.empty k = Some r}"
    unfolding img gomap_rows [OF run(4)] run(2) ..
  moreover have "fst (flush ord s') = [] \<and> ?ws = [] \<and> ?xs = [] \<or>
      fst (flush ord s') = write_op ?ws #
        map delete_op ?xs"
    using ord flush_ops [OF ord, of s'] by simp
  ultimately show ?thesis by blast
qed

lemma op_rows_deletes: "op_rows (map (\<lambda>kv. delete_op (wrap (snd kv))) kvs) = image_mset (wrap \<circ> snd) (mset kvs)"
  by (induction kvs) simp_all

lemma sum_flush:
  assumes "\<forall>i. range_order (ord i)"
  shows "op_rows (fst (flush ord s)) = pending_rows s"
  using assms unfolding flush_ops [OF assms] pending_rows_def by (simp add: op_rows_deletes)

lemma types_flush: "\<forall>i. range_order (ord i) \<Longrightarrow> wo \<in> set (fst (flush ord s)) \<Longrightarrow> wb_Type wo \<in> {Write, Delete}"
  by (auto simp: flush_ops split: if_splits)

end

sublocale write_delete_cache \<subseteq> flushing flush pending_rows "{Write, Delete}"
  by unfold_locales (auto simp: sum_flush pending_rows_def flush_empties dest: types_flush)

end
