(* ===== verification/Sql_Gen.thy ===== *)
theory Sql_Gen
  imports Go_Lib
begin

text \<open>
  The generator of the table code (\<open>cmd/sqlgen\<close>): the description of a table (\<open>config.go\<close>), its
  validation (\<open>validation.go\<close>), the SQL it yields and the four statements of the template
  (\<open>template.go\<close>). A template expands at generation time into a format string; the generated
  method applies \<open>fmt.Sprintf\<close> to it and the table name. The Unicode letter and digit tables are an
  argument, the classes of the code points from 128 on.
\<close>

section \<open>The description of a table\<close>

record column =
  col_Name :: string
  col_Type :: string
  col_Primary :: bool
  col_SkipOnInsert :: bool
  col_Nullable :: bool

record TableConfig =
  tc_Name :: string
  tc_Columns :: "column list"
  tc_UniqueColumns :: "string list"

section \<open>Validation\<close>

text \<open>\<open>unicode.IsLetter\<close> and \<open>unicode.IsDigit\<close>: exact on ASCII, given beyond.\<close>

record unicode =
  beyond_letter :: "nat \<Rightarrow> bool"
  beyond_digit :: "nat \<Rightarrow> bool"

definition IsLetter :: "unicode \<Rightarrow> nat \<Rightarrow> bool" where
  "IsLetter u r = (if r < 128 then 65 \<le> r \<and> r \<le> 90 \<or> 97 \<le> r \<and> r \<le> 122 else beyond_letter u r)"

definition IsDigit :: "unicode \<Rightarrow> nat \<Rightarrow> bool" where
  "IsDigit u r = (if r < 128 then 48 \<le> r \<and> r \<le> 57 else beyond_digit u r)"

definition maxNameLen :: nat where
  "maxNameLen = 59"

definition underscore :: nat where
  "underscore = 95"

fun validateRunes :: "unicode \<Rightarrow> (nat \<times> nat) list \<Rightarrow> unit outcome" where
  "validateRunes u [] = Ok ()"
| "validateRunes u ((i, r) # rs) =
     (if i = 0 \<and> \<not> IsLetter u r \<and> r \<noteq> underscore
      then Err ''must start with a letter or underscore''
      else if \<not> IsLetter u r \<and> \<not> IsDigit u r \<and> r \<noteq> underscore
      then Err ''must be alphanumeric with underscores''
      else validateRunes u rs)"

definition validateName :: "unicode \<Rightarrow> string \<Rightarrow> unit outcome" where
  "validateName u name =
     (if name = [] then Err ''cannot be empty''
      else and_then (validateRunes u (runes_of name)) (\<lambda>_.
        if length name \<ge> maxNameLen
        then Err (''exceed maximum length of '' @ itoa maxNameLen @ '' chars'')
        else Ok ()))"

text \<open>The map \<open>names\<close> of the columns seen so far is the list of their names.\<close>

fun validateColumns :: "unicode \<Rightarrow> string list \<Rightarrow> column list \<Rightarrow> string list outcome" where
  "validateColumns u names [] = Ok names"
| "validateColumns u names (c # cs) =
     and_then (wrap_err (''validating column name '' @ col_Name c @ '': '') (validateName u (col_Name c)))
       (\<lambda>_. if col_Type c = [] then Err ''column type cannot be empty''
             else if col_Name c \<in> set names then Err (''duplicate column name '' @ col_Name c)
             else if col_Primary c \<and> col_Nullable c
             then Err (''primary column '' @ col_Name c @ '' cannot be nullable'')
             else validateColumns u (col_Name c # names) cs)"

fun validateUnique :: "string list \<Rightarrow> string list \<Rightarrow> unit outcome" where
  "validateUnique names [] = Ok ()"
| "validateUnique names (c # cs) =
     (if c \<notin> set names
      then Err (''unique column '' @ c @ '' not defined in the columns section'')
      else validateUnique names cs)"

definition TableConfig_Validate :: "unicode \<Rightarrow> TableConfig \<Rightarrow> unit outcome" where
  "TableConfig_Validate u t =
     and_then (validateColumns u [] (tc_Columns t)) (\<lambda>names. validateUnique names (tc_UniqueColumns t))"

section \<open>Columns of the statements\<close>

definition column_definition :: "column \<Rightarrow> string" where
  "column_definition c =
     col_Name c @ '' '' @ col_Type c @ (if col_Primary c then '' PRIMARY KEY'' else []) @
     (if \<not> col_Nullable c then '' NOT NULL'' else [])"

definition ColumnsDefinition :: "TableConfig \<Rightarrow> string list" where
  "ColumnsDefinition t =
     map column_definition (tc_Columns t) @
     (if length (tc_UniqueColumns t) > 0
      then [''UNIQUE ('' @ join '', '' (tc_UniqueColumns t) @ '')''] else [])"

definition InsertColumns :: "TableConfig \<Rightarrow> string list" where
  "InsertColumns t = map col_Name (filter (\<lambda>c. \<not> col_SkipOnInsert c) (tc_Columns t))"

definition InsertColumnsParams :: "TableConfig \<Rightarrow> string list" where
  "InsertColumnsParams t = map (\<lambda>c. '':'' @ c) (InsertColumns t)"

definition UpsertSet :: "TableConfig \<Rightarrow> string list" where
  "UpsertSet t = map (\<lambda>c. c @ '' = EXCLUDED.'' @ c) (InsertColumns t)"

definition WhereConditions :: "TableConfig \<Rightarrow> string list" where
  "WhereConditions t = map (\<lambda>c. c @ ''=:'' @ c) (tc_UniqueColumns t)"

section \<open>The template\<close>

text \<open>The value of a generated struct: its table name and the text each method returns.\<close>

record table_code =
  gt_TableName :: string
  gt_CreateTable :: string
  gt_Insert :: string
  gt_Upsert :: string
  gt_Delete :: string

definition CommaJoin :: "string list \<Rightarrow> string" where
  "CommaJoin s = join '', '' s"

definition JoinAnd :: "string list \<Rightarrow> string" where
  "JoinAnd s = join '' AND '' s"

definition nl :: string where
  "nl = [CHR 0x0A]"

definition tabs :: "nat \<Rightarrow> string" where
  "tabs n = replicate n (CHR 0x09)"

definition tmpl_CreateTable :: "TableConfig \<Rightarrow> string" where
  "tmpl_CreateTable t =
     nl @ tabs 2 @ ''CREATE TABLE IF NOT EXISTS %s'' @ nl @
     tabs 2 @ ''('' @ CommaJoin (ColumnsDefinition t) @ '')'' @ nl @ tabs 1"

definition tmpl_Insert :: "TableConfig \<Rightarrow> string" where
  "tmpl_Insert t =
     nl @ tabs 2 @ ''INSERT INTO %s ('' @ CommaJoin (InsertColumns t) @ '')'' @ nl @
     tabs 2 @ ''VALUES ('' @ CommaJoin (InsertColumnsParams t) @ '')'' @ nl @ tabs 1"

definition tmpl_Upsert :: "TableConfig \<Rightarrow> string" where
  "tmpl_Upsert t =
     nl @ tabs 2 @ ''INSERT INTO %s ('' @ CommaJoin (InsertColumns t) @ '')'' @ nl @
     tabs 2 @ ''VALUES ('' @ CommaJoin (InsertColumnsParams t) @ '')'' @ nl @
     tabs 2 @ ''ON CONFLICT ('' @ CommaJoin (tc_UniqueColumns t) @ '')'' @ nl @
     tabs 2 @ ''DO UPDATE'' @ nl @
     tabs 2 @ ''SET delete_height = NULL, '' @ CommaJoin (UpsertSet t) @ nl @
     tabs 2 @ ''WHERE %s.height < EXCLUDED.height'' @ nl @ tabs 1"

definition tmpl_Delete :: "TableConfig \<Rightarrow> string" where
  "tmpl_Delete t =
     nl @ tabs 2 @ ''UPDATE %s'' @ nl @
     tabs 2 @ ''SET delete_height = :height, height = :height'' @ nl @
     tabs 2 @ ''WHERE '' @ JoinAnd (WhereConditions t) @ nl @
     tabs 2 @ ''AND delete_height IS NULL'' @ nl @ tabs 1"

definition generated :: "TableConfig \<Rightarrow> string \<Rightarrow> table_code" where
  "generated t tableName =
     \<lparr>gt_TableName = tableName,
      gt_CreateTable = sprintf (tmpl_CreateTable t) [tableName],
      gt_Insert = sprintf (tmpl_Insert t) [tableName],
      gt_Upsert = sprintf (tmpl_Upsert t) [tableName, tableName],
      gt_Delete = sprintf (tmpl_Delete t) [tableName]\<rparr>"

section \<open>File and struct names\<close>

definition getFileName :: "string \<Rightarrow> string" where
  "getFileName tableName = tableName @ ''_gen.go''"

text \<open>\<open>cases.Title\<close> of \<open>golang.org/x/text\<close> is an argument.\<close>

definition getStructName :: "(string \<Rightarrow> string) \<Rightarrow> string \<Rightarrow> string" where
  "getStructName Title tableName = concat (map Title (split_on (CHR ''_'') tableName)) @ ''Table''"

section \<open>Facts about validation\<close>

lemma validateUnique_Ok: "validateUnique names cs = Ok () \<longleftrightarrow> set cs \<subseteq> set names"
  by (induction cs) auto

lemma validateColumns_Ok:
  "validateColumns u names cs = Ok names' \<longleftrightarrow>
   names' = rev (map col_Name cs) @ names \<and>
   (\<forall>c \<in> set cs. validateName u (col_Name c) = Ok () \<and> col_Type c \<noteq> [] \<and>
                 \<not> (col_Primary c \<and> col_Nullable c)) \<and>
   distinct (map col_Name cs) \<and> set (map col_Name cs) \<inter> set names = {}"
proof (induction cs arbitrary: names)
  case Nil
  then show ?case by auto
next
  case (Cons c cs)
  show ?case by (auto simp: outcome_simps Cons)
qed

lemma validateRunes_Ok:
  "validateRunes u rs = Ok () \<longleftrightarrow>
   (\<forall>(i, r) \<in> set rs. (IsLetter u r \<or> r = underscore \<or> (i \<noteq> 0 \<and> IsDigit u r)))"
  by (induction u rs rule: validateRunes.induct) auto

section \<open>Properties\<close>

text \<open>C21. A table description passes validation exactly when every column has a type and a name of
  1 to 58 bytes made of letters, digits and underscores that does not start with a digit, no name
  is used twice, no primary column is nullable and every unique column is declared.\<close>

theorem TableConfig_Validate_iff:
  "TableConfig_Validate u t = Ok () \<longleftrightarrow>
   list_all (\<lambda>c. col_Name c \<noteq> [] \<and> length (col_Name c) < 59 \<and> col_Type c \<noteq> [] \<and>
       list_all (\<lambda>(i, r). IsLetter u r \<or> r = underscore \<or> (i \<noteq> 0 \<and> IsDigit u r)) (runes_of (col_Name c)) \<and>
       \<not> (col_Primary c \<and> col_Nullable c)) (tc_Columns t) \<and>
   distinct (map col_Name (tc_Columns t)) \<and>
   set (tc_UniqueColumns t) \<subseteq> set (map col_Name (tc_Columns t))"
proof -
  have name: "validateName u n = Ok () \<longleftrightarrow> n \<noteq> [] \<and> length n < 59 \<and>
      list_all (\<lambda>(i, r). IsLetter u r \<or> r = underscore \<or> (i \<noteq> 0 \<and> IsDigit u r)) (runes_of n)" for n
    by (auto simp: validateName_def outcome_simps validateRunes_Ok list_all_iff maxNameLen_def)
  show ?thesis
    by (auto simp: TableConfig_Validate_def outcome_simps validateColumns_Ok validateUnique_Ok
        name list_all_iff)
qed

end
