(* ===== verification/Gen_Tables.thy ===== *)
theory Gen_Tables
  imports Sql_Gen
begin

text \<open>
  The table code under \<open>tracelistener/tables\<close>, one definition per generated struct with the text of
  its statements as they stand in the file, and the table descriptions of \<open>sqlmodels.yaml\<close> it was
  generated from. The property of this theory compares the two: the checked-in statements are what
  the generator yields today.
\<close>

section \<open>The generated structs\<close>

definition BalancesTable :: "string \<Rightarrow> table_code" where
  "BalancesTable tableName =
     \<lparr>gt_TableName = tableName,
      gt_CreateTable = sprintf
        (nl @
         tabs 2 @ ''CREATE TABLE IF NOT EXISTS %s'' @ nl @
         tabs 2 @
         ''(id serial PRIMARY KEY NOT NULL, height integer NOT NULL, delete_height integer, '' @
         ''chain_name text NOT NULL, address text NOT NULL, amount text NOT NULL, denom text '' @
         ''NOT NULL, UNIQUE (chain_name, address, denom))'' @ nl @
         tabs 1)
        [tableName],
      gt_Insert = sprintf
        (nl @
         tabs 2 @ ''INSERT INTO %s (height, chain_name, address, amount, denom)'' @ nl @
         tabs 2 @ ''VALUES (:height, :chain_name, :address, :amount, :denom)'' @ nl @
         tabs 1)
        [tableName],
      gt_Upsert = sprintf
        (nl @
         tabs 2 @ ''INSERT INTO %s (height, chain_name, address, amount, denom)'' @ nl @
         tabs 2 @ ''VALUES (:height, :chain_name, :address, :amount, :denom)'' @ nl @
         tabs 2 @ ''ON CONFLICT (chain_name, address, denom)'' @ nl @
         tabs 2 @ ''DO UPDATE'' @ nl @
         tabs 2 @ ''SET delete_height = NULL, height = EXCLUDED.height, chain_name = '' @
         ''EXCLUDED.chain_name, address = EXCLUDED.address, amount = EXCLUDED.amount, denom = '' @
         ''EXCLUDED.denom'' @ nl @
         tabs 2 @ ''WHERE %s.height < EXCLUDED.height'' @ nl @
         tabs 1)
        [tableName, tableName],
      gt_Delete = sprintf
        (nl @
         tabs 2 @ ''UPDATE %s'' @ nl @
         tabs 2 @ ''SET delete_height = :height, height = :height'' @ nl @
         tabs 2 @ ''WHERE chain_name=:chain_name AND address=:address AND denom=:denom'' @ nl @
         tabs 2 @ ''AND delete_height IS NULL'' @ nl @
         tabs 1)
        [tableName]\<rparr>"

definition Cw20BalancesTable :: "string \<Rightarrow> table_code" where
  "Cw20BalancesTable tableName =
     \<lparr>gt_TableName = tableName,
      gt_CreateTable = sprintf
        (nl @
         tabs 2 @ ''CREATE TABLE IF NOT EXISTS %s'' @ nl @
         tabs 2 @
         ''(id serial PRIMARY KEY NOT NULL, height integer NOT NULL, delete_height integer, '' @
         ''chain_name text NOT NULL, contract_address text NOT NULL, address text NOT NULL, '' @
         ''amount text NOT NULL, UNIQUE (chain_name, contract_address, address))'' @ nl @
         tabs 1)
        [tableName],
      gt_Insert = sprintf
        (nl @
         tabs 2 @ ''INSERT INTO %s (height, chain_name, contract_address, address, amount)'' @ nl @
         tabs 2 @ ''VALUES (:height, :chain_name, :contract_address, :address, :amount)'' @ nl @
         tabs 1)
        [tableName],
      gt_Upsert = sprintf
        (nl @
         tabs 2 @ ''INSERT INTO %s (height, chain_name, contract_address, address, amount)'' @ nl @
         tabs 2 @ ''VALUES (:height, :chain_name, :contract_address, :address, :amount)'' @ nl @
         tabs 2 @ ''ON CONFLICT (chain_name, contract_address, address)'' @ nl @
         tabs 2 @ ''DO UPDATE'' @ nl @
         tabs 2 @ ''SET delete_height = NULL, height = EXCLUDED.height, chain_name = '' @
         ''EXCLUDED.chain_name, contract_address = EXCLUDED.contract_address, address = '' @
         ''EXCLUDED.address, amount = EXCLUDED.amount'' @ nl @
         tabs 2 @ ''WHERE %s.height < EXCLUDED.height'' @ nl @
         tabs 1)
        [tableName, tableName],
      gt_Delete = sprintf
        (nl @
         tabs 2 @ ''UPDATE %s'' @ nl @
         tabs 2 @ ''SET delete_height = :height, height = :height'' @ nl @
         tabs 2 @ ''WHERE chain_name=:chain_name AND contract_address=:contract_address AND '' @
         ''address=:address'' @ nl @
         tabs 2 @ ''AND delete_height IS NULL'' @ nl @
         tabs 1)
        [tableName]\<rparr>"

definition Cw20TokenInfoTable :: "string \<Rightarrow> table_code" where
  "Cw20TokenInfoTable tableName =
     \<lparr>gt_TableName = tableName,
      gt_CreateTable = sprintf
        (nl @
         tabs 2 @ ''CREATE TABLE IF NOT EXISTS %s'' @ nl @
         tabs 2 @
         ''(id serial PRIMARY KEY NOT NULL, height integer NOT NULL, delete_height integer, '' @
         ''chain_name text NOT NULL, contract_address text NOT NULL, name text NOT NULL, '' @
         ''symbol text NOT NULL, decimals integer NOT NULL, total_supply text NOT NULL, UNIQUE '' @
         ''(chain_name, contract_address))'' @ nl @
         tabs 1)
        [tableName],
      gt_Insert = sprintf
        (nl @
         tabs 2 @ ''INSERT INTO %s (height, chain_name, contract_address, name, symbol, decimals, '' @
         ''total_supply)'' @ nl @
         tabs 2 @ ''VALUES (:height, :chain_name, :contract_address, :name, :symbol, :decimals, '' @
         '':total_supply)'' @ nl @
         tabs 1)
        [tableName],
      gt_Upsert = sprintf
        (nl @
         tabs 2 @ ''INSERT INTO %s (height, chain_name, contract_address, name, symbol, decimals, '' @
         ''total_supply)'' @ nl @
         tabs 2 @ ''VALUES (:height, :chain_name, :contract_address, :name, :symbol, :decimals, '' @
         '':total_supply)'' @ nl @
         tabs 2 @ ''ON CONFLICT (chain_name, contract_address)'' @ nl @
         tabs 2 @ ''DO UPDATE'' @ nl @
         tabs 2 @ ''SET delete_height = NULL, height = EXCLUDED.height, chain_name = '' @
         ''EXCLUDED.chain_name, contract_address = EXCLUDED.contract_address, name = '' @
         ''EXCLUDED.name, symbol = EXCLUDED.symbol, decimals = EXCLUDED.decimals, total_supply '' @
         ''= EXCLUDED.total_supply'' @ nl @
         tabs 2 @ ''WHERE %s.height < EXCLUDED.height'' @ nl @
         tabs 1)
        [tableName, tableName],
      gt_Delete = sprintf
        (nl @
         tabs 2 @ ''UPDATE %s'' @ nl @
         tabs 2 @ ''SET delete_height = :height, height = :height'' @ nl @
         tabs 2 @ ''WHERE chain_name=:chain_name AND contract_address=:contract_address'' @ nl @
         tabs 2 @ ''AND delete_height IS NULL'' @ nl @
         tabs 1)
        [tableName]\<rparr>"

definition ConnectionsTable :: "string \<Rightarrow> table_code" where
  "ConnectionsTable tableName =
     \<lparr>gt_TableName = tableName,
      gt_CreateTable = sprintf
        (nl @
         tabs 2 @ ''CREATE TABLE IF NOT EXISTS %s'' @ nl @
         tabs 2 @
         ''(id serial PRIMARY KEY NOT NULL, height integer NOT NULL, delete_height integer, '' @
         ''chain_name text NOT NULL, connection_id text NOT NULL, client_id text NOT NULL, '' @
         ''state text NOT NULL, counter_connection_id text NOT NULL, counter_client_id text '' @
         ''NOT NULL, UNIQUE (chain_name, connection_id, client_id))'' @ nl @
         tabs 1)
        [tableName],
      gt_Insert = sprintf
        (nl @
         tabs 2 @ ''INSERT INTO %s (height, chain_name, connection_id, client_id, state, '' @
         ''counter_connection_id, counter_client_id)'' @ nl @
         tabs 2 @ ''VALUES (:height, :chain_name, :connection_id, :client_id, :state, '' @
         '':counter_connection_id, :counter_client_id)'' @ nl @
         tabs 1)
        [tableName],
      gt_Upsert = sprintf
        (nl @
         tabs 2 @ ''INSERT INTO %s (height, chain_name, connection_id, client_id, state, '' @
         ''counter_connection_id, counter_client_id)'' @ nl @
         tabs 2 @ ''VALUES (:height, :chain_name, :connection_id, :client_id, :state, '' @
         '':counter_connection_id, :counter_client_id)'' @ nl @
         tabs 2 @ ''ON CONFLICT (chain_name, connection_id, client_id)'' @ nl @
         tabs 2 @ ''DO UPDATE'' @ nl @
         tabs 2 @ ''SET delete_height = NULL, height = EXCLUDED.height, chain_name = '' @
         ''EXCLUDED.chain_name, connection_id = EXCLUDED.connection_id, client_id = '' @
         ''EXCLUDED.client_id, state = EXCLUDED.state, counter_connection_id = '' @
         ''EXCLUDED.counter_connection_id, counter_client_id = EXCLUDED.counter_client_id'' @ nl @
         tabs 2 @ ''WHERE %s.height < EXCLUDED.height'' @ nl @
         tabs 1)
        [tableName, tableName],
      gt_Delete = sprintf
        (nl @
         tabs 2 @ ''UPDATE %s'' @ nl @
         tabs 2 @ ''SET delete_height = :height, height = :height'' @ nl @
         tabs 2 @ ''WHERE chain_name=:chain_name AND connection_id=:connection_id AND '' @
         ''client_id=:client_id'' @ nl @
         tabs 2 @ ''AND delete_height IS NULL'' @ nl @
         tabs 1)
        [tableName]\<rparr>"

definition DelegationsTable :: "string \<Rightarrow> table_code" where
  "DelegationsTable tableName =
     \<lparr>gt_TableName = tableName,
      gt_CreateTable = sprintf
        (nl @
         tabs 2 @ ''CREATE TABLE IF NOT EXISTS %s'' @ nl @
         tabs 2 @
         ''(id serial PRIMARY KEY NOT NULL, height integer NOT NULL, delete_height integer, '' @
         ''chain_name text NOT NULL, delegator_address text NOT NULL, validator_address text '' @
         ''NOT NULL, amount text NOT NULL, UNIQUE (chain_name, delegator_address, '' @
         ''validator_address))'' @ nl @
         tabs 1)
        [tableName],
      gt_Insert = sprintf
        (nl @
         tabs 2 @
         ''INSERT INTO %s (height, chain_name, delegator_address, validator_address, amount)'' @ nl @
         tabs 2 @ ''VALUES (:height, :chain_name, :delegator_address, :validator_address, :amount)'' @
         nl @
         tabs 1)
        [tableName],
      gt_Upsert = sprintf
        (nl @
         tabs 2 @
         ''INSERT INTO %s (height, chain_name, delegator_address, validator_address, amount)'' @ nl @
         tabs 2 @ ''VALUES (:height, :chain_name, :delegator_address, :validator_address, :amount)'' @
         nl @
         tabs 2 @ ''ON CONFLICT (chain_name, delegator_address, validator_address)'' @ nl @
         tabs 2 @ ''DO UPDATE'' @ nl @
         tabs 2 @ ''SET delete_height = NULL, height = EXCLUDED.height, chain_name = '' @
         ''EXCLUDED.chain_name, delegator_address = EXCLUDED.delegator_address, '' @
         ''validator_address = EXCLUDED.validator_address, amount = EXCLUDED.amount'' @ nl @
         tabs 2 @ ''WHERE %s.height < EXCLUDED.height'' @ nl @
         tabs 1)
        [tableName, tableName],
      gt_Delete = sprintf
        (nl @
         tabs 2 @ ''UPDATE %s'' @ nl @
         tabs 2 @ ''SET delete_height = :height, height = :height'' @ nl @
         tabs 2 @ ''WHERE chain_name=:chain_name AND delegator_address=:delegator_address AND '' @
         ''validator_address=:validator_address'' @ nl @
         tabs 2 @ ''AND delete_height IS NULL'' @ nl @
         tabs 1)
        [tableName]\<rparr>"

definition UnbondingDelegationsTable :: "string \<Rightarrow> table_code" where
  "UnbondingDelegationsTable tableName =
     \<lparr>gt_TableName = tableName,
      gt_CreateTable = sprintf
        (nl @
         tabs 2 @ ''CREATE TABLE IF NOT EXISTS %s'' @ nl @
         tabs 2 @
         ''(id serial PRIMARY KEY NOT NULL, height integer NOT NULL, delete_height integer, '' @
         ''chain_name text NOT NULL, delegator_address text NOT NULL, validator_address text '' @
         ''NOT NULL, entries jsonb NOT NULL, UNIQUE (chain_name, delegator_address, '' @
         ''validator_address))'' @ nl @
         tabs 1)
        [tableName],
      gt_Insert = sprintf
        (nl @
         tabs 2 @
         ''INSERT INTO %s (height, chain_name, delegator_address, validator_address, entries)'' @ nl @
         tabs 2 @ ''VALUES (:height, :chain_name, :delegator_address, :validator_address, :entries)'' @
         nl @
         tabs 1)
        [tableName],
      gt_Upsert = sprintf
        (nl @
         tabs 2 @
         ''INSERT INTO %s (height, chain_name, delegator_address, validator_address, entries)'' @ nl @
         tabs 2 @ ''VALUES (:height, :chain_name, :delegator_address, :validator_address, :entries)'' @
         nl @
         tabs 2 @ ''ON CONFLICT (chain_name, delegator_address, validator_address)'' @ nl @
         tabs 2 @ ''DO UPDATE'' @ nl @
         tabs 2 @ ''SET delete_height = NULL, height = EXCLUDED.height, chain_name = '' @
         ''EXCLUDED.chain_name, delegator_address = EXCLUDED.delegator_address, '' @
         ''validator_address = EXCLUDED.validator_address, entries = EXCLUDED.entries'' @ nl @
         tabs 2 @ ''WHERE %s.height < EXCLUDED.height'' @ nl @
         tabs 1)
        [tableName, tableName],
      gt_Delete = sprintf
        (nl @
         tabs 2 @ ''UPDATE %s'' @ nl @
         tabs 2 @ ''SET delete_height = :height, height = :height'' @ nl @
         tabs 2 @ ''WHERE chain_name=:chain_name AND delegator_address=:delegator_address AND '' @
         ''validator_address=:validator_address'' @ nl @
         tabs 2 @ ''AND delete_height IS NULL'' @ nl @
         tabs 1)
        [tableName]\<rparr>"

definition AuthTable :: "string \<Rightarrow> table_code" where
  "AuthTable tableName =
     \<lparr>gt_TableName = tableName,
      gt_CreateTable = sprintf
        (nl @
         tabs 2 @ ''CREATE TABLE IF NOT EXISTS %s'' @ nl @
         tabs 2 @
         ''(id serial PRIMARY KEY NOT NULL, height integer NOT NULL, delete_height integer, '' @
         ''chain_name text NOT NULL, address text NOT NULL, sequence_number numeric NOT NULL, '' @
         ''account_number numeric NOT NULL, UNIQUE (chain_name, address, account_number))'' @ nl @
         tabs 1)
        [tableName],
      gt_Insert = sprintf
        (nl @
         tabs 2 @ ''INSERT INTO %s (height, chain_name, address, sequence_number, account_number)'' @
         nl @
         tabs 2 @ ''VALUES (:height, :chain_name, :address, :sequence_number, :account_number)'' @ nl @
         tabs 1)
        [tableName],
      gt_Upsert = sprintf
        (nl @
         tabs 2 @ ''INSERT INTO %s (height, chain_name, address, sequence_number, account_number)'' @
         nl @
         tabs 2 @ ''VALUES (:height, :chain_name, :address, :sequence_number, :account_number)'' @ nl @
         tabs 2 @ ''ON CONFLICT (chain_name, address, account_number)'' @ nl @
         tabs 2 @ ''DO UPDATE'' @ nl @
         tabs 2 @ ''SET delete_height = NULL, height = EXCLUDED.height, chain_name = '' @
         ''EXCLUDED.chain_name, address = EXCLUDED.address, sequence_number = '' @
         ''EXCLUDED.sequence_number, account_number = EXCLUDED.account_number'' @ nl @
         tabs 2 @ ''WHERE %s.height < EXCLUDED.height'' @ nl @
         tabs 1)
        [tableName, tableName],
      gt_Delete = sprintf
        (nl @
         tabs 2 @ ''UPDATE %s'' @ nl @
         tabs 2 @ ''SET delete_height = :height, height = :height'' @ nl @
         tabs 2 @
         ''WHERE chain_name=:chain_name AND address=:address AND account_number=:account_number'' @ nl @
         tabs 2 @ ''AND delete_height IS NULL'' @ nl @
         tabs 1)
        [tableName]\<rparr>"

definition DenomTracesTable :: "string \<Rightarrow> table_code" where
  "DenomTracesTable tableName =
     \<lparr>gt_TableName = tableName,
      gt_CreateTable = sprintf
        (nl @
         tabs 2 @ ''CREATE TABLE IF NOT EXISTS %s'' @ nl @
         tabs 2 @
         ''(id serial PRIMARY KEY NOT NULL, height integer NOT NULL, delete_height integer, '' @
         ''chain_name text NOT NULL, path text NOT NULL, base_denom text NOT NULL, hash text '' @
         ''NOT NULL, UNIQUE (chain_name, hash))'' @ nl @
         tabs 1)
        [tableName],
      gt_Insert = sprintf
        (nl @
         tabs 2 @ ''INSERT INTO %s (height, chain_name, path, base_denom, hash)'' @ nl @
         tabs 2 @ ''VALUES (:height, :chain_name, :path, :base_denom, :hash)'' @ nl @
         tabs 1)
        [tableName],
      gt_Upsert = sprintf
        (nl @
         tabs 2 @ ''INSERT INTO %s (height, chain_name, path, base_denom, hash)'' @ nl @
         tabs 2 @ ''VALUES (:height, :chain_name, :path, :base_denom, :hash)'' @ nl @
         tabs 2 @ ''ON CONFLICT (chain_name, hash)'' @ nl @
         tabs 2 @ ''DO UPDATE'' @ nl @
         tabs 2 @ ''SET delete_height = NULL, height = EXCLUDED.height, chain_name = '' @
         ''EXCLUDED.chain_name, path = EXCLUDED.path, base_denom = EXCLUDED.base_denom, hash = '' @
         ''EXCLUDED.hash'' @ nl @
         tabs 2 @ ''WHERE %s.height < EXCLUDED.height'' @ nl @
         tabs 1)
        [tableName, tableName],
      gt_Delete = sprintf
        (nl @
         tabs 2 @ ''UPDATE %s'' @ nl @
         tabs 2 @ ''SET delete_height = :height, height = :height'' @ nl @
         tabs 2 @ ''WHERE chain_name=:chain_name AND hash=:hash'' @ nl @
         tabs 2 @ ''AND delete_height IS NULL'' @ nl @
         tabs 1)
        [tableName]\<rparr>"

definition ChannelsTable :: "string \<Rightarrow> table_code" where
  "ChannelsTable tableName =
     \<lparr>gt_TableName = tableName,
      gt_CreateTable = sprintf
        (nl @
         tabs 2 @ ''CREATE TABLE IF NOT EXISTS %s'' @ nl @
         tabs 2 @
         ''(id serial PRIMARY KEY NOT NULL, height integer NOT NULL, delete_height integer, '' @
         ''chain_name text NOT NULL, channel_id text NOT NULL, counter_channel_id text NOT '' @
         ''NULL, port text NOT NULL, state integer NOT NULL, hops text[] NOT NULL, UNIQUE '' @
         ''(chain_name, channel_id, port))'' @ nl @
         tabs 1)
        [tableName],
      gt_Insert = sprintf
        (nl @
         tabs 2 @
         ''INSERT INTO %s (height, chain_name, channel_id, counter_channel_id, port, state, '' @
         ''hops)'' @ nl @
         tabs 2 @ ''VALUES (:height, :chain_name, :channel_id, :counter_channel_id, :port, :state, '' @
         '':hops)'' @ nl @
         tabs 1)
        [tableName],
      gt_Upsert = sprintf
        (nl @
         tabs 2 @
         ''INSERT INTO %s (height, chain_name, channel_id, counter_channel_id, port, state, '' @
         ''hops)'' @ nl @
         tabs 2 @ ''VALUES (:height, :chain_name, :channel_id, :counter_channel_id, :port, :state, '' @
         '':hops)'' @ nl @
         tabs 2 @ ''ON CONFLICT (chain_name, channel_id, port)'' @ nl @
         tabs 2 @ ''DO UPDATE'' @ nl @
         tabs 2 @ ''SET delete_height = NULL, height = EXCLUDED.height, chain_name = '' @
         ''EXCLUDED.chain_name, channel_id = EXCLUDED.channel_id, counter_channel_id = '' @
         ''EXCLUDED.counter_channel_id, port = EXCLUDED.port, state = EXCLUDED.state, hops = '' @
         ''EXCLUDED.hops'' @ nl @
         tabs 2 @ ''WHERE %s.height < EXCLUDED.height'' @ nl @
         tabs 1)
        [tableName, tableName],
      gt_Delete = sprintf
        (nl @
         tabs 2 @ ''UPDATE %s'' @ nl @
         tabs 2 @ ''SET delete_height = :height, height = :height'' @ nl @
         tabs 2 @ ''WHERE chain_name=:chain_name AND channel_id=:channel_id AND port=:port'' @ nl @
         tabs 2 @ ''AND delete_height IS NULL'' @ nl @
         tabs 1)
        [tableName]\<rparr>"

definition ClientsTable :: "string \<Rightarrow> table_code" where
  "ClientsTable tableName =
     \<lparr>gt_TableName = tableName,
      gt_CreateTable = sprintf
        (nl @
         tabs 2 @ ''CREATE TABLE IF NOT EXISTS %s'' @ nl @
         tabs 2 @
         ''(id serial PRIMARY KEY NOT NULL, height integer NOT NULL, delete_height integer, '' @
         ''chain_name text NOT NULL, chain_id text NOT NULL, client_id text NOT NULL, '' @
         ''latest_height numeric NOT NULL, trusting_period numeric NOT NULL, UNIQUE '' @
         ''(chain_name, chain_id, client_id))'' @ nl @
         tabs 1)
        [tableName],
      gt_Insert = sprintf
        (nl @
         tabs 2 @ ''INSERT INTO %s (height, chain_name, chain_id, client_id, latest_height, '' @
         ''trusting_period)'' @ nl @
         tabs 2 @ ''VALUES (:height, :chain_name, :chain_id, :client_id, :latest_height, '' @
         '':trusting_period)'' @ nl @
         tabs 1)
        [tableName],
      gt_Upsert = sprintf
        (nl @
         tabs 2 @ ''INSERT INTO %s (height, chain_name, chain_id, client_id, latest_height, '' @
         ''trusting_period)'' @ nl @
         tabs 2 @ ''VALUES (:height, :chain_name, :chain_id, :client_id, :latest_height, '' @
         '':trusting_period)'' @ nl @
         tabs 2 @ ''ON CONFLICT (chain_name, chain_id, client_id)'' @ nl @
         tabs 2 @ ''DO UPDATE'' @ nl @
         tabs 2 @ ''SET delete_height = NULL, height = EXCLUDED.height, chain_name = '' @
         ''EXCLUDED.chain_name, chain_id = EXCLUDED.chain_id, client_id = EXCLUDED.client_id, '' @
         ''latest_height = EXCLUDED.latest_height, trusting_period = EXCLUDED.trusting_period'' @ nl @
         tabs 2 @ ''WHERE %s.height < EXCLUDED.height'' @ nl @
         tabs 1)
        [tableName, tableName],
      gt_Delete = sprintf
        (nl @
         tabs 2 @ ''UPDATE %s'' @ nl @
         tabs 2 @ ''SET delete_height = :height, height = :height'' @ nl @
         tabs 2 @ ''WHERE chain_name=:chain_name AND chain_id=:chain_id AND client_id=:client_id'' @
         nl @
         tabs 2 @ ''AND delete_height IS NULL'' @ nl @
         tabs 1)
        [tableName]\<rparr>"

definition ValidatorsTable :: "string \<Rightarrow> table_code" where
  "ValidatorsTable tableName =
     \<lparr>gt_TableName = tableName,
      gt_CreateTable = sprintf
        (nl @
         tabs 2 @ ''CREATE TABLE IF NOT EXISTS %s'' @ nl @
         tabs 2 @
         ''(id serial PRIMARY KEY NOT NULL, height integer NOT NULL, delete_height integer, '' @
         ''chain_name text NOT NULL, validator_address text NOT NULL, operator_address text '' @
         ''NOT NULL, consensus_pubkey_type text, consensus_pubkey_value bytes, jailed bool NOT '' @
         ''NULL, status integer NOT NULL, tokens text NOT NULL, delegator_shares text NOT '' @
         ''NULL, moniker text, identity text, website text, security_contact text, details '' @
         ''text, unbonding_height bigint, unbonding_time text, commission_rate text NOT NULL, '' @
         ''max_rate text NOT NULL, max_change_rate text NOT NULL, update_time text NOT NULL, '' @
         ''min_self_delegation text NOT NULL, UNIQUE (chain_name, operator_address))'' @ nl @
         tabs 1)
        [tableName],
      gt_Insert = sprintf
        (nl @
         tabs 2 @ ''INSERT INTO %s (height, chain_name, validator_address, operator_address, '' @
         ''consensus_pubkey_type, consensus_pubkey_value, jailed, status, tokens, '' @
         ''delegator_shares, moniker, identity, website, security_contact, details, '' @
         ''unbonding_height, unbonding_time, commission_rate, max_rate, max_change_rate, '' @
         ''update_time, min_self_delegation)'' @ nl @
         tabs 2 @ ''VALUES (:height, :chain_name, :validator_address, :operator_address, '' @
         '':consensus_pubkey_type, :consensus_pubkey_value, :jailed, :status, :tokens, '' @
         '':delegator_shares, :moniker, :identity, :website, :security_contact, :details, '' @
         '':unbonding_height, :unbonding_time, :commission_rate, :max_rate, :max_change_rate, '' @
         '':update_time, :min_self_delegation)'' @ nl @
         tabs 1)
        [tableName],
      gt_Upsert = sprintf
        (nl @
         tabs 2 @ ''INSERT INTO %s (height, chain_name, validator_address, operator_address, '' @
         ''consensus_pubkey_type, consensus_pubkey_value, jailed, status, tokens, '' @
         ''delegator_shares, moniker, identity, website, security_contact, details, '' @
         ''unbonding_height, unbonding_time, commission_rate, max_rate, max_change_rate, '' @
         ''update_time, min_self_delegation)'' @ nl @
         tabs 2 @ ''VALUES (:height, :chain_name, :validator_address, :operator_address, '' @
         '':consensus_pubkey_type, :consensus_pubkey_value, :jailed, :status, :tokens, '' @
         '':delegator_shares, :moniker, :identity, :website, :security_contact, :details, '' @
         '':unbonding_height, :unbonding_time, :commission_rate, :max_rate, :max_change_rate, '' @
         '':update_time, :min_self_delegation)'' @ nl @
         tabs 2 @ ''ON CONFLICT (chain_name, operator_address)'' @ nl @
         tabs 2 @ ''DO UPDATE'' @ nl @
         tabs 2 @ ''SET delete_height = NULL, height = EXCLUDED.height, chain_name = '' @
         ''EXCLUDED.chain_name, validator_address = EXCLUDED.validator_address, '' @
         ''operator_address = EXCLUDED.operator_address, consensus_pubkey_type = '' @
         ''EXCLUDED.consensus_pubkey_type, consensus_pubkey_value = '' @
         ''EXCLUDED.consensus_pubkey_value, jailed = EXCLUDED.jailed, status = '' @
         ''EXCLUDED.status, tokens = EXCLUDED.tokens, delegator_shares = '' @
         ''EXCLUDED.delegator_shares, moniker = EXCLUDED.moniker, identity = '' @
         ''EXCLUDED.identity, website = EXCLUDED.website, security_contact = '' @
         ''EXCLUDED.security_contact, details = EXCLUDED.details, unbonding_height = '' @
         ''EXCLUDED.unbonding_height, unbonding_time = EXCLUDED.unbonding_time, '' @
         ''commission_rate = EXCLUDED.commission_rate, max_rate = EXCLUDED.max_rate, '' @
         ''max_change_rate = EXCLUDED.max_change_rate, update_time = EXCLUDED.update_time, '' @
         ''min_self_delegation = EXCLUDED.min_self_delegation'' @ nl @
         tabs 2 @ ''WHERE %s.height < EXCLUDED.height'' @ nl @
         tabs 1)
        [tableName, tableName],
      gt_Delete = sprintf
        (nl @
         tabs 2 @ ''UPDATE %s'' @ nl @
         tabs 2 @ ''SET delete_height = :height, height = :height'' @ nl @
         tabs 2 @ ''WHERE chain_name=:chain_name AND operator_address=:operator_address'' @ nl @
         tabs 2 @ ''AND delete_height IS NULL'' @ nl @
         tabs 1)
        [tableName]\<rparr>"

section \<open>The descriptions\<close>

definition balances_config :: TableConfig where
  "balances_config =
     \<lparr>tc_Name = ''balances'',
      tc_Columns =
        [\<lparr>col_Name = ''id'', col_Type = ''serial'', col_Primary = True,
           col_SkipOnInsert = True, col_Nullable = False\<rparr>,
         \<lparr>col_Name = ''height'', col_Type = ''integer'', col_Primary = False,
           col_SkipOnInsert = False, col_Nullable = False\<rparr>,
         \<lparr>col_Name = ''delete_height'', col_Type = ''integer'', col_Primary = False,
           col_SkipOnInsert = True, col_Nullable = True\<rparr>,
         \<lparr>col_Name = ''chain_name'', col_Type = ''text'', col_Primary = False,
           col_SkipOnInsert = False, col_Nullable = False\<rparr>,
         \<lparr>col_Name = ''address'', col_Type = ''text'', col_Primary = False,
           col_SkipOnInsert = False, col_Nullable = False\<rparr>,
         \<lparr>col_Name = ''amount'', col_Type = ''text'', col_Primary = False,
           col_SkipOnInsert = False, col_Nullable = False\<rparr>,
         \<lparr>col_Name = ''denom'', col_Type = ''text'', col_Primary = False,
           col_SkipOnInsert = False, col_Nullable = False\<rparr>],
      tc_UniqueColumns = [''chain_name'', ''address'', ''denom'']\<rparr>"

definition cw20_balances_config :: TableConfig where
  "cw20_balances_config =
     \<lparr>tc_Name = ''cw20_balances'',
      tc_Columns =
        [\<lparr>col_Name = ''id'', col_Type = ''serial'', col_Primary = True,
           col_SkipOnInsert = True, col_Nullable = False\<rparr>,
         \<lparr>col_Name = ''height'', col_Type = ''integer'', col_Primary = False,
           col_SkipOnInsert = False, col_Nullable = False\<rparr>,
         \<lparr>col_Name = ''delete_height'', col_Type = ''integer'', col_Primary = False,
           col_SkipOnInsert = True, col_Nullable = True\<rparr>,
         \<lparr>col_Name = ''chain_name'', col_Type = ''text'', col_Primary = False,
           col_SkipOnInsert = False, col_Nullable = False\<rparr>,
         \<lparr>col_Name = ''contract_address'', col_Type = ''text'', col_Primary = False,
           col_SkipOnInsert = False, col_Nullable = False\<rparr>,
         \<lparr>col_Name = ''address'', col_Type = ''text'', col_Primary = False,
           col_SkipOnInsert = False, col_Nullable = False\<rparr>,
         \<lparr>col_Name = ''amount'', col_Type = ''text'', col_Primary = False,
           col_SkipOnInsert = False, col_Nullable = False\<rparr>],
      tc_UniqueColumns = [''chain_name'', ''contract_address'', ''address'']\<rparr>"

definition cw20_token_info_config :: TableConfig where
  "cw20_token_info_config =
     \<lparr>tc_Name = ''cw20_token_info'',
      tc_Columns =
        [\<lparr>col_Name = ''id'', col_Type = ''serial'', col_Primary = True,
           col_SkipOnInsert = True, col_Nullable = False\<rparr>,
         \<lparr>col_Name = ''height'', col_Type = ''integer'', col_Primary = False,
           col_SkipOnInsert = False, col_Nullable = False\<rparr>,
         \<lparr>col_Name = ''delete_height'', col_Type = ''integer'', col_Primary = False,
           col_SkipOnInsert = True, col_Nullable = True\<rparr>,
         \<lparr>col_Name = ''chain_name'', col_Type = ''text'', col_Primary = False,
           col_SkipOnInsert = False, col_Nullable = False\<rparr>,
         \<lparr>col_Name = ''contract_address'', col_Type = ''text'', col_Primary = False,
           col_SkipOnInsert = False, col_Nullable = False\<rparr>,
         \<lparr>col_Name = ''name'', col_Type = ''text'', col_Primary = False,
           col_SkipOnInsert = False, col_Nullable = False\<rparr>,
         \<lparr>col_Name = ''symbol'', col_Type = ''text'', col_Primary = False,
           col_SkipOnInsert = False, col_Nullable = False\<rparr>,
         \<lparr>col_Name = ''decimals'', col_Type = ''integer'', col_Primary = False,
           col_SkipOnInsert = False, col_Nullable = False\<rparr>,
         \<lparr>col_Name = ''total_supply'', col_Type = ''text'', col_Primary = False,
           col_SkipOnInsert = False, col_Nullable = False\<rparr>],
      tc_UniqueColumns = [''chain_name'', ''contract_address'']\<rparr>"

definition connections_config :: TableConfig where
  "connections_config =
     \<lparr>tc_Name = ''connections'',
      tc_Columns =
        [\<lparr>col_Name = ''id'', col_Type = ''serial'', col_Primary = True,
           col_SkipOnInsert = True, col_Nullable = False\<rparr>,
         \<lparr>col_Name = ''height'', col_Type = ''integer'', col_Primary = False,
           col_SkipOnInsert = False, col_Nullable = False\<rparr>,
         \<lparr>col_Name = ''delete_height'', col_Type = ''integer'', col_Primary = False,
           col_SkipOnInsert = True, col_Nullable = True\<rparr>,
         \<lparr>col_Name = ''chain_name'', col_Type = ''text'', col_Primary = False,
           col_SkipOnInsert = False, col_Nullable = False\<rparr>,
         \<lparr>col_Name = ''connection_id'', col_Type = ''text'', col_Primary = False,
           col_SkipOnInsert = False, col_Nullable = False\<rparr>,
         \<lparr>col_Name = ''client_id'', col_Type = ''text'', col_Primary = False,
           col_SkipOnInsert = False, col_Nullable = False\<rparr>,
         \<lparr>col_Name = ''state'', col_Type = ''text'', col_Primary = False,
           col_SkipOnInsert = False, col_Nullable = False\<rparr>,
         \<lparr>col_Name = ''counter_connection_id'', col_Type = ''text'', col_Primary = False,
           col_SkipOnInsert = False, col_Nullable = False\<rparr>,
         \<lparr>col_Name = ''counter_client_id'', col_Type = ''text'', col_Primary = False,
           col_SkipOnInsert = False, col_Nullable = False\<rparr>],
      tc_UniqueColumns = [''chain_name'', ''connection_id'', ''client_id'']\<rparr>"

definition delegations_config :: TableConfig where
  "delegations_config =
     \<lparr>tc_Name = ''delegations'',
      tc_Columns =
        [\<lparr>col_Name = ''id'', col_Type = ''serial'', col_Primary = True,
           col_SkipOnInsert = True, col_Nullable = False\<rparr>,
         \<lparr>col_Name = ''height'', col_Type = ''integer'', col_Primary = False,
           col_SkipOnInsert = False, col_Nullable = False\<rparr>,
         \<lparr>col_Name = ''delete_height'', col_Type = ''integer'', col_Primary = False,
           col_SkipOnInsert = True, col_Nullable = True\<rparr>,
         \<lparr>col_Name = ''chain_name'', col_Type = ''text'', col_Primary = False,
           col_SkipOnInsert = False, col_Nullable = False\<rparr>,
         \<lparr>col_Name = ''delegator_address'', col_Type = ''text'', col_Primary = False,
           col_SkipOnInsert = False, col_Nullable = False\<rparr>,
         \<lparr>col_Name = ''validator_address'', col_Type = ''text'', col_Primary = False,
           col_SkipOnInsert = False, col_Nullable = False\<rparr>,
         \<lparr>col_Name = ''amount'', col_Type = ''text'', col_Primary = False,
           col_SkipOnInsert = False, col_Nullable = False\<rparr>],
      tc_UniqueColumns = [''chain_name'', ''delegator_address'', ''validator_address'']\<rparr>"

definition unbonding_delegations_config :: TableConfig where
  "unbonding_delegations_config =
     \<lparr>tc_Name = ''unbonding_delegations'',
      tc_Columns =
        [\<lparr>col_Name = ''id'', col_Type = ''serial'', col_Primary = True,
           col_SkipOnInsert = True, col_Nullable = False\<rparr>,
         \<lparr>col_Name = ''height'', col_Type = ''integer'', col_Primary = False,
           col_SkipOnInsert = False, col_Nullable = False\<rparr>,
         \<lparr>col_Name = ''delete_height'', col_Type = ''integer'', col_Primary = False,
           col_SkipOnInsert = True, col_Nullable = True\<rparr>,
         \<lparr>col_Name = ''chain_name'', col_Type = ''text'', col_Primary = False,
           col_SkipOnInsert = False, col_Nullable = False\<rparr>,
         \<lparr>col_Name = ''delegator_address'', col_Type = ''text'', col_Primary = False,
           col_SkipOnInsert = False, col_Nullable = False\<rparr>,
         \<lparr>col_Name = ''validator_address'', col_Type = ''text'', col_Primary = False,
           col_SkipOnInsert = False, col_Nullable = False\<rparr>,
         \<lparr>col_Name = ''entries'', col_Type = ''jsonb'', col_Primary = False,
           col_SkipOnInsert = False, col_Nullable = False\<rparr>],
      tc_UniqueColumns = [''chain_name'', ''delegator_address'', ''validator_address'']\<rparr>"

definition auth_config :: TableConfig where
  "auth_config =
     \<lparr>tc_Name = ''auth'',
      tc_Columns =
        [\<lparr>col_Name = ''id'', col_Type = ''serial'', col_Primary = True,
           col_SkipOnInsert = True, col_Nullable = False\<rparr>,
         \<lparr>col_Name = ''height'', col_Type = ''integer'', col_Primary = False,
           col_SkipOnInsert = False, col_Nullable = False\<rparr>,
         \<lparr>col_Name = ''delete_height'', col_Type = ''integer'', col_Primary = False,
           col_SkipOnInsert = True, col_Nullable = True\<rparr>,
         \<lparr>col_Name = ''chain_name'', col_Type = ''text'', col_Primary = False,
           col_SkipOnInsert = False, col_Nullable = False\<rparr>,
         \<lparr>col_Name = ''address'', col_Type = ''text'', col_Primary = False,
           col_SkipOnInsert = False, col_Nullable = False\<rparr>,
         \<lparr>col_Name = ''sequence_number'', col_Type = ''numeric'', col_Primary = False,
           col_SkipOnInsert = False, col_Nullable = False\<rparr>,
         \<lparr>col_Name = ''account_number'', col_Type = ''numeric'', col_Primary = False,
           col_SkipOnInsert = False, col_Nullable = False\<rparr>],
      tc_UniqueColumns = [''chain_name'', ''address'', ''account_number'']\<rparr>"

definition denom_traces_config :: TableConfig where
  "denom_traces_config =
     \<lparr>tc_Name = ''denom_traces'',
      tc_Columns =
        [\<lparr>col_Name = ''id'', col_Type = ''serial'', col_Primary = True,
           col_SkipOnInsert = True, col_Nullable = False\<rparr>,
         \<lparr>col_Name = ''height'', col_Type = ''integer'', col_Primary = False,
           col_SkipOnInsert = False, col_Nullable = False\<rparr>,
         \<lparr>col_Name = ''delete_height'', col_Type = ''integer'', col_Primary = False,
           col_SkipOnInsert = True, col_Nullable = True\<rparr>,
         \<lparr>col_Name = ''chain_name'', col_Type = ''text'', col_Primary = False,
           col_SkipOnInsert = False, col_Nullable = False\<rparr>,
         \<lparr>col_Name = ''path'', col_Type = ''text'', col_Primary = False,
           col_SkipOnInsert = False, col_Nullable = False\<rparr>,
         \<lparr>col_Name = ''base_denom'', col_Type = ''text'', col_Primary = False,
           col_SkipOnInsert = False, col_Nullable = False\<rparr>,
         \<lparr>col_Name = ''hash'', col_Type = ''text'', col_Primary = False,
           col_SkipOnInsert = False, col_Nullable = False\<rparr>],
      tc_UniqueColumns = [''chain_name'', ''hash'']\<rparr>"

definition channels_config :: TableConfig where
  "channels_config =
     \<lparr>tc_Name = ''channels'',
      tc_Columns =
        [\<lparr>col_Name = ''id'', col_Type = ''serial'', col_Primary = True,
           col_SkipOnInsert = True, col_Nullable = False\<rparr>,
         \<lparr>col_Name = ''height'', col_Type = ''integer'', col_Primary = False,
           col_SkipOnInsert = False, col_Nullable = False\<rparr>,
         \<lparr>col_Name = ''delete_height'', col_Type = ''integer'', col_Primary = False,
           col_SkipOnInsert = True, col_Nullable = True\<rparr>,
         \<lparr>col_Name = ''chain_name'', col_Type = ''text'', col_Primary = False,
           col_SkipOnInsert = False, col_Nullable = False\<rparr>,
         \<lparr>col_Name = ''channel_id'', col_Type = ''text'', col_Primary = False,
           col_SkipOnInsert = False, col_Nullable = False\<rparr>,
         \<lparr>col_Name = ''counter_channel_id'', col_Type = ''text'', col_Primary = False,
           col_SkipOnInsert = False, col_Nullable = False\<rparr>,
         \<lparr>col_Name = ''port'', col_Type = ''text'', col_Primary = False,
           col_SkipOnInsert = False, col_Nullable = False\<rparr>,
         \<lparr>col_Name = ''state'', col_Type = ''integer'', col_Primary = False,
           col_SkipOnInsert = False, col_Nullable = False\<rparr>,
         \<lparr>col_Name = ''hops'', col_Type = ''text[]'', col_Primary = False,
           col_SkipOnInsert = False, col_Nullable = False\<rparr>],
      tc_UniqueColumns = [''chain_name'', ''channel_id'', ''port'']\<rparr>"

definition clients_config :: TableConfig where
  "clients_config =
     \<lparr>tc_Name = ''clients'',
      tc_Columns =
        [\<lparr>col_Name = ''id'', col_Type = ''serial'', col_Primary = True,
           col_SkipOnInsert = True, col_Nullable = False\<rparr>,
         \<lparr>col_Name = ''height'', col_Type = ''integer'', col_Primary = False,
           col_SkipOnInsert = False, col_Nullable = False\<rparr>,
         \<lparr>col_Name = ''delete_height'', col_Type = ''integer'', col_Primary = False,
           col_SkipOnInsert = True, col_Nullable = True\<rparr>,
         \<lparr>col_Name = ''chain_name'', col_Type = ''text'', col_Primary = False,
           col_SkipOnInsert = False, col_Nullable = False\<rparr>,
         \<lparr>col_Name = ''chain_id'', col_Type = ''text'', col_Primary = False,
           col_SkipOnInsert = False, col_Nullable = False\<rparr>,
         \<lparr>col_Name = ''client_id'', col_Type = ''text'', col_Primary = False,
           col_SkipOnInsert = False, col_Nullable = False\<rparr>,
         \<lparr>col_Name = ''latest_height'', col_Type = ''numeric'', col_Primary = False,
           col_SkipOnInsert = False, col_Nullable = False\<rparr>,
         \<lparr>col_Name = ''trusting_period'', col_Type = ''numeric'', col_Primary = False,
           col_SkipOnInsert = False, col_Nullable = False\<rparr>],
      tc_UniqueColumns = [''chain_name'', ''chain_id'', ''client_id'']\<rparr>"

definition validators_config :: TableConfig where
  "validators_config =
     \<lparr>tc_Name = ''validators'',
      tc_Columns =
        [\<lparr>col_Name = ''id'', col_Type = ''serial'', col_Primary = True,
           col_SkipOnInsert = True, col_Nullable = False\<rparr>,
         \<lparr>col_Name = ''height'', col_Type = ''integer'', col_Primary = False,
           col_SkipOnInsert = False, col_Nullable = False\<rparr>,
         \<lparr>col_Name = ''delete_height'', col_Type = ''integer'', col_Primary = False,
           col_SkipOnInsert = True, col_Nullable = True\<rparr>,
         \<lparr>col_Name = ''chain_name'', col_Type = ''text'', col_Primary = False,
           col_SkipOnInsert = False, col_Nullable = False\<rparr>,
         \<lparr>col_Name = ''validator_address'', col_Type = ''text'', col_Primary = False,
           col_SkipOnInsert = False, col_Nullable = False\<rparr>,
         \<lparr>col_Name = ''operator_address'', col_Type = ''text'', col_Primary = False,
           col_SkipOnInsert = False, col_Nullable = False\<rparr>,
         \<lparr>col_Name = ''consensus_pubkey_type'', col_Type = ''text'', col_Primary = False,
           col_SkipOnInsert = False, col_Nullable = True\<rparr>,
         \<lparr>col_Name = ''consensus_pubkey_value'', col_Type = ''bytes'', col_Primary = False,
           col_SkipOnInsert = False, col_Nullable = True\<rparr>,
         \<lparr>col_Name = ''jailed'', col_Type = ''bool'', col_Primary = False,
           col_SkipOnInsert = False, col_Nullable = False\<rparr>,
         \<lparr>col_Name = ''status'', col_Type = ''integer'', col_Primary = False,
           col_SkipOnInsert = False, col_Nullable = False\<rparr>,
         \<lparr>col_Name = ''tokens'', col_Type = ''text'', col_Primary = False,
           col_SkipOnInsert = False, col_Nullable = False\<rparr>,
         \<lparr>col_Name = ''delegator_shares'', col_Type = ''text'', col_Primary = False,
           col_SkipOnInsert = False, col_Nullable = False\<rparr>,
         \<lparr>col_Name = ''moniker'', col_Type = ''text'', col_Primary = False,
           col_SkipOnInsert = False, col_Nullable = True\<rparr>,
         \<lparr>col_Name = ''identity'', col_Type = ''text'', col_Primary = False,
           col_SkipOnInsert = False, col_Nullable = True\<rparr>,
         \<lparr>col_Name = ''website'', col_Type = ''text'', col_Primary = False,
           col_SkipOnInsert = False, col_Nullable = True\<rparr>,
         \<lparr>col_Name = ''security_contact'', col_Type = ''text'', col_Primary = False,
           col_SkipOnInsert = False, col_Nullable = True\<rparr>,
         \<lparr>col_Name = ''details'', col_Type = ''text'', col_Primary = False,
           col_SkipOnInsert = False, col_Nullable = True\<rparr>,
         \<lparr>col_Name = ''unbonding_height'', col_Type = ''bigint'', col_Primary = False,
           col_SkipOnInsert = False, col_Nullable = True\<rparr>,
         \<lparr>col_Name = ''unbonding_time'', col_Type = ''text'', col_Primary = False,
           col_SkipOnInsert = False, col_Nullable = True\<rparr>,
         \<lparr>col_Name = ''commission_rate'', col_Type = ''text'', col_Primary = False,
           col_SkipOnInsert = False, col_Nullable = False\<rparr>,
         \<lparr>col_Name = ''max_rate'', col_Type = ''text'', col_Primary = False,
           col_SkipOnInsert = False, col_Nullable = False\<rparr>,
         \<lparr>col_Name = ''max_change_rate'', col_Type = ''text'', col_Primary = False,
           col_SkipOnInsert = False, col_Nullable = False\<rparr>,
         \<lparr>col_Name = ''update_time'', col_Type = ''text'', col_Primary = False,
           col_SkipOnInsert = False, col_Nullable = False\<rparr>,
         \<lparr>col_Name = ''min_self_delegation'', col_Type = ''text'', col_Primary = False,
           col_SkipOnInsert = False, col_Nullable = False\<rparr>],
      tc_UniqueColumns = [''chain_name'', ''operator_address'']\<rparr>"

section \<open>All tables\<close>

definition sqlmodels :: "TableConfig list" where
  "sqlmodels = [balances_config,
     cw20_balances_config,
     cw20_token_info_config,
     connections_config,
     delegations_config,
     unbonding_delegations_config,
     auth_config,
     denom_traces_config,
     channels_config,
     clients_config,
     validators_config]"

definition generated_code :: "(string \<Rightarrow> table_code) list" where
  "generated_code = [BalancesTable,
     Cw20BalancesTable,
     Cw20TokenInfoTable,
     ConnectionsTable,
     DelegationsTable,
     UnbondingDelegationsTable,
     AuthTable,
     DenomTracesTable,
     ChannelsTable,
     ClientsTable,
     ValidatorsTable]"

section \<open>The checked-in code is current\<close>

lemma table_codeI:
  assumes "a1 = b1" "a2 = b2" "a3 = b3" "a4 = b4"
  shows "\<lparr>gt_TableName = t, gt_CreateTable = sprintf a1 [t], gt_Insert = sprintf a2 [t],
     gt_Upsert = sprintf a3 [t, t], gt_Delete = sprintf a4 [t]\<rparr> =
    \<lparr>gt_TableName = t, gt_CreateTable = sprintf b1 [t], gt_Insert = sprintf b2 [t],
     gt_Upsert = sprintf b3 [t, t], gt_Delete = sprintf b4 [t]\<rparr>"
  using assms by simp

named_theorems current_code \<open>each generated struct is the expansion of its description\<close>

lemma BalancesTable_current [current_code]: "BalancesTable t = generated balances_config t"
  unfolding BalancesTable_def generated_def by (rule table_codeI; code_simp)

lemma Cw20BalancesTable_current [current_code]: "Cw20BalancesTable t = generated cw20_balances_config t"
  unfolding Cw20BalancesTable_def generated_def by (rule table_codeI; code_simp)

lemma Cw20TokenInfoTable_current [current_code]: "Cw20TokenInfoTable t = generated cw20_token_info_config t"
  unfolding Cw20TokenInfoTable_def generated_def by (rule table_codeI; code_simp)

lemma ConnectionsTable_current [current_code]: "ConnectionsTable t = generated connections_config t"
  unfolding ConnectionsTable_def generated_def by (rule table_codeI; code_simp)

lemma DelegationsTable_current [current_code]: "DelegationsTable t = generated delegations_config t"
  unfolding DelegationsTable_def generated_def by (rule table_codeI; code_simp)

lemma UnbondingDelegationsTable_current [current_code]: "UnbondingDelegationsTable t = generated unbonding_delegations_config t"
  unfolding UnbondingDelegationsTable_def generated_def by (rule table_codeI; code_simp)

lemma AuthTable_current [current_code]: "AuthTable t = generated auth_config t"
  unfolding AuthTable_def generated_def by (rule table_codeI; code_simp)

lemma DenomTracesTable_current [current_code]: "DenomTracesTable t = generated denom_traces_config t"
  unfolding DenomTracesTable_def generated_def by (rule table_codeI; code_simp)

lemma ChannelsTable_current [current_code]: "ChannelsTable t = generated channels_config t"
  unfolding ChannelsTable_def generated_def by (rule table_codeI; code_simp)

lemma ClientsTable_current [current_code]: "ClientsTable t = generated clients_config t"
  unfolding ClientsTable_def generated_def by (rule table_codeI; code_simp)

lemma ValidatorsTable_current [current_code]: "ValidatorsTable t = generated validators_config t"
  unfolding ValidatorsTable_def generated_def by (rule table_codeI; code_simp)

text \<open>C22. The statements of the generated files are, for every table name, exactly what the template
  yields on the table descriptions of \<open>sqlmodels.yaml\<close>, and every one of those descriptions passes
  the generator's validation, whatever the Unicode tables say beyond ASCII.\<close>

theorem generated_code_current:
  "map (\<lambda>new. new t) generated_code = map (\<lambda>cfg. generated cfg t) sqlmodels \<and>
   list_all (\<lambda>cfg. TableConfig_Validate u cfg = Ok ()) sqlmodels"
proof
  show "map (\<lambda>new. new t) generated_code = map (\<lambda>cfg. generated cfg t) sqlmodels"
    unfolding generated_code_def sqlmodels_def list.map current_code ..
  show "list_all (\<lambda>cfg. TableConfig_Validate u cfg = Ok ()) sqlmodels"
    by code_simp
qed

end
