(* ===== verification/Keys.thy ===== *)
theory Keys
  imports Go_Lib
begin

text \<open>
  Store keys (\<open>tracelistener/keys.go\<close>): the length-prefixed keys of the staking module and the keys
  of CW20 contract state. The bech32 decoder of the Cosmos SDK is an argument of the definitions
  that call it: it returns the human-readable part and the decoded bytes, or an error.
\<close>

section \<open>Length-prefixed addresses\<close>

definition FromLengthPrefix :: "bytes \<Rightarrow> bytes outcome" where
  "FromLengthPrefix rawData =
     (case rawData of
        [] \<Rightarrow> Err ''data is nil''
      | l # rest \<Rightarrow>
          if length rest \<noteq> unat l
          then Err (''length prefix signals '' @ itoa (unat l) @ '' bytes, but total data is '' @
                    itoa (length rest) @ '' bytes long'')
          else Ok rest)"

text \<open>
  \<open>delAddrLen\<close> is a byte, and so is \<open>delAddrLen + 1\<close>: the sum wraps around at 256. The key is a
  slice with its spare capacity, because \<open>addresses[:n]\<close> may read past the visible bytes.
\<close>

definition SplitDelegationKey :: "slice \<Rightarrow> (string \<times> string) outcome" where
  "SplitDelegationKey key =
     (if length (vis key) < 3 \<or> length (vis key) > 1 + 1 + 255 + 1 + 255
      then Err (''malformed key: length '' @ itoa (length (vis key)) @ '' not in range'')
      else
        let addresses = Slice (drop 1 (vis key)) (spare key);
            delAddrLen = vis addresses ! 0
        in if length (vis addresses) < unat delAddrLen
           then Err (''delegator address should be '' @ itoa (unat delAddrLen) @
                     '' bytes long, but it only has '' @ itoa (length (vis addresses)))
           else
             let totalPrefixedFirstAddressSz = delAddrLen + 1
             in and_then (slice_to (unat totalPrefixedFirstAddressSz) addresses) (\<lambda>first.
                and_then (wrap_err ''cannot parse delegator address, '' (FromLengthPrefix (vis first)))
                  (\<lambda>delAddrBytes.
                and_then (slice_from (unat totalPrefixedFirstAddressSz) addresses) (\<lambda>second.
                and_then (wrap_err ''cannot parse validator address, '' (FromLengthPrefix (vis second)))
                  (\<lambda>valAddrBytes.
                Ok (hex_encode delAddrBytes, hex_encode valAddrBytes))))))"

section \<open>Keys of CW20 contract state\<close>

definition wasmContractStorePrefix :: bytes where
  "wasmContractStorePrefix = [3]"

definition wasmContractBalanceKey :: bytes where
  "wasmContractBalanceKey = [0, 7] @ bytes_of_string ''balance''"

definition wasmContractTokenInfoKey :: bytes where
  "wasmContractTokenInfoKey = bytes_of_string ''token_info''"

text \<open>The length guard puts every slice expression below in range.\<close>

definition SplitCW20BalanceKey ::
    "(string \<Rightarrow> (string \<times> bytes) outcome) \<Rightarrow> bytes \<Rightarrow> (string \<times> string) outcome" where
  "SplitCW20BalanceKey DecodeAndConvert key =
     (let minLen = 1 + 32 + 2 + 43; maxLen = minLen + 510
      in if length key < minLen \<or> length key > maxLen
         then Err (''malformed cw20 balance key: length '' @ itoa (length key) @
                   '' not in range '' @ itoa minLen @ ''-'' @ itoa maxLen)
         else if \<not> prefix wasmContractStorePrefix key
         then Err ''not a wasm contract store key''
         else if \<not> prefix wasmContractBalanceKey (drop 33 key)
         then Err ''not a cw20 balance key''
         else
           let contractAddr = hex_encode (take 32 (drop 1 key))
           in and_then
                (wrap_err ''decode holder address: ''
                   (DecodeAndConvert (string_of_bytes (drop 42 key))))
                (\<lambda>(_, bz). Ok (contractAddr, hex_encode bz)))"

definition SplitCW20TokenInfoKey :: "bytes \<Rightarrow> string outcome" where
  "SplitCW20TokenInfoKey key =
     (let expectedLen = 1 + 32 + 10
      in if length key \<noteq> expectedLen
         then Err (''malformed cw20 token_info key: length '' @ itoa (length key) @
                   '' not equal to '' @ itoa expectedLen)
         else if \<not> prefix wasmContractStorePrefix key
         then Err ''not a wasm contract store key''
         else if \<not> prefix wasmContractTokenInfoKey (drop 33 key)
         then Err ''not a cw20 token_info key''
         else Ok (hex_encode (take 32 (drop 1 key))))"

section \<open>Facts about the length prefix\<close>

lemma FromLengthPrefix_Ok [outcome_simps]:
  "FromLengthPrefix raw = Ok bs \<longleftrightarrow> (\<exists>l. raw = l # bs \<and> length bs = unat l)"
  by (auto simp: FromLengthPrefix_def split: list.splits)

lemma FromLengthPrefix_no_panic [outcome_simps]: "FromLengthPrefix raw \<noteq> Panic p"
  by (auto simp: FromLengthPrefix_def split: list.splits)

lemma FromLengthPrefix_encoded [simp]:
  "length bs < 256 \<Longrightarrow> FromLengthPrefix (of_nat (length bs) # bs) = Ok bs"
  by (simp add: FromLengthPrefix_def unat_of_nat_byte)

text \<open>The shape of a key on which the two address fields are well-formed.\<close>

definition delegation_key :: "byte \<Rightarrow> bytes \<Rightarrow> bytes \<Rightarrow> bytes" where
  "delegation_key p d v = p # of_nat (length d) # d @ of_nat (length v) # v"

lemma delegation_key_inj:
  assumes "length d < 256" "length d' < 256"
    and "delegation_key p d v = delegation_key p' d' v'"
  shows "p = p' \<and> d = d' \<and> v = v'"
proof -
  from assms(3) have p: "p = p'" and l: "(of_nat (length d) :: byte) = of_nat (length d')"
    and rest: "d @ of_nat (length v) # v = d' @ of_nat (length v') # v'"
    by (simp_all add: delegation_key_def)
  from l assms(1,2) have "length d = length d'"
    by (metis unat_of_nat_byte)
  with rest p show ?thesis by simp
qed

lemma key_three:
  assumes "3 \<le> length xs"
  obtains p b rest where "xs = p # b # rest" "rest \<noteq> []"
proof -
  from assms obtain p b c rest where "xs = p # b # c # rest"
    by (metis Suc_le_length_iff numeral_3_eq_3)
  then show ?thesis by (simp add: that)
qed

text \<open>One step of the case analysis: where the delegator field ends inside the visible bytes.\<close>

lemma SplitDelegationKey_step:
  assumes "3 \<le> length (vis key)" "length (vis key) \<le> 513"
    and l: "unat (vis key ! 1) = l" "l < 255" "l + 1 < length (vis key)"
  shows "SplitDelegationKey key =
    and_then (wrap_err ''cannot parse validator address, '' (FromLengthPrefix (drop (l + 2) (vis key))))
      (\<lambda>v. Ok (hex_encode (take l (drop 2 (vis key))), hex_encode v))"
proof -
  obtain p b rest where key: "vis key = p # b # rest" "rest \<noteq> []"
    by (rule key_three [OF assms(1)])
  have b: "unat b = l" using l(1) by (simp add: key)
  then have tot: "unat (b + 1) = Suc l"
    using l(2) by (simp add: unat_byte_Suc)
  have len: "l \<le> length rest" using l(3) by (simp add: key)
  have "FromLengthPrefix (b # take l rest) = Ok (take l rest)"
    using len b by (simp add: FromLengthPrefix_def)
  with assms(1,2) b tot len show ?thesis
    by (simp add: SplitDelegationKey_def key slice_to_def slice_from_def)
qed

lemma SplitDelegationKey_short:
  assumes "3 \<le> length (vis key)" "length (vis key) \<le> 513" "length (vis key) \<le> unat (vis key ! 1)"
  shows "is_err (SplitDelegationKey key)"
proof -
  obtain p b rest where key: "vis key = p # b # rest" "rest \<noteq> []"
    by (rule key_three [OF assms(1)])
  show ?thesis using assms by (simp add: SplitDelegationKey_def key)
qed

lemma SplitDelegationKey_range:
  "length (vis key) < 3 \<or> length (vis key) > 513 \<Longrightarrow> is_err (SplitDelegationKey key)"
  by (auto simp: SplitDelegationKey_def)

lemma SplitDelegationKey_not_err:
  assumes "\<not> is_err (SplitDelegationKey key)"
  shows "3 \<le> length (vis key)" "length (vis key) \<le> 513" "unat (vis key ! 1) < length (vis key)"
proof -
  show range: "3 \<le> length (vis key)" "length (vis key) \<le> 513"
    using assms SplitDelegationKey_range [of key] by linarith+
  show "unat (vis key ! 1) < length (vis key)"
    using assms range SplitDelegationKey_short [of key] by linarith
qed

lemma SplitDelegationKey_overrun:
  assumes "3 \<le> length (vis key)" "unat (vis key ! 1) < 255"
    and "length (vis key) = unat (vis key ! 1) + 1"
  shows "SplitDelegationKey key = Panic out_of_range"
proof -
  obtain p b rest where key: "vis key = p # b # rest" "rest \<noteq> []"
    by (rule key_three [OF assms(1)])
  define l where "l = unat b"
  have b: "unat b = l" "unat (b + 1) = Suc l"
    using assms(2) by (simp_all add: key l_def unat_byte_Suc)
  have len: "l = Suc (length rest)" using assms(3) by (simp add: key l_def)
  have bound: "length rest \<le> 510" using assms(2,3) by (simp add: key)
  show ?thesis
  proof (cases "spare key")
    case Nil
    then show ?thesis using b len bound assms(1)
      by (simp add: SplitDelegationKey_def key slice_to_def)
  next
    case (Cons x xs)
    then have "take l (rest @ spare key) = rest @ [x]" using len by simp
    moreover have "FromLengthPrefix (b # rest @ [x]) = Ok (rest @ [x])"
      using b len by (simp add: FromLengthPrefix_def)
    ultimately show ?thesis using b len bound assms(1) Cons
      by (simp add: SplitDelegationKey_def key slice_to_def slice_from_def)
  qed
qed

lemma SplitDelegationKey_wraps:
  assumes "256 \<le> length (vis key)" "length (vis key) \<le> 513" "vis key ! 1 = 255"
  shows "SplitDelegationKey key = Err ''cannot parse delegator address, data is nil''"
proof -
  have "3 \<le> length (vis key)" using assms(1) by simp
  then obtain p b rest where key: "vis key = p # b # rest" "rest \<noteq> []"
    by (rule key_three)
  have "b = 255" using assms(3) by (simp add: key)
  with assms(1,2) show ?thesis
    by (simp add: SplitDelegationKey_def key slice_to_def FromLengthPrefix_def)
qed

lemma SplitDelegationKey_Ok [outcome_simps]:
  "SplitDelegationKey key = Ok (da, va) \<longleftrightarrow>
   (\<exists>p d v. vis key = delegation_key p d v \<and> length d < 255 \<and> length v < 256 \<and>
            da = hex_encode d \<and> va = hex_encode v)"
proof
  assume ok: "SplitDelegationKey key = Ok (da, va)"
  then have "\<not> is_err (SplitDelegationKey key)" by simp
  note range = SplitDelegationKey_not_err [OF this]
  obtain p b rest where key: "vis key = p # b # rest" "rest \<noteq> []"
    by (rule key_three [OF range(1)])
  have "b \<noteq> 255"
  proof
    assume "b = 255"
    then show False using ok range SplitDelegationKey_short [of key] SplitDelegationKey_wraps [of key]
      by (cases "length (vis key) \<le> 255") (auto simp: key outcome_simps)
  qed
  then have b: "unat b < 255" using unat_byte_lt [of b] byte_255 [of b] by linarith
  have "length rest + 1 \<noteq> unat b"
    using ok range b SplitDelegationKey_overrun [of key] by (auto simp: key)
  then have "unat b \<le> length rest" using range(3) by (simp add: key)
  moreover from this have "SplitDelegationKey key =
      and_then (wrap_err ''cannot parse validator address, '' (FromLengthPrefix (drop (unat b) rest)))
        (\<lambda>v. Ok (hex_encode (take (unat b) rest), hex_encode v))"
    using range b by (subst SplitDelegationKey_step [where l = "unat b"]) (simp_all add: key)
  ultimately obtain l v where v: "drop (unat b) rest = l # v" "length v = unat l"
    and res: "da = hex_encode (take (unat b) rest)" "va = hex_encode v"
    using ok by (auto simp: outcome_simps)
  have "rest = take (unat b) rest @ l # v" using v(1) by (metis append_take_drop_id)
  then have "vis key = delegation_key p (take (unat b) rest) v"
    using \<open>unat b \<le> length rest\<close> v(2) by (simp add: key delegation_key_def min_absorb2)
  then show "\<exists>p d v. vis key = delegation_key p d v \<and> length d < 255 \<and> length v < 256 \<and>
            da = hex_encode d \<and> va = hex_encode v"
    using res b v(2) unat_byte_lt [of l] \<open>unat b \<le> length rest\<close> by (metis length_take min_absorb2)
next
  assume "\<exists>p d v. vis key = delegation_key p d v \<and> length d < 255 \<and> length v < 256 \<and>
            da = hex_encode d \<and> va = hex_encode v"
  then obtain p d v where key: "vis key = delegation_key p d v"
    and len: "length d < 255" "length v < 256" and res: "da = hex_encode d" "va = hex_encode v"
    by blast
  have d: "unat (of_nat (length d) :: byte) = length d"
    using len(1) by (simp add: unat_of_nat_byte)
  show "SplitDelegationKey key = Ok (da, va)"
    using len res d
    by (subst SplitDelegationKey_step [where l = "length d"]) (simp_all add: key delegation_key_def)
qed

section \<open>Facts about the CW20 keys\<close>

lemma length_balance_key [simp]: "length wasmContractBalanceKey = 9"
  by (simp add: wasmContractBalanceKey_def)

lemma length_token_info_key [simp]: "length wasmContractTokenInfoKey = 10"
  by (simp add: wasmContractTokenInfoKey_def)

text \<open>A key cut at the field boundaries: one byte, a 32-byte contract address, the rest.\<close>

lemma cw20_key_cut:
  assumes "33 \<le> length key"
  obtains x c rest where "key = x # c @ rest" "length c = 32"
proof -
  from assms obtain x k where k: "key = x # k" by (cases key) auto
  then have "key = x # take 32 k @ drop 32 k" by simp
  moreover have "length (take 32 k) = 32" using assms by (simp add: k)
  ultimately show ?thesis by (rule that)
qed

lemma SplitCW20BalanceKey_cut:
  assumes "length c = 32"
  shows "SplitCW20BalanceKey dec (x # c @ rest) = Ok (ca, ha) \<longleftrightarrow>
    x = 3 \<and> 45 \<le> length rest \<and> length rest \<le> 555 \<and> prefix wasmContractBalanceKey rest \<and>
    ca = hex_encode c \<and> (\<exists>hrp bz. dec (string_of_bytes (drop 9 rest)) = Ok (hrp, bz) \<and> ha = hex_encode bz)"
proof -
  have len: "length (x # c @ rest) = 33 + length rest" using assms by simp
  have pre: "prefix wasmContractStorePrefix (x # c @ rest) \<longleftrightarrow> x = 3"
    by (auto simp: wasmContractStorePrefix_def)
  have drops: "drop 33 (x # c @ rest) = rest" "drop 42 (x # c @ rest) = drop 9 rest"
    "take 32 (drop 1 (x # c @ rest)) = c"
    using assms by simp_all
  show ?thesis
    unfolding SplitCW20BalanceKey_def Let_def len pre drops
    by (auto simp: outcome_simps)
qed

lemma SplitCW20TokenInfoKey_cut:
  assumes "length c = 32"
  shows "SplitCW20TokenInfoKey (x # c @ rest) = Ok ca \<longleftrightarrow>
    x = 3 \<and> length rest = 10 \<and> prefix wasmContractTokenInfoKey rest \<and> ca = hex_encode c"
proof -
  have len: "length (x # c @ rest) = 33 + length rest" using assms by simp
  have pre: "prefix wasmContractStorePrefix (x # c @ rest) \<longleftrightarrow> x = 3"
    by (auto simp: wasmContractStorePrefix_def)
  have drops: "drop 33 (x # c @ rest) = rest" "take 32 (drop 1 (x # c @ rest)) = c"
    using assms by simp_all
  show ?thesis
    unfolding SplitCW20TokenInfoKey_def Let_def len pre drops by auto
qed

lemma SplitCW20BalanceKey_length:
  "SplitCW20BalanceKey dec key = Ok r \<Longrightarrow> 78 \<le> length key"
  by (rule ccontr) (simp add: SplitCW20BalanceKey_def)

lemma SplitCW20TokenInfoKey_length:
  "SplitCW20TokenInfoKey key = Ok r \<Longrightarrow> length key = 43"
  by (rule ccontr) (simp add: SplitCW20TokenInfoKey_def)

lemma SplitCW20BalanceKey_Ok:
  "SplitCW20BalanceKey dec key = Ok (ca, ha) \<longleftrightarrow>
   (\<exists>c holder hrp bz. key = [3] @ c @ wasmContractBalanceKey @ holder \<and> length c = 32 \<and>
      36 \<le> length holder \<and> length holder \<le> 546 \<and>
      dec (string_of_bytes holder) = Ok (hrp, bz) \<and> ca = hex_encode c \<and> ha = hex_encode bz)"
  (is "?l \<longleftrightarrow> ?r")
proof
  assume l: ?l
  then have "33 \<le> length key" by (auto dest: SplitCW20BalanceKey_length)
  then obtain x c rest where key: "key = x # c @ rest" "length c = 32" by (rule cw20_key_cut)
  from l obtain holder where rest: "rest = wasmContractBalanceKey @ holder"
    unfolding key(1) SplitCW20BalanceKey_cut [OF key(2)] by (auto simp: prefix_def)
  from l obtain hrp bz where "x = 3" "36 \<le> length holder" "length holder \<le> 546"
    "ca = hex_encode c" "dec (string_of_bytes holder) = Ok (hrp, bz)" "ha = hex_encode bz"
    unfolding key(1) SplitCW20BalanceKey_cut [OF key(2)] rest by auto
  then show ?r
    by (intro exI [of _ c] exI [of _ holder] exI [of _ hrp] exI [of _ bz]) (simp add: key rest)
next
  assume ?r
  then obtain c holder hrp bz where key: "key = 3 # c @ wasmContractBalanceKey @ holder" "length c = 32"
    and rest: "36 \<le> length holder" "length holder \<le> 546"
      "dec (string_of_bytes holder) = Ok (hrp, bz)" "ca = hex_encode c" "ha = hex_encode bz"
    by auto
  show ?l
    unfolding key(1) SplitCW20BalanceKey_cut [OF key(2)] using rest by simp
qed

lemma SplitCW20TokenInfoKey_Ok:
  "SplitCW20TokenInfoKey key = Ok ca \<longleftrightarrow>
   (\<exists>c. key = [3] @ c @ wasmContractTokenInfoKey \<and> length c = 32 \<and> ca = hex_encode c)"
  (is "?l \<longleftrightarrow> ?r")
proof
  assume l: ?l
  then have "33 \<le> length key" by (auto dest: SplitCW20TokenInfoKey_length)
  then obtain x c rest where key: "key = x # c @ rest" "length c = 32" by (rule cw20_key_cut)
  from l have "rest = wasmContractTokenInfoKey"
    unfolding key(1) SplitCW20TokenInfoKey_cut [OF key(2)] by (auto simp: prefix_def)
  with l show ?r
    unfolding key(1) SplitCW20TokenInfoKey_cut [OF key(2)] by (simp add: key(2))
next
  assume ?r
  then obtain c where key: "key = 3 # c @ wasmContractTokenInfoKey" "length c = 32"
    and ca: "ca = hex_encode c"
    by auto
  show ?l unfolding key(1) SplitCW20TokenInfoKey_cut [OF key(2)] using ca by simp
qed

lemma SplitDelegationKey_Panic:
  "is_panic (SplitDelegationKey key) \<longleftrightarrow>
   3 \<le> length (vis key) \<and> unat (vis key ! 1) < 255 \<and> length (vis key) = unat (vis key ! 1) + 1"
  (is "?l \<longleftrightarrow> ?r")
proof
  assume l: ?l
  then have "\<not> is_err (SplitDelegationKey key)" by (auto simp: outcome_simps)
  note range = SplitDelegationKey_not_err [OF this]
  have "vis key ! 1 \<noteq> 255"
    using l range SplitDelegationKey_wraps [of key] by (auto simp: outcome_simps)
  then have b: "unat (vis key ! 1) < 255"
    using unat_byte_lt [of "vis key ! 1"] byte_255 [of "vis key ! 1"] by linarith
  have "\<not> unat (vis key ! 1) + 1 < length (vis key)"
    using l range b SplitDelegationKey_step [of key "unat (vis key ! 1)"]
    by (auto simp: outcome_simps)
  with range b show ?r by simp
next
  assume ?r
  then show ?l by (simp add: SplitDelegationKey_overrun outcome_simps)
qed

section \<open>Properties\<close>

text \<open>C14. \<open>SplitDelegationKey\<close> accepts exactly the keys made of a prefix byte, a delegator address of at
  most 254 bytes behind its length and a validator address of at most 255 bytes behind its length,
  and returns the two addresses in hexadecimal, whatever the spare capacity of the slice holds.\<close>

theorem SplitDelegationKey_accepts_iff:
  "SplitDelegationKey key = Ok (da, va) \<longleftrightarrow>
   (\<exists>p d v. vis key = delegation_key p d v \<and> length d < 255 \<and> length v < 256 \<and>
            da = hex_encode d \<and> va = hex_encode v)"
  by (rule SplitDelegationKey_Ok)

text \<open>C15. Two accepted keys that split into the same pair of addresses agree in everything but their first byte,
  which is the prefix of the store: a delete trace can hit only the delegation it names.\<close>

theorem SplitDelegationKey_injective:
  assumes "SplitDelegationKey k = Ok r" "SplitDelegationKey k' = Ok r"
  shows "drop 1 (vis k) = drop 1 (vis k')"
proof -
  obtain da va where r: "r = (da, va)" by (cases r)
  from assms(1) obtain p d v where 1: "vis k = delegation_key p d v"
      "da = hex_encode d" "va = hex_encode v"
    unfolding r SplitDelegationKey_Ok by blast
  from assms(2) obtain p' d' v' where 2: "vis k' = delegation_key p' d' v'"
      "da = hex_encode d'" "va = hex_encode v'"
    unfolding r SplitDelegationKey_Ok by blast
  from 1 2 show ?thesis by (simp add: delegation_key_def)
qed

theorem SplitDelegationKey_injective_witness:
  "drop 1 (vis (Slice [0x31, 1, 7, 1, 9] [])) = drop 1 (vis (Slice [0x32, 1, 7, 1, 9] [4]))"
  by (rule SplitDelegationKey_injective [where r = "(hex_encode [7], hex_encode [9])"])
    (simp_all add: SplitDelegationKey_def slice_to_def slice_from_def FromLengthPrefix_def)

text \<open>C16. The slice expressions of \<open>SplitDelegationKey\<close> panic exactly on the keys whose delegator
  length is the number of bytes that follow the length byte plus one, which the length check lets
  through: one missing byte crashes the program, whatever the capacity of the slice.\<close>

theorem SplitDelegationKey_panics_iff:
  "is_panic (SplitDelegationKey key) \<longleftrightarrow>
   3 \<le> length (vis key) \<and> unat (vis key ! 1) < 255 \<and> length (vis key) = unat (vis key ! 1) + 1"
  by (rule SplitDelegationKey_Panic)

text \<open>C17. A delegator address of 255 bytes, the longest the key format allows, is always refused: the
  byte sum of its length and the prefix wraps around to zero.\<close>

theorem SplitDelegationKey_rejects_255:
  assumes "length d = 255" "length v < 256"
  shows "SplitDelegationKey (Slice (delegation_key p d v) cap) =
         Err ''cannot parse delegator address, data is nil''"
proof (rule SplitDelegationKey_wraps)
  show "vis (Slice (delegation_key p d v) cap) ! 1 = 255"
    using assms(1) by (simp add: delegation_key_def)
qed (use assms in \<open>simp_all add: delegation_key_def\<close>)

theorem SplitDelegationKey_rejects_255_witness:
  "SplitDelegationKey (Slice (delegation_key 0x31 (replicate 255 1) (replicate 20 2)) []) =
   Err ''cannot parse delegator address, data is nil''"
  by (rule SplitDelegationKey_rejects_255) simp_all

text \<open>C18. \<open>SplitCW20BalanceKey\<close> accepts exactly the contract-store keys made of the store prefix, a
  32-byte contract address, the length-prefixed word \<open>balance\<close> and a holder address of 36 to 546
  characters that the bech32 decoder accepts, and returns both addresses in hexadecimal.\<close>

theorem SplitCW20BalanceKey_accepts_iff:
  "SplitCW20BalanceKey dec key = Ok (ca, ha) \<longleftrightarrow>
   (\<exists>c holder hrp bz. key = [3] @ c @ wasmContractBalanceKey @ holder \<and> length c = 32 \<and>
      36 \<le> length holder \<and> length holder \<le> 546 \<and>
      dec (string_of_bytes holder) = Ok (hrp, bz) \<and> ca = hex_encode c \<and> ha = hex_encode bz)"
  by (rule SplitCW20BalanceKey_Ok)

text \<open>\<open>SplitCW20TokenInfoKey\<close> accepts exactly the store prefix, a 32-byte contract address and
  the word \<open>token_info\<close>, and no key is accepted by both CW20 parsers: a CW20 trace reaches one
  processor.\<close>

theorem SplitCW20TokenInfoKey_accepts_iff:
  "(SplitCW20TokenInfoKey key = Ok ca \<longleftrightarrow>
     (\<exists>c. key = [3] @ c @ wasmContractTokenInfoKey \<and> length c = 32 \<and> ca = hex_encode c)) \<and>
   \<not> (is_ok (SplitCW20TokenInfoKey key) \<and> is_ok (SplitCW20BalanceKey dec key))"
proof
  show "\<not> (is_ok (SplitCW20TokenInfoKey key) \<and> is_ok (SplitCW20BalanceKey dec key))"
    by (auto simp: is_ok_iff dest!: SplitCW20TokenInfoKey_length SplitCW20BalanceKey_length)
qed (rule SplitCW20TokenInfoKey_Ok)

end
