(* ===== verification/Sdk.thy ===== *)
theory Sdk
  imports Keys Models Trace
begin

text \<open>
  What the data marshaler takes from the Cosmos SDK and IBC packages: the values they decode, with
  the fields the program reads, and the functions it calls, as the fields of a record that is an
  argument of every definition using them. Numbers of the SDK that are only printed (\<open>Int\<close>, \<open>Dec\<close>,
  \<open>time.Time\<close>) are given by their text. The interface \<open>Handler\<close> of \<open>datamarshaler.go\<close> is the record
  of its methods together with the store keys of the SDK version it is built for.
\<close>

section \<open>Decoded values\<close>

record coin =
  coin_Denom :: string
  coin_Amount :: int

record base_account =
  acc_Address :: string
  acc_PubKeyAddress :: "bytes option"
  acc_Sequence :: u64
  acc_AccountNumber :: u64

text \<open>What a value of an account interface holds; another type is given by its \<open>%T\<close> text.\<close>

datatype account = ModuleAccount | BaseAccount base_account | OtherAccount string

record delegation =
  dlg_DelegatorAddress :: string
  dlg_ValidatorAddress :: string
  dlg_Shares :: string

record channel =
  ch_State :: "32 word"
  ch_Ordering :: "32 word"
  ch_CounterpartyChannelId :: string
  ch_ConnectionHops :: "string list"

record tm_client =
  tm_ChainId :: string
  tm_RevisionHeight :: u64
  tm_TrustingPeriod :: "64 word"

datatype client_state = TendermintClient tm_client | OtherClient

record connection_end =
  ce_ClientId :: string
  ce_State :: "32 word"
  ce_CounterpartyClientId :: string
  ce_CounterpartyConnectionId :: string

record denom_trace =
  dt_Path :: string
  dt_BaseDenom :: string

text \<open>The completion time is its JSON text, absent when the year is out of the range JSON allows.\<close>

record sdk_ubd_entry =
  se_CreationHeight :: "64 word"
  se_CompletionTime :: "string option"
  se_InitialBalance :: string
  se_Balance :: string

record unbonding_delegation =
  ud_DelegatorAddress :: string
  ud_ValidatorAddress :: string
  ud_Entries :: "sdk_ubd_entry list"

text \<open>The consensus key is a pointer to a type URL and a value.\<close>

record sdk_validator =
  sv_OperatorAddress :: string
  sv_ConsensusPubkey :: "(string \<times> bytes) option"
  sv_Jailed :: bool
  sv_Status :: "32 word"
  sv_Tokens :: string
  sv_DelegatorShares :: string
  sv_Moniker :: string
  sv_Identity :: string
  sv_Website :: string
  sv_SecurityContact :: string
  sv_Details :: string
  sv_UnbondingHeight :: "64 word"
  sv_UnbondingTime :: string
  sv_Rate :: string
  sv_MaxRate :: string
  sv_MaxChangeRate :: string
  sv_UpdateTime :: string
  sv_MinSelfDelegation :: string

section \<open>The packages\<close>

record sdk_keys =
  BankKey :: bytes
  AuthKey :: bytes
  DelegationKey :: bytes
  IBCChannelKey :: string
  IBCClientsKey :: string
  IBCConnectionsKey :: string
  IBCDenomTracesKey :: bytes
  UnbondingDelegationKey :: bytes
  UnbondingDelegationByValidatorKey :: bytes
  ValidatorsKey :: bytes

record sdk =
  keys :: sdk_keys
  MaxAddrLen :: nat
  AddrLen :: nat
  CoinIsValid :: "coin \<Rightarrow> bool"
  DecodeAndConvert :: "string \<Rightarrow> (string \<times> bytes) outcome"
  AddressFromBalancesStore :: "bytes \<Rightarrow> bytes outcome"
  UnmarshalCoin :: "bytes \<Rightarrow> coin \<Rightarrow> coin outcome"
  CoinValidate :: "coin \<Rightarrow> unit outcome"
  CoinString :: "coin \<Rightarrow> string"
  UnmarshalAccount :: "bytes \<Rightarrow> account outcome"
  UnmarshalDelegation :: "bytes \<Rightarrow> delegation outcome"
  UnmarshalChannel :: "bytes \<Rightarrow> channel outcome"
  ChannelValidateBasic :: "channel \<Rightarrow> unit outcome"
  UNORDERED :: "32 word"
  ParseChannelPath :: "string \<Rightarrow> (string \<times> string) outcome"
  UnmarshalClientState :: "bytes \<Rightarrow> client_state outcome"
  ClientValidate :: "tm_client \<Rightarrow> unit outcome"
  UnmarshalConnectionEnd :: "bytes \<Rightarrow> connection_end outcome"
  ConnectionValidateBasic :: "connection_end \<Rightarrow> unit outcome"
  ConnectionStateString :: "32 word \<Rightarrow> string"
  UnmarshalDenomTrace :: "bytes \<Rightarrow> denom_trace outcome"
  DenomTraceValidate :: "denom_trace \<Rightarrow> unit outcome"
  DenomTraceHash :: "denom_trace \<Rightarrow> bytes"
  UnmarshalUnbondingDelegation :: "bytes \<Rightarrow> unbonding_delegation outcome"
  GetUBDKeyFromValIndexKey :: "bytes \<Rightarrow> slice outcome"
  UnmarshalValidator :: "bytes \<Rightarrow> sdk_validator outcome"

section \<open>Rows\<close>

text \<open>A row of the given height with its own fields; height zero and empty fields make the zero row.\<close>

definition BalanceRow_at :: "u64 \<Rightarrow> string \<Rightarrow> string \<Rightarrow> string \<Rightarrow> BalanceRow" where
  "BalanceRow_at h a m d = \<lparr>ChainName = [], RowID = 0, Height = h, DeleteHeight = None,
     bal_Address = a, bal_Amount = m, bal_Denom = d\<rparr>"

definition AuthRow_at :: "u64 \<Rightarrow> string \<Rightarrow> u64 \<Rightarrow> u64 \<Rightarrow> AuthRow" where
  "AuthRow_at h a s n = \<lparr>ChainName = [], RowID = 0, Height = h, DeleteHeight = None,
     auth_Address = a, auth_SequenceNumber = s, auth_AccountNumber = n\<rparr>"

definition DelegationRow_at :: "u64 \<Rightarrow> string \<Rightarrow> string \<Rightarrow> string \<Rightarrow> DelegationRow" where
  "DelegationRow_at h d v m = \<lparr>ChainName = [], RowID = 0, Height = h, DeleteHeight = None,
     del_Delegator = d, del_Validator = v, del_Amount = m\<rparr>"

definition IBCChannelRow_at ::
    "u64 \<Rightarrow> string \<Rightarrow> string \<Rightarrow> string list \<Rightarrow> string \<Rightarrow> 32 word \<Rightarrow> IBCChannelRow" where
  "IBCChannelRow_at h c cc hops p st = \<lparr>ChainName = [], RowID = 0, Height = h, DeleteHeight = None,
     chn_ChannelID = c, chn_CounterChannelID = cc, chn_Hops = hops, chn_Port = p, chn_State = st\<rparr>"

definition IBCClientStateRow_at ::
    "u64 \<Rightarrow> string \<Rightarrow> string \<Rightarrow> u64 \<Rightarrow> 64 word \<Rightarrow> IBCClientStateRow" where
  "IBCClientStateRow_at h ch cl lh tp = \<lparr>ChainName = [], RowID = 0, Height = h, DeleteHeight = None,
     cli_ChainID = ch, cli_ClientID = cl, cli_LatestHeight = lh, cli_TrustingPeriod = tp\<rparr>"

definition IBCConnectionRow_at ::
    "u64 \<Rightarrow> string \<Rightarrow> string \<Rightarrow> string \<Rightarrow> string \<Rightarrow> string \<Rightarrow> IBCConnectionRow" where
  "IBCConnectionRow_at h c cl st cc ccl = \<lparr>ChainName = [], RowID = 0, Height = h, DeleteHeight = None,
     con_ConnectionID = c, con_ClientID = cl, con_State = st, con_CounterConnectionID = cc,
     con_CounterClientID = ccl\<rparr>"

definition IBCDenomTraceRow_at :: "u64 \<Rightarrow> string \<Rightarrow> string \<Rightarrow> string \<Rightarrow> IBCDenomTraceRow" where
  "IBCDenomTraceRow_at h p b x = \<lparr>ChainName = [], RowID = 0, Height = h, DeleteHeight = None,
     dnt_Path = p, dnt_BaseDenom = b, dnt_Hash = x\<rparr>"

definition UnbondingDelegationRow_at ::
    "u64 \<Rightarrow> string \<Rightarrow> string \<Rightarrow> unbonding_entry list \<Rightarrow> UnbondingDelegationRow" where
  "UnbondingDelegationRow_at h d v es = \<lparr>ChainName = [], RowID = 0, Height = h, DeleteHeight = None,
     ubd_Delegator = d, ubd_Validator = v, ubd_Entries = es\<rparr>"

definition zero_ValidatorRow :: ValidatorRow where
  "zero_ValidatorRow = \<lparr>ChainName = [], RowID = 0, Height = 0, DeleteHeight = None,
     val_ValidatorAddress = [], val_OperatorAddress = [], val_ConsensusPubKeyType = [],
     val_ConsensusPubKeyValue = [], val_Jailed = False, val_Status = 0, val_Tokens = [],
     val_DelegatorShares = [], val_Moniker = [], val_Identity = [], val_Website = [],
     val_SecurityContact = [], val_Details = [], val_UnbondingHeight = 0, val_UnbondingTime = [],
     val_CommissionRate = [], val_MaxRate = [], val_MaxChangeRate = [], val_UpdateTime = [],
     val_MinSelfDelegation = []\<rparr>"

lemmas row_at_defs = BalanceRow_at_def AuthRow_at_def DelegationRow_at_def IBCChannelRow_at_def
  IBCClientStateRow_at_def IBCConnectionRow_at_def IBCDenomTraceRow_at_def UnbondingDelegationRow_at_def

section \<open>The interface Handler\<close>

record Handler =
  h_keys :: sdk_keys
  h_UnbondingDelegationKeys :: "bytes list"
  h_DecodeAndConvert :: "string \<Rightarrow> (string \<times> bytes) outcome"
  h_Bank :: "TraceOperation \<Rightarrow> BalanceRow outcome"
  h_Auth :: "TraceOperation \<Rightarrow> AuthRow outcome"
  h_Delegations :: "TraceOperation \<Rightarrow> DelegationRow outcome"
  h_IBCChannels :: "TraceOperation \<Rightarrow> IBCChannelRow outcome"
  h_IBCClients :: "TraceOperation \<Rightarrow> IBCClientStateRow outcome"
  h_IBCConnections :: "TraceOperation \<Rightarrow> IBCConnectionRow outcome"
  h_IBCDenomTraces :: "TraceOperation \<Rightarrow> IBCDenomTraceRow outcome"
  h_UnbondingDelegations :: "TraceOperation \<Rightarrow> UnbondingDelegationRow outcome"
  h_Validators :: "TraceOperation \<Rightarrow> ValidatorRow outcome"

definition b32Hex :: "(string \<Rightarrow> (string \<times> bytes) outcome) \<Rightarrow> string \<Rightarrow> string outcome" where
  "b32Hex decode s = and_then (decode s) (\<lambda>(_, b). Ok (hex_encode b))"

section \<open>Unbonding entries through JSON\<close>

text \<open>The entries are marshalled to JSON and read back into the entries of the row: the names and
  the texts of the fields agree, and only the completion time can fail.\<close>

definition convert_entry :: "sdk_ubd_entry \<Rightarrow> unbonding_entry outcome" where
  "convert_entry e =
     (case se_CompletionTime e of
        None \<Rightarrow> Err ''cannot convert unbonding delegation entries to string''
      | Some t \<Rightarrow> Ok \<lparr>ube_Balance = se_Balance e, ube_InitialBalance = se_InitialBalance e,
                    ube_CreationHeight = se_CreationHeight e, ube_CompletionTime = t\<rparr>)"

fun convert_entries :: "sdk_ubd_entry list \<Rightarrow> unbonding_entry list outcome" where
  "convert_entries [] = Ok []"
| "convert_entries (e # es) =
     and_then (convert_entry e) (\<lambda>x. and_then (convert_entries es) (\<lambda>xs. Ok (x # xs)))"

end
