(* ===== verification/Write_Modules.thy ===== *)
theory Write_Modules
  imports Cache Gen_Tables Sdk
begin

text \<open>
  The eight processor modules with one cache (\<open>processor/auth.go\<close>, \<open>bank.go\<close>, \<open>cw20_balance.go\<close>,
  \<open>cw20_token_info.go\<close>, \<open>ibc_channels.go\<close>, \<open>ibc_clients.go\<close>, \<open>ibc_connections.go\<close>,
  \<open>ibc_denom_traces.go\<close>). A module's struct is a record without its logger and its mutex; its methods
  run under the mutex, one at a time. \<open>h\<close> is the data marshaler of the SDK version built for, \<open>scan\<close>
  the JSON scanner. A method that panics is an outcome.
\<close>

section \<open>Names of SDK modules\<close>

type_synonym SDKModuleName = string

definition Bank :: SDKModuleName where "Bank = ''bank''"
definition IBC :: SDKModuleName where "IBC = ''ibc''"
definition Staking :: SDKModuleName where "Staking = ''staking''"
definition Distribution :: SDKModuleName where "Distribution = ''distribution''"
definition Transfer :: SDKModuleName where "Transfer = ''transfer''"
definition Acc :: SDKModuleName where "Acc = ''acc''"
definition CW20 :: SDKModuleName where "CW20 = ''cw20''"

definition SupportedSDKModuleList :: "SDKModuleName list" where
  "SupportedSDKModuleList = [Bank, IBC, Staking, Distribution, Transfer, Acc, CW20]"

text \<open>\<open>bytes.HasPrefix(key, p)\<close> is \<^const>\<open>prefix\<close>, \<open>bytes.Contains(key, p)\<close> is \<^const>\<open>sublist\<close>.\<close>

section \<open>Accounts\<close>

definition authTable :: table_code where
  "authTable = AuthTable ''tracelistener.auth''"

type_synonym authCacheEntry = "string \<times> u64"

record authProcessor =
  ap_heightCache :: "(authCacheEntry, AuthRow) gomap"

definition auth_Migrations :: "string list" where
  "auth_Migrations = [gt_CreateTable authTable]"

definition auth_ModuleName :: string where "auth_ModuleName = ''auth''"
definition auth_SDKModuleName :: SDKModuleName where "auth_SDKModuleName = Acc"
definition auth_UpsertStatement :: string where "auth_UpsertStatement = gt_Upsert authTable"
definition auth_InsertStatement :: string where "auth_InsertStatement = gt_Insert authTable"
definition auth_DeleteStatement :: "string outcome" where
  "auth_DeleteStatement = Panic ''auth processor never deletes''"

definition auth_FlushCache :: "orders \<Rightarrow> authProcessor \<Rightarrow> WritebackOp list \<times> authProcessor" where
  "auth_FlushCache ord b =
     (if length (ap_heightCache b) = 0 then ([], b)
      else let l = map (\<lambda>(_, v). EAuth v) (ranged (ord 0) (ap_heightCache b))
           in ([write_op l], b\<lparr>ap_heightCache := []\<rparr>))"

definition auth_OwnsKey :: "Handler \<Rightarrow> bytes \<Rightarrow> bool" where
  "auth_OwnsKey h key = prefix (AuthKey (h_keys h)) key"

definition auth_Process :: "Handler \<Rightarrow> authProcessor \<Rightarrow> TraceOperation \<Rightarrow> authProcessor outcome" where
  "auth_Process h b data =
     and_then (h_Auth h data) (\<lambda>res.
       Ok (b\<lparr>ap_heightCache := gomap_set (auth_Address res, auth_AccountNumber res) res (ap_heightCache b)\<rparr>))"

section \<open>Balances\<close>

definition balancesTable :: table_code where
  "balancesTable = BalancesTable ''tracelistener.balances''"

type_synonym bankCacheEntry = "string \<times> string"

record bankProcessor =
  bp_heightCache :: "(bankCacheEntry, BalanceRow) gomap"

definition bank_Migrations :: "string list" where
  "bank_Migrations = [gt_CreateTable balancesTable]"

definition bank_ModuleName :: string where "bank_ModuleName = ''bank''"
definition bank_SDKModuleName :: SDKModuleName where "bank_SDKModuleName = Bank"
definition bank_UpsertStatement :: string where "bank_UpsertStatement = gt_Upsert balancesTable"
definition bank_InsertStatement :: string where "bank_InsertStatement = gt_Insert balancesTable"
definition bank_DeleteStatement :: "string outcome" where
  "bank_DeleteStatement = Panic ''bank processor never deletes''"

definition bank_FlushCache :: "orders \<Rightarrow> bankProcessor \<Rightarrow> WritebackOp list \<times> bankProcessor" where
  "bank_FlushCache ord b =
     (if length (bp_heightCache b) = 0 then ([], b)
      else let l = map (\<lambda>(_, v). EBalance v) (ranged (ord 0) (bp_heightCache b))
           in ([write_op l], b\<lparr>bp_heightCache := []\<rparr>))"

definition bank_OwnsKey :: "Handler \<Rightarrow> bytes \<Rightarrow> bool" where
  "bank_OwnsKey h key = prefix (BankKey (h_keys h)) key"

definition bank_Process :: "Handler \<Rightarrow> bankProcessor \<Rightarrow> TraceOperation \<Rightarrow> bankProcessor outcome" where
  "bank_Process h b data =
     and_then (h_Bank h data) (\<lambda>res.
       Ok (b\<lparr>bp_heightCache := gomap_set (bal_Address res, bal_Denom res) res (bp_heightCache b)\<rparr>))"

section \<open>CW20 balances\<close>

definition cw20BalanceTable :: table_code where
  "cw20BalanceTable = Cw20BalancesTable ''tracelistener.cw20_balances''"

type_synonym cw20BalanceCacheEntry = "string \<times> string"

record cw20BalanceProcessor =
  cbp_heightCache :: "(cw20BalanceCacheEntry, CW20BalanceRow) gomap"

definition cw20_balances_Migrations :: "string list" where
  "cw20_balances_Migrations = [gt_CreateTable cw20BalanceTable]"

definition cw20_balances_ModuleName :: string where "cw20_balances_ModuleName = ''cw20_balances''"
definition cw20_balances_SDKModuleName :: SDKModuleName where "cw20_balances_SDKModuleName = CW20"
definition cw20_balances_UpsertStatement :: string where "cw20_balances_UpsertStatement = gt_Upsert cw20BalanceTable"
definition cw20_balances_InsertStatement :: string where "cw20_balances_InsertStatement = gt_Insert cw20BalanceTable"
definition cw20_balances_DeleteStatement :: "string outcome" where
  "cw20_balances_DeleteStatement = Ok (gt_Delete cw20BalanceTable)"

definition cw20_balances_FlushCache :: "orders \<Rightarrow> cw20BalanceProcessor \<Rightarrow> WritebackOp list \<times> cw20BalanceProcessor" where
  "cw20_balances_FlushCache ord b =
     (if length (cbp_heightCache b) = 0 then ([], b)
      else let l = map (\<lambda>(_, v). ECW20Balance v) (ranged (ord 0) (cbp_heightCache b))
           in ([write_op l], b\<lparr>cbp_heightCache := []\<rparr>))"

definition cw20_balances_OwnsKey :: "Handler \<Rightarrow> bytes \<Rightarrow> bool" where
  "cw20_balances_OwnsKey h key = is_ok (SplitCW20BalanceKey (h_DecodeAndConvert h) key)"

definition cw20_balances_row :: "Handler \<Rightarrow> TraceOperation \<Rightarrow> CW20BalanceRow outcome" where
  "cw20_balances_row h data =
     and_then (SplitCW20BalanceKey (h_DecodeAndConvert h) (vis (top_Key data))) (\<lambda>(contractAddr, holderAddr).
       Ok \<lparr>ChainName = [], RowID = 0, Height = top_BlockHeight data, DeleteHeight = None,
          cwb_ContractAddress = contractAddr, cwb_Address = holderAddr,
          cwb_Amount = string_of_bytes (top_Value data)\<rparr>)"

definition cw20_balances_Process ::
    "Handler \<Rightarrow> cw20BalanceProcessor \<Rightarrow> TraceOperation \<Rightarrow> cw20BalanceProcessor outcome" where
  "cw20_balances_Process h b data =
     and_then (cw20_balances_row h data) (\<lambda>val.
       let key = (cwb_Address val, cwb_ContractAddress val)
       in Ok (b\<lparr>cbp_heightCache := gomap_set key val (cbp_heightCache b)\<rparr>))"

section \<open>CW20 token infos\<close>

definition cw20TokenInfoTable :: table_code where
  "cw20TokenInfoTable = Cw20TokenInfoTable ''tracelistener.cw20_token_infos''"

type_synonym cw20TokenInfoCacheEntry = string

record cw20TokenInfoProcessor =
  ctp_heightCache :: "(cw20TokenInfoCacheEntry, CW20TokenInfoRow) gomap"

definition cw20_token_infos_Migrations :: "string list" where
  "cw20_token_infos_Migrations = [gt_CreateTable cw20TokenInfoTable]"

definition cw20_token_infos_ModuleName :: string where "cw20_token_infos_ModuleName = ''cw20_token_infos''"
definition cw20_token_infos_SDKModuleName :: SDKModuleName where "cw20_token_infos_SDKModuleName = CW20"
definition cw20_token_infos_UpsertStatement :: string where "cw20_token_infos_UpsertStatement = gt_Upsert cw20TokenInfoTable"
definition cw20_token_infos_InsertStatement :: string where "cw20_token_infos_InsertStatement = gt_Insert cw20TokenInfoTable"
definition cw20_token_infos_DeleteStatement :: "string outcome" where
  "cw20_token_infos_DeleteStatement = Ok (gt_Delete cw20TokenInfoTable)"

definition cw20_token_infos_FlushCache :: "orders \<Rightarrow> cw20TokenInfoProcessor \<Rightarrow> WritebackOp list \<times> cw20TokenInfoProcessor" where
  "cw20_token_infos_FlushCache ord b =
     (if length (ctp_heightCache b) = 0 then ([], b)
      else let l = map (\<lambda>(_, v). ECW20TokenInfo v) (ranged (ord 0) (ctp_heightCache b))
           in ([write_op l], b\<lparr>ctp_heightCache := []\<rparr>))"

definition cw20_token_infos_OwnsKey :: "bytes \<Rightarrow> bool" where
  "cw20_token_infos_OwnsKey key = is_ok (SplitCW20TokenInfoKey key)"

text \<open>The fields of the row that JSON can reach, by their \<open>json\<close> tags; the fields of the embedded
  struct are promoted. The value is stored over the row, so its keys may set any of them.\<close>

definition token_info_set_field :: "string \<Rightarrow> json \<Rightarrow> CW20TokenInfoRow \<Rightarrow> CW20TokenInfoRow outcome" where
  "token_info_set_field k v r =
     (if k = ''chain_name'' then and_then (store_string v (ChainName r)) (\<lambda>x. Ok (r\<lparr>ChainName := x\<rparr>))
      else if k = ''block_height'' then and_then (store_uint64 v (Height r)) (\<lambda>x. Ok (r\<lparr>Height := x\<rparr>))
      else if k = ''contract_address''
        then and_then (store_string v (cwt_ContractAddress r)) (\<lambda>x. Ok (r\<lparr>cwt_ContractAddress := x\<rparr>))
      else if k = ''name'' then and_then (store_string v (cwt_Name r)) (\<lambda>x. Ok (r\<lparr>cwt_Name := x\<rparr>))
      else if k = ''symbol'' then and_then (store_string v (cwt_Symbol r)) (\<lambda>x. Ok (r\<lparr>cwt_Symbol := x\<rparr>))
      else if k = ''decimals'' then and_then (store_int64 v (cwt_Decimals r)) (\<lambda>x. Ok (r\<lparr>cwt_Decimals := x\<rparr>))
      else if k = ''total_supply''
        then and_then (store_string v (cwt_TotalSupply r)) (\<lambda>x. Ok (r\<lparr>cwt_TotalSupply := x\<rparr>))
      else Ok r)"

definition cw20_token_infos_row ::
    "(bytes \<Rightarrow> json outcome) \<Rightarrow> TraceOperation \<Rightarrow> CW20TokenInfoRow outcome" where
  "cw20_token_infos_row scan data =
     and_then (SplitCW20TokenInfoKey (vis (top_Key data))) (\<lambda>contractAddr.
       let val = \<lparr>ChainName = [], RowID = 0, Height = top_BlockHeight data, DeleteHeight = None,
                  cwt_ContractAddress = contractAddr, cwt_Name = [], cwt_Symbol = [],
                  cwt_Decimals = 0, cwt_TotalSupply = []\<rparr>
       in wrap_err ''unmarshal cw20 token_info value: ''
            (and_then (scan (top_Value data)) (\<lambda>v. store_struct token_info_set_field v val)))"

text \<open>The cache key is the address in the store key, the row's address the one left by the value.\<close>

definition cw20_token_infos_key :: "TraceOperation \<Rightarrow> cw20TokenInfoCacheEntry" where
  "cw20_token_infos_key data =
     (case SplitCW20TokenInfoKey (vis (top_Key data)) of Ok contractAddr \<Rightarrow> contractAddr | _ \<Rightarrow> [])"

definition cw20_token_infos_Process ::
    "(bytes \<Rightarrow> json outcome) \<Rightarrow> cw20TokenInfoProcessor \<Rightarrow> TraceOperation \<Rightarrow> cw20TokenInfoProcessor outcome" where
  "cw20_token_infos_Process scan b data =
     and_then (cw20_token_infos_row scan data) (\<lambda>val.
       Ok (b\<lparr>ctp_heightCache := gomap_set (cw20_token_infos_key data) val (ctp_heightCache b)\<rparr>))"

section \<open>IBC channels\<close>

definition channelsTable :: table_code where
  "channelsTable = ChannelsTable ''tracelistener.channels''"

type_synonym channelCacheEntry = "string \<times> string"

record ibcChannelsProcessor =
  chp_channelsCache :: "(channelCacheEntry, IBCChannelRow) gomap"

definition ibc_channels_Migrations :: "string list" where
  "ibc_channels_Migrations = [gt_CreateTable channelsTable]"

definition ibc_channels_ModuleName :: string where "ibc_channels_ModuleName = ''ibc_channels''"
definition ibc_channels_SDKModuleName :: SDKModuleName where "ibc_channels_SDKModuleName = IBC"
definition ibc_channels_UpsertStatement :: string where "ibc_channels_UpsertStatement = gt_Upsert channelsTable"
definition ibc_channels_InsertStatement :: string where "ibc_channels_InsertStatement = gt_Insert channelsTable"
definition ibc_channels_DeleteStatement :: "string outcome" where
  "ibc_channels_DeleteStatement = Panic ''ibc channel processor never deletes''"

definition ibc_channels_FlushCache :: "orders \<Rightarrow> ibcChannelsProcessor \<Rightarrow> WritebackOp list \<times> ibcChannelsProcessor" where
  "ibc_channels_FlushCache ord b =
     (if length (chp_channelsCache b) = 0 then ([], b)
      else let l = map (\<lambda>(_, v). EChannel v) (ranged (ord 0) (chp_channelsCache b))
           in ([write_op l], b\<lparr>chp_channelsCache := []\<rparr>))"

definition ibc_channels_OwnsKey :: "Handler \<Rightarrow> bytes \<Rightarrow> bool" where
  "ibc_channels_OwnsKey h key = prefix (bytes_of_string (IBCChannelKey (h_keys h))) key"

definition ibc_channels_Process :: "Handler \<Rightarrow> ibcChannelsProcessor \<Rightarrow> TraceOperation \<Rightarrow> ibcChannelsProcessor outcome" where
  "ibc_channels_Process h b data =
     and_then (h_IBCChannels h data) (\<lambda>res.
       Ok (b\<lparr>chp_channelsCache := gomap_set (chn_ChannelID res, chn_Port res) res (chp_channelsCache b)\<rparr>))"

section \<open>IBC clients\<close>

definition clientsTable :: table_code where
  "clientsTable = ClientsTable ''tracelistener.clients''"

type_synonym clientCacheEntry = "string \<times> string"

record ibcClientsProcessor =
  clp_clientsCache :: "(clientCacheEntry, IBCClientStateRow) gomap"

definition ibc_clients_Migrations :: "string list" where
  "ibc_clients_Migrations = [gt_CreateTable clientsTable]"

definition ibc_clients_ModuleName :: string where "ibc_clients_ModuleName = ''ibc_clients''"
definition ibc_clients_SDKModuleName :: SDKModuleName where "ibc_clients_SDKModuleName = IBC"
definition ibc_clients_UpsertStatement :: string where "ibc_clients_UpsertStatement = gt_Upsert clientsTable"
definition ibc_clients_InsertStatement :: string where "ibc_clients_InsertStatement = gt_Insert clientsTable"
definition ibc_clients_DeleteStatement :: "string outcome" where
  "ibc_clients_DeleteStatement = Panic ''ibc clients processor never deletes''"

definition ibc_clients_FlushCache :: "orders \<Rightarrow> ibcClientsProcessor \<Rightarrow> WritebackOp list \<times> ibcClientsProcessor" where
  "ibc_clients_FlushCache ord b =
     (if length (clp_clientsCache b) = 0 then ([], b)
      else let l = map (\<lambda>(_, v). EClient v) (ranged (ord 0) (clp_clientsCache b))
           in ([write_op l], b\<lparr>clp_clientsCache := []\<rparr>))"

definition ibc_clients_OwnsKey :: "Handler \<Rightarrow> bytes \<Rightarrow> bool" where
  "ibc_clients_OwnsKey h key = sublist (bytes_of_string (IBCClientsKey (h_keys h))) key"

definition ibc_clients_Process :: "Handler \<Rightarrow> ibcClientsProcessor \<Rightarrow> TraceOperation \<Rightarrow> ibcClientsProcessor outcome" where
  "ibc_clients_Process h b data =
     and_then (h_IBCClients h data) (\<lambda>res.
       Ok (b\<lparr>clp_clientsCache := gomap_set (cli_ChainID res, cli_ClientID res) res (clp_clientsCache b)\<rparr>))"

section \<open>IBC connections\<close>

definition connectionsTable :: table_code where
  "connectionsTable = ConnectionsTable ''tracelistener.connections''"

type_synonym connectionCacheEntry = "string \<times> string"

record ibcConnectionsProcessor =
  cop_connectionsCache :: "(connectionCacheEntry, IBCConnectionRow) gomap"

definition ibcObservedKeys :: "sdk_keys \<Rightarrow> bytes list" where
  "ibcObservedKeys k = [bytes_of_string (IBCConnectionsKey k)]"

definition ibc_connections_Migrations :: "string list" where
  "ibc_connections_Migrations = [gt_CreateTable connectionsTable]"

definition ibc_connections_ModuleName :: string where "ibc_connections_ModuleName = ''ibc_connections''"
definition ibc_connections_SDKModuleName :: SDKModuleName where "ibc_connections_SDKModuleName = IBC"
definition ibc_connections_UpsertStatement :: string where "ibc_connections_UpsertStatement = gt_Upsert connectionsTable"
definition ibc_connections_InsertStatement :: string where "ibc_connections_InsertStatement = gt_Insert connectionsTable"
definition ibc_connections_DeleteStatement :: "string outcome" where
  "ibc_connections_DeleteStatement = Panic ''ibc connections processor never deletes''"

definition ibc_connections_FlushCache :: "orders \<Rightarrow> ibcConnectionsProcessor \<Rightarrow> WritebackOp list \<times> ibcConnectionsProcessor" where
  "ibc_connections_FlushCache ord b =
     (if length (cop_connectionsCache b) = 0 then ([], b)
      else let l = map (\<lambda>(_, v). EConnection v) (ranged (ord 0) (cop_connectionsCache b))
           in ([write_op l], b\<lparr>cop_connectionsCache := []\<rparr>))"

definition ibc_connections_OwnsKey :: "Handler \<Rightarrow> bytes \<Rightarrow> bool" where
  "ibc_connections_OwnsKey h key = list_ex (\<lambda>k. prefix k key) (ibcObservedKeys (h_keys h))"

definition ibc_connections_Process :: "Handler \<Rightarrow> ibcConnectionsProcessor \<Rightarrow> TraceOperation \<Rightarrow> ibcConnectionsProcessor outcome" where
  "ibc_connections_Process h b data =
     and_then (h_IBCConnections h data) (\<lambda>res.
       Ok (b\<lparr>cop_connectionsCache := gomap_set (con_ConnectionID res, con_ClientID res) res (cop_connectionsCache b)\<rparr>))"

section \<open>IBC denom traces\<close>

definition denomTracesTable :: table_code where
  "denomTracesTable = DenomTracesTable ''tracelistener.denom_traces''"

record ibcDenomTracesProcessor =
  dtp_denomTracesCache :: "(string, IBCDenomTraceRow) gomap"

definition denomTracePathIndex :: string where
  "denomTracePathIndex =
     ''CREATE INDEX IF NOT EXISTS denom_traces_path_idx ON '' @ gt_TableName denomTracesTable @ ''(path)''"

definition ibc_denom_traces_Migrations :: "string list" where
  "ibc_denom_traces_Migrations = [gt_CreateTable denomTracesTable, denomTracePathIndex]"

definition ibc_denom_traces_ModuleName :: string where "ibc_denom_traces_ModuleName = ''ibc_denom_traces''"
definition ibc_denom_traces_SDKModuleName :: SDKModuleName where "ibc_denom_traces_SDKModuleName = Transfer"
definition ibc_denom_traces_UpsertStatement :: string where "ibc_denom_traces_UpsertStatement = gt_Upsert denomTracesTable"
definition ibc_denom_traces_InsertStatement :: string where "ibc_denom_traces_InsertStatement = gt_Insert denomTracesTable"
definition ibc_denom_traces_DeleteStatement :: "string outcome" where
  "ibc_denom_traces_DeleteStatement = Panic ''ibc denom trace processor never deletes''"

definition ibc_denom_traces_FlushCache :: "orders \<Rightarrow> ibcDenomTracesProcessor \<Rightarrow> WritebackOp list \<times> ibcDenomTracesProcessor" where
  "ibc_denom_traces_FlushCache ord b =
     (if length (dtp_denomTracesCache b) = 0 then ([], b)
      else let l = map (\<lambda>(_, v). EDenomTrace v) (ranged (ord 0) (dtp_denomTracesCache b))
           in ([write_op l], b\<lparr>dtp_denomTracesCache := []\<rparr>))"

definition ibc_denom_traces_OwnsKey :: "Handler \<Rightarrow> bytes \<Rightarrow> bool" where
  "ibc_denom_traces_OwnsKey h key = prefix (IBCDenomTracesKey (h_keys h)) key"

definition ibc_denom_traces_Process :: "Handler \<Rightarrow> ibcDenomTracesProcessor \<Rightarrow> TraceOperation \<Rightarrow> ibcDenomTracesProcessor outcome" where
  "ibc_denom_traces_Process h b data =
     and_then (h_IBCDenomTraces h data) (\<lambda>res.
       Ok (b\<lparr>dtp_denomTracesCache := gomap_set (dnt_Hash res) res (dtp_denomTracesCache b)\<rparr>))"

section \<open>Every module keeps the contract\<close>

interpretation auth_cache: write_cache ap_heightCache "auth_Process h" auth_FlushCache "h_Auth h"
    "\<lambda>_ res. (auth_Address res, auth_AccountNumber res)" EAuth for h
  by unfold_locales (simp_all add: auth_Process_def auth_FlushCache_def comp_def case_prod_unfold)

interpretation bank_cache: write_cache bp_heightCache "bank_Process h" bank_FlushCache "h_Bank h"
    "\<lambda>_ res. (bal_Address res, bal_Denom res)" EBalance for h
  by unfold_locales (simp_all add: bank_Process_def bank_FlushCache_def comp_def case_prod_unfold)

interpretation cw20_balances_cache: write_cache cbp_heightCache "cw20_balances_Process h"
    cw20_balances_FlushCache "cw20_balances_row h"
    "\<lambda>_ val. (cwb_Address val, cwb_ContractAddress val)" ECW20Balance for h
  by unfold_locales
    (simp_all add: cw20_balances_Process_def cw20_balances_FlushCache_def comp_def case_prod_unfold)

interpretation cw20_token_infos_cache: write_cache ctp_heightCache "cw20_token_infos_Process scan"
    cw20_token_infos_FlushCache "cw20_token_infos_row scan" "\<lambda>data _. cw20_token_infos_key data"
    ECW20TokenInfo for scan
  by unfold_locales
    (simp_all add: cw20_token_infos_Process_def cw20_token_infos_FlushCache_def comp_def case_prod_unfold)

interpretation ibc_channels_cache: write_cache chp_channelsCache "ibc_channels_Process h" ibc_channels_FlushCache "h_IBCChannels h"
    "\<lambda>_ res. (chn_ChannelID res, chn_Port res)" EChannel for h
  by unfold_locales (simp_all add: ibc_channels_Process_def ibc_channels_FlushCache_def comp_def case_prod_unfold)

interpretation ibc_clients_cache: write_cache clp_clientsCache "ibc_clients_Process h" ibc_clients_FlushCache "h_IBCClients h"
    "\<lambda>_ res. (cli_ChainID res, cli_ClientID res)" EClient for h
  by unfold_locales (simp_all add: ibc_clients_Process_def ibc_clients_FlushCache_def comp_def case_prod_unfold)

interpretation ibc_connections_cache: write_cache cop_connectionsCache "ibc_connections_Process h" ibc_connections_FlushCache "h_IBCConnections h"
    "\<lambda>_ res. (con_ConnectionID res, con_ClientID res)" EConnection for h
  by unfold_locales (simp_all add: ibc_connections_Process_def ibc_connections_FlushCache_def comp_def case_prod_unfold)

interpretation ibc_denom_traces_cache: write_cache dtp_denomTracesCache "ibc_denom_traces_Process h" ibc_denom_traces_FlushCache "h_IBCDenomTraces h"
    "\<lambda>_ res. (dnt_Hash res)" EDenomTrace for h
  by unfold_locales (simp_all add: ibc_denom_traces_Process_def ibc_denom_traces_FlushCache_def comp_def case_prod_unfold)

end
