(* ===== verification/Delete_Modules.thy ===== *)
theory Delete_Modules
  imports Write_Modules
begin

text \<open>
  The three staking modules, which keep rows to insert and rows to delete in two caches
  (\<open>processor/delegations.go\<close>, \<open>unbonding_delegations.go\<close>, \<open>validators.go\<close>).
\<close>

section \<open>Delegations\<close>

definition delegationsTable :: table_code where
  "delegationsTable = DelegationsTable ''tracelistener.delegations''"

type_synonym delegationCacheEntry = "string \<times> string"

record delegationsProcessor =
  dep_insertHeightCache :: "(delegationCacheEntry, DelegationRow) gomap"
  dep_deleteHeightCache :: "(delegationCacheEntry, DelegationRow) gomap"

definition delegations_Migrations :: "string list" where
  "delegations_Migrations = [gt_CreateTable delegationsTable]"

definition delegations_ModuleName :: string where "delegations_ModuleName = ''delegations''"
definition delegations_SDKModuleName :: SDKModuleName where "delegations_SDKModuleName = Staking"
definition delegations_UpsertStatement :: string where "delegations_UpsertStatement = gt_Upsert delegationsTable"
definition delegations_InsertStatement :: string where "delegations_InsertStatement = gt_Insert delegationsTable"
definition delegations_DeleteStatement :: "string outcome" where
  "delegations_DeleteStatement = Ok (gt_Delete delegationsTable)"

definition delegations_FlushCache ::
    "orders \<Rightarrow> delegationsProcessor \<Rightarrow> WritebackOp list \<times> delegationsProcessor" where
  "delegations_FlushCache ord b =
     (let insert = (if length (dep_insertHeightCache b) \<noteq> 0
                    then map (\<lambda>(_, v). EDelegation v) (ranged (ord 0) (dep_insertHeightCache b)) else []);
          b' = (if length (dep_insertHeightCache b) \<noteq> 0 then b\<lparr>dep_insertHeightCache := []\<rparr> else b);
          writebackOp = [write_op insert]
      in if length (dep_deleteHeightCache b') = 0 \<and> length insert = 0 then ([], b')
         else (writebackOp @ map (\<lambda>(_, v). delete_op (EDelegation v)) (ranged (ord 1) (dep_deleteHeightCache b')),
               b'\<lparr>dep_deleteHeightCache := []\<rparr>))"

definition delegations_OwnsKey :: "Handler \<Rightarrow> bytes \<Rightarrow> bool" where
  "delegations_OwnsKey h key = prefix (DelegationKey (h_keys h)) key"

definition delegations_Process ::
    "Handler \<Rightarrow> delegationsProcessor \<Rightarrow> TraceOperation \<Rightarrow> delegationsProcessor outcome" where
  "delegations_Process h b data =
     and_then (h_Delegations h data) (\<lambda>res.
       let entry = (del_Validator res, del_Delegator res)
       in if is_delete data
          then Ok (b\<lparr>dep_deleteHeightCache := gomap_set entry res (dep_deleteHeightCache b)\<rparr>)
          else Ok (b\<lparr>dep_insertHeightCache := gomap_set entry res (dep_insertHeightCache b)\<rparr>))"

section \<open>Unbonding delegations\<close>

definition unbondingDelegationsTable :: table_code where
  "unbondingDelegationsTable = UnbondingDelegationsTable ''tracelistener.unbonding_delegations''"

type_synonym unbondingDelegationCacheEntry = "string \<times> string"

record unbondingDelegationsProcessor =
  udp_insertHeightCache :: "(unbondingDelegationCacheEntry, UnbondingDelegationRow) gomap"
  udp_deleteHeightCache :: "(unbondingDelegationCacheEntry, UnbondingDelegationRow) gomap"

definition unbonding_delegations_Migrations :: "string list" where
  "unbonding_delegations_Migrations = [gt_CreateTable unbondingDelegationsTable]"

definition unbonding_delegations_ModuleName :: string where "unbonding_delegations_ModuleName = ''unbonding_delegations''"
definition unbonding_delegations_SDKModuleName :: SDKModuleName where "unbonding_delegations_SDKModuleName = Staking"
definition unbonding_delegations_UpsertStatement :: string where "unbonding_delegations_UpsertStatement = gt_Upsert unbondingDelegationsTable"
definition unbonding_delegations_InsertStatement :: string where "unbonding_delegations_InsertStatement = gt_Insert unbondingDelegationsTable"
definition unbonding_delegations_DeleteStatement :: "string outcome" where
  "unbonding_delegations_DeleteStatement = Ok (gt_Delete unbondingDelegationsTable)"

definition unbonding_delegations_FlushCache ::
    "orders \<Rightarrow> unbondingDelegationsProcessor \<Rightarrow> WritebackOp list \<times> unbondingDelegationsProcessor" where
  "unbonding_delegations_FlushCache ord b =
     (let insert = (if length (udp_insertHeightCache b) \<noteq> 0
                    then map (\<lambda>(_, v). EUnbonding v) (ranged (ord 0) (udp_insertHeightCache b)) else []);
          b' = (if length (udp_insertHeightCache b) \<noteq> 0 then b\<lparr>udp_insertHeightCache := []\<rparr> else b);
          writebackOp = [write_op insert]
      in if length (udp_deleteHeightCache b') = 0 \<and> length insert = 0 then ([], b')
         else (writebackOp @ map (\<lambda>(_, v). delete_op (EUnbonding v)) (ranged (ord 1) (udp_deleteHeightCache b')),
               b'\<lparr>udp_deleteHeightCache := []\<rparr>))"

definition unbonding_delegations_OwnsKey :: "Handler \<Rightarrow> bytes \<Rightarrow> bool" where
  "unbonding_delegations_OwnsKey h key =
     list_ex (\<lambda>rkey. prefix rkey key) (h_UnbondingDelegationKeys h)"

text \<open>The cached row is built anew from the marshalled one; its height is left at zero.\<close>

definition unbonding_delegations_Process ::
    "Handler \<Rightarrow> unbondingDelegationsProcessor \<Rightarrow> TraceOperation \<Rightarrow> unbondingDelegationsProcessor outcome" where
  "unbonding_delegations_Process h b data =
     and_then (h_UnbondingDelegations h data) (\<lambda>res.
       if ubd_Delegator res = [] \<and> ubd_Validator res = [] then Ok b
       else
         let entry = (ubd_Validator res, ubd_Delegator res)
         in if is_delete data
            then Ok (b\<lparr>udp_deleteHeightCache :=
                   gomap_set entry (UnbondingDelegationRow_at 0 (ubd_Delegator res) (ubd_Validator res) [])
                     (udp_deleteHeightCache b)\<rparr>)
            else Ok (b\<lparr>udp_insertHeightCache :=
                   gomap_set entry
                     (UnbondingDelegationRow_at 0 (ubd_Delegator res) (ubd_Validator res) (ubd_Entries res))
                     (udp_insertHeightCache b)\<rparr>))"

section \<open>Validators\<close>

definition validatorsTable :: table_code where
  "validatorsTable = ValidatorsTable ''tracelistener.validators''"

type_synonym validatorCacheEntry = string

record validatorsProcessor =
  vap_insertValidatorsCache :: "(validatorCacheEntry, ValidatorRow) gomap"
  vap_deleteValidatorsCache :: "(validatorCacheEntry, ValidatorRow) gomap"

definition addValAddressColumn :: string where
  "addValAddressColumn =
     ''ALTER TABLE '' @ gt_TableName validatorsTable @
     '' ADD COLUMN IF NOT EXISTS validator_address text DEFAULT '' @ [CHR 0x27, CHR 0x27] @ '';''"

definition validators_Migrations :: "string list" where
  "validators_Migrations = [gt_CreateTable validatorsTable, addValAddressColumn]"

definition validators_ModuleName :: string where "validators_ModuleName = ''validators''"
definition validators_SDKModuleName :: SDKModuleName where "validators_SDKModuleName = Staking"
definition validators_UpsertStatement :: string where "validators_UpsertStatement = gt_Upsert validatorsTable"
definition validators_InsertStatement :: string where "validators_InsertStatement = gt_Insert validatorsTable"
definition validators_DeleteStatement :: "string outcome" where
  "validators_DeleteStatement = Ok (gt_Delete validatorsTable)"

definition validators_FlushCache ::
    "orders \<Rightarrow> validatorsProcessor \<Rightarrow> WritebackOp list \<times> validatorsProcessor" where
  "validators_FlushCache ord b =
     (let insert = (if length (vap_insertValidatorsCache b) \<noteq> 0
                    then map (\<lambda>(_, v). EValidator v) (ranged (ord 0) (vap_insertValidatorsCache b)) else []);
          b' = (if length (vap_insertValidatorsCache b) \<noteq> 0 then b\<lparr>vap_insertValidatorsCache := []\<rparr> else b);
          writebackOp = [write_op insert]
      in if length (vap_deleteValidatorsCache b') = 0 \<and> length insert = 0 then ([], b')
         else (writebackOp @ map (\<lambda>(_, v). delete_op (EValidator v)) (ranged (ord 1) (vap_deleteValidatorsCache b')),
               b'\<lparr>vap_deleteValidatorsCache := []\<rparr>))"

definition validators_OwnsKey :: "Handler \<Rightarrow> bytes \<Rightarrow> bool" where
  "validators_OwnsKey h key = prefix (ValidatorsKey (h_keys h)) key"

definition validators_Process ::
    "Handler \<Rightarrow> validatorsProcessor \<Rightarrow> TraceOperation \<Rightarrow> validatorsProcessor outcome" where
  "validators_Process h b data =
     and_then (h_Validators h data) (\<lambda>res.
       let entry = val_OperatorAddress res
       in if is_delete data
          then Ok (b\<lparr>vap_deleteValidatorsCache := gomap_set entry res (vap_deleteValidatorsCache b)\<rparr>)
          else Ok (b\<lparr>vap_insertValidatorsCache := gomap_set entry res (vap_insertValidatorsCache b)\<rparr>))"

section \<open>Every module keeps the contract\<close>

definition delegations_row :: "Handler \<Rightarrow> TraceOperation \<Rightarrow> DelegationRow option outcome" where
  "delegations_row h data = and_then (h_Delegations h data) (\<lambda>res. Ok (Some res))"

interpretation delegations_cache: write_delete_cache dep_insertHeightCache dep_deleteHeightCache "delegations_Process h"
    delegations_FlushCache "delegations_row h" "\<lambda>res. (del_Validator res, del_Delegator res)" EDelegation for h
  by unfold_locales (auto simp: delegations_Process_def delegations_row_def delegations_FlushCache_def and_then_Ok and_then_Err
    and_then_Panic Let_def comp_def case_prod_unfold UnbondingDelegationRow_at_def split: if_splits)

definition unbonding_delegations_row ::
    "Handler \<Rightarrow> TraceOperation \<Rightarrow> UnbondingDelegationRow option outcome" where
  "unbonding_delegations_row h data =
     and_then (h_UnbondingDelegations h data) (\<lambda>res.
       Ok (if ubd_Delegator res = [] \<and> ubd_Validator res = [] then None
           else Some (UnbondingDelegationRow_at 0 (ubd_Delegator res) (ubd_Validator res)
                        (if is_delete data then [] else ubd_Entries res))))"

interpretation unbonding_delegations_cache: write_delete_cache udp_insertHeightCache udp_deleteHeightCache "unbonding_delegations_Process h"
    unbonding_delegations_FlushCache "unbonding_delegations_row h" "\<lambda>res. (ubd_Validator res, ubd_Delegator res)" EUnbonding for h
  by unfold_locales (auto simp: unbonding_delegations_Process_def unbonding_delegations_row_def unbonding_delegations_FlushCache_def and_then_Ok and_then_Err
    and_then_Panic Let_def comp_def case_prod_unfold UnbondingDelegationRow_at_def split: if_splits)

definition validators_row :: "Handler \<Rightarrow> TraceOperation \<Rightarrow> ValidatorRow option outcome" where
  "validators_row h data = and_then (h_Validators h data) (\<lambda>res. Ok (Some res))"

interpretation validators_cache: write_delete_cache vap_insertValidatorsCache vap_deleteValidatorsCache "validators_Process h"
    validators_FlushCache "validators_row h" "val_OperatorAddress" EValidator for h
  by unfold_locales (auto simp: validators_Process_def validators_row_def validators_FlushCache_def and_then_Ok and_then_Err
    and_then_Panic Let_def comp_def case_prod_unfold UnbondingDelegationRow_at_def split: if_splits)

end
