(* ===== verification/All_Modules.thy ===== *)
theory All_Modules
  imports Delete_Modules
begin

text \<open>
  The interface \<open>Module\<close> of \<open>processor/processor.go\<close>: the sum of the module structs with its methods
  by dispatch, and what all modules promise the processor.
\<close>

section \<open>The interface\<close>

text \<open>What a module is built with: the data marshaler and the JSON scanner.\<close>

record env =
  handler :: Handler
  scan :: "bytes \<Rightarrow> json outcome"

datatype module =
    MAuth authProcessor
  | MBank bankProcessor
  | MCW20Balances cw20BalanceProcessor
  | MCW20TokenInfos cw20TokenInfoProcessor
  | MDelegations delegationsProcessor
  | MChannels ibcChannelsProcessor
  | MClients ibcClientsProcessor
  | MConnections ibcConnectionsProcessor
  | MDenomTraces ibcDenomTracesProcessor
  | MUnbonding unbondingDelegationsProcessor
  | MValidators validatorsProcessor

primrec module_FlushCache :: "orders \<Rightarrow> module \<Rightarrow> WritebackOp list \<times> module" where
  "module_FlushCache ord (MAuth b) = map_prod id MAuth (auth_FlushCache ord b)"
| "module_FlushCache ord (MBank b) = map_prod id MBank (bank_FlushCache ord b)"
| "module_FlushCache ord (MCW20Balances b) = map_prod id MCW20Balances (cw20_balances_FlushCache ord b)"
| "module_FlushCache ord (MCW20TokenInfos b) = map_prod id MCW20TokenInfos (cw20_token_infos_FlushCache ord b)"
| "module_FlushCache ord (MDelegations b) = map_prod id MDelegations (delegations_FlushCache ord b)"
| "module_FlushCache ord (MChannels b) = map_prod id MChannels (ibc_channels_FlushCache ord b)"
| "module_FlushCache ord (MClients b) = map_prod id MClients (ibc_clients_FlushCache ord b)"
| "module_FlushCache ord (MConnections b) = map_prod id MConnections (ibc_connections_FlushCache ord b)"
| "module_FlushCache ord (MDenomTraces b) = map_prod id MDenomTraces (ibc_denom_traces_FlushCache ord b)"
| "module_FlushCache ord (MUnbonding b) = map_prod id MUnbonding (unbonding_delegations_FlushCache ord b)"
| "module_FlushCache ord (MValidators b) = map_prod id MValidators (validators_FlushCache ord b)"

primrec module_OwnsKey :: "env \<Rightarrow> module \<Rightarrow> bytes \<Rightarrow> bool" where
  "module_OwnsKey e (MAuth b) key = auth_OwnsKey (handler e) key"
| "module_OwnsKey e (MBank b) key = bank_OwnsKey (handler e) key"
| "module_OwnsKey e (MCW20Balances b) key = cw20_balances_OwnsKey (handler e) key"
| "module_OwnsKey e (MCW20TokenInfos b) key = cw20_token_infos_OwnsKey key"
| "module_OwnsKey e (MDelegations b) key = delegations_OwnsKey (handler e) key"
| "module_OwnsKey e (MChannels b) key = ibc_channels_OwnsKey (handler e) key"
| "module_OwnsKey e (MClients b) key = ibc_clients_OwnsKey (handler e) key"
| "module_OwnsKey e (MConnections b) key = ibc_connections_OwnsKey (handler e) key"
| "module_OwnsKey e (MDenomTraces b) key = ibc_denom_traces_OwnsKey (handler e) key"
| "module_OwnsKey e (MUnbonding b) key = unbonding_delegations_OwnsKey (handler e) key"
| "module_OwnsKey e (MValidators b) key = validators_OwnsKey (handler e) key"

primrec module_Process :: "env \<Rightarrow> module \<Rightarrow> TraceOperation \<Rightarrow> module outcome" where
  "module_Process e (MAuth b) data = and_then (auth_Process (handler e) b data) (\<lambda>b. Ok (MAuth b))"
| "module_Process e (MBank b) data = and_then (bank_Process (handler e) b data) (\<lambda>b. Ok (MBank b))"
| "module_Process e (MCW20Balances b) data = and_then (cw20_balances_Process (handler e) b data) (\<lambda>b. Ok (MCW20Balances b))"
| "module_Process e (MCW20TokenInfos b) data = and_then (cw20_token_infos_Process (scan e) b data) (\<lambda>b. Ok (MCW20TokenInfos b))"
| "module_Process e (MDelegations b) data = and_then (delegations_Process (handler e) b data) (\<lambda>b. Ok (MDelegations b))"
| "module_Process e (MChannels b) data = and_then (ibc_channels_Process (handler e) b data) (\<lambda>b. Ok (MChannels b))"
| "module_Process e (MClients b) data = and_then (ibc_clients_Process (handler e) b data) (\<lambda>b. Ok (MClients b))"
| "module_Process e (MConnections b) data = and_then (ibc_connections_Process (handler e) b data) (\<lambda>b. Ok (MConnections b))"
| "module_Process e (MDenomTraces b) data = and_then (ibc_denom_traces_Process (handler e) b data) (\<lambda>b. Ok (MDenomTraces b))"
| "module_Process e (MUnbonding b) data = and_then (unbonding_delegations_Process (handler e) b data) (\<lambda>b. Ok (MUnbonding b))"
| "module_Process e (MValidators b) data = and_then (validators_Process (handler e) b data) (\<lambda>b. Ok (MValidators b))"

primrec module_ModuleName :: "module \<Rightarrow> string" where
  "module_ModuleName (MAuth b) = auth_ModuleName"
| "module_ModuleName (MBank b) = bank_ModuleName"
| "module_ModuleName (MCW20Balances b) = cw20_balances_ModuleName"
| "module_ModuleName (MCW20TokenInfos b) = cw20_token_infos_ModuleName"
| "module_ModuleName (MDelegations b) = delegations_ModuleName"
| "module_ModuleName (MChannels b) = ibc_channels_ModuleName"
| "module_ModuleName (MClients b) = ibc_clients_ModuleName"
| "module_ModuleName (MConnections b) = ibc_connections_ModuleName"
| "module_ModuleName (MDenomTraces b) = ibc_denom_traces_ModuleName"
| "module_ModuleName (MUnbonding b) = unbonding_delegations_ModuleName"
| "module_ModuleName (MValidators b) = validators_ModuleName"

primrec module_SDKModuleName :: "module \<Rightarrow> SDKModuleName" where
  "module_SDKModuleName (MAuth b) = auth_SDKModuleName"
| "module_SDKModuleName (MBank b) = bank_SDKModuleName"
| "module_SDKModuleName (MCW20Balances b) = cw20_balances_SDKModuleName"
| "module_SDKModuleName (MCW20TokenInfos b) = cw20_token_infos_SDKModuleName"
| "module_SDKModuleName (MDelegations b) = delegations_SDKModuleName"
| "module_SDKModuleName (MChannels b) = ibc_channels_SDKModuleName"
| "module_SDKModuleName (MClients b) = ibc_clients_SDKModuleName"
| "module_SDKModuleName (MConnections b) = ibc_connections_SDKModuleName"
| "module_SDKModuleName (MDenomTraces b) = ibc_denom_traces_SDKModuleName"
| "module_SDKModuleName (MUnbonding b) = unbonding_delegations_SDKModuleName"
| "module_SDKModuleName (MValidators b) = validators_SDKModuleName"

primrec module_Migrations :: "module \<Rightarrow> string list" where
  "module_Migrations (MAuth b) = auth_Migrations"
| "module_Migrations (MBank b) = bank_Migrations"
| "module_Migrations (MCW20Balances b) = cw20_balances_Migrations"
| "module_Migrations (MCW20TokenInfos b) = cw20_token_infos_Migrations"
| "module_Migrations (MDelegations b) = delegations_Migrations"
| "module_Migrations (MChannels b) = ibc_channels_Migrations"
| "module_Migrations (MClients b) = ibc_clients_Migrations"
| "module_Migrations (MConnections b) = ibc_connections_Migrations"
| "module_Migrations (MDenomTraces b) = ibc_denom_traces_Migrations"
| "module_Migrations (MUnbonding b) = unbonding_delegations_Migrations"
| "module_Migrations (MValidators b) = validators_Migrations"

primrec module_UpsertStatement :: "module \<Rightarrow> string" where
  "module_UpsertStatement (MAuth b) = auth_UpsertStatement"
| "module_UpsertStatement (MBank b) = bank_UpsertStatement"
| "module_UpsertStatement (MCW20Balances b) = cw20_balances_UpsertStatement"
| "module_UpsertStatement (MCW20TokenInfos b) = cw20_token_infos_UpsertStatement"
| "module_UpsertStatement (MDelegations b) = delegations_UpsertStatement"
| "module_UpsertStatement (MChannels b) = ibc_channels_UpsertStatement"
| "module_UpsertStatement (MClients b) = ibc_clients_UpsertStatement"
| "module_UpsertStatement (MConnections b) = ibc_connections_UpsertStatement"
| "module_UpsertStatement (MDenomTraces b) = ibc_denom_traces_UpsertStatement"
| "module_UpsertStatement (MUnbonding b) = unbonding_delegations_UpsertStatement"
| "module_UpsertStatement (MValidators b) = validators_UpsertStatement"

primrec module_InsertStatement :: "module \<Rightarrow> string" where
  "module_InsertStatement (MAuth b) = auth_InsertStatement"
| "module_InsertStatement (MBank b) = bank_InsertStatement"
| "module_InsertStatement (MCW20Balances b) = cw20_balances_InsertStatement"
| "module_InsertStatement (MCW20TokenInfos b) = cw20_token_infos_InsertStatement"
| "module_InsertStatement (MDelegations b) = delegations_InsertStatement"
| "module_InsertStatement (MChannels b) = ibc_channels_InsertStatement"
| "module_InsertStatement (MClients b) = ibc_clients_InsertStatement"
| "module_InsertStatement (MConnections b) = ibc_connections_InsertStatement"
| "module_InsertStatement (MDenomTraces b) = ibc_denom_traces_InsertStatement"
| "module_InsertStatement (MUnbonding b) = unbonding_delegations_InsertStatement"
| "module_InsertStatement (MValidators b) = validators_InsertStatement"

primrec module_DeleteStatement :: "module \<Rightarrow> string outcome" where
  "module_DeleteStatement (MAuth b) = auth_DeleteStatement"
| "module_DeleteStatement (MBank b) = bank_DeleteStatement"
| "module_DeleteStatement (MCW20Balances b) = cw20_balances_DeleteStatement"
| "module_DeleteStatement (MCW20TokenInfos b) = cw20_token_infos_DeleteStatement"
| "module_DeleteStatement (MDelegations b) = delegations_DeleteStatement"
| "module_DeleteStatement (MChannels b) = ibc_channels_DeleteStatement"
| "module_DeleteStatement (MClients b) = ibc_clients_DeleteStatement"
| "module_DeleteStatement (MConnections b) = ibc_connections_DeleteStatement"
| "module_DeleteStatement (MDenomTraces b) = ibc_denom_traces_DeleteStatement"
| "module_DeleteStatement (MUnbonding b) = unbonding_delegations_DeleteStatement"
| "module_DeleteStatement (MValidators b) = validators_DeleteStatement"

section \<open>The rows a module holds\<close>

primrec pending :: "module \<Rightarrow> entrier multiset" where
  "pending (MAuth b) = image_mset (EAuth \<circ> snd) (mset (ap_heightCache b))"
| "pending (MBank b) = image_mset (EBalance \<circ> snd) (mset (bp_heightCache b))"
| "pending (MCW20Balances b) = image_mset (ECW20Balance \<circ> snd) (mset (cbp_heightCache b))"
| "pending (MCW20TokenInfos b) = image_mset (ECW20TokenInfo \<circ> snd) (mset (ctp_heightCache b))"
| "pending (MDelegations b) = image_mset (EDelegation \<circ> snd) (mset (dep_insertHeightCache b) + mset (dep_deleteHeightCache b))"
| "pending (MChannels b) = image_mset (EChannel \<circ> snd) (mset (chp_channelsCache b))"
| "pending (MClients b) = image_mset (EClient \<circ> snd) (mset (clp_clientsCache b))"
| "pending (MConnections b) = image_mset (EConnection \<circ> snd) (mset (cop_connectionsCache b))"
| "pending (MDenomTraces b) = image_mset (EDenomTrace \<circ> snd) (mset (dtp_denomTracesCache b))"
| "pending (MUnbonding b) = image_mset (EUnbonding \<circ> snd) (mset (udp_insertHeightCache b) + mset (udp_deleteHeightCache b))"
| "pending (MValidators b) = image_mset (EValidator \<circ> snd) (mset (vap_insertValidatorsCache b) + mset (vap_deleteValidatorsCache b))"

primrec deletes_rows :: "module \<Rightarrow> bool" where
  "deletes_rows (MAuth b) = False"
| "deletes_rows (MBank b) = False"
| "deletes_rows (MCW20Balances b) = False"
| "deletes_rows (MCW20TokenInfos b) = False"
| "deletes_rows (MDelegations b) = True"
| "deletes_rows (MChannels b) = False"
| "deletes_rows (MClients b) = False"
| "deletes_rows (MConnections b) = False"
| "deletes_rows (MDenomTraces b) = False"
| "deletes_rows (MUnbonding b) = True"
| "deletes_rows (MValidators b) = True"

lemmas delete_cache_pending = delegations_cache.pending_rows_def
  unbonding_delegations_cache.pending_rows_def validators_cache.pending_rows_def

lemmas module_hands_over =
  auth_cache.flush_hands_over
  bank_cache.flush_hands_over
  cw20_balances_cache.flush_hands_over
  cw20_token_infos_cache.flush_hands_over
  delegations_cache.flush_hands_over
  ibc_channels_cache.flush_hands_over
  ibc_clients_cache.flush_hands_over
  ibc_connections_cache.flush_hands_over
  ibc_denom_traces_cache.flush_hands_over
  unbonding_delegations_cache.flush_hands_over
  validators_cache.flush_hands_over

lemmas module_clears =
  auth_cache.flush_clears
  bank_cache.flush_clears
  cw20_balances_cache.flush_clears
  cw20_token_infos_cache.flush_clears
  delegations_cache.flush_clears
  ibc_channels_cache.flush_clears
  ibc_clients_cache.flush_clears
  ibc_connections_cache.flush_clears
  ibc_denom_traces_cache.flush_clears
  unbonding_delegations_cache.flush_clears
  validators_cache.flush_clears

lemmas delete_flush_ops = delegations_cache.flush_ops unbonding_delegations_cache.flush_ops
  validators_cache.flush_ops

lemmas write_flush_ops =
  auth_cache.flush_ops
  bank_cache.flush_ops
  cw20_balances_cache.flush_ops
  cw20_token_infos_cache.flush_ops
  ibc_channels_cache.flush_ops
  ibc_clients_cache.flush_ops
  ibc_connections_cache.flush_ops
  ibc_denom_traces_cache.flush_ops

lemmas module_DeleteStatement_defs =
  auth_DeleteStatement_def
  bank_DeleteStatement_def
  cw20_balances_DeleteStatement_def
  cw20_token_infos_DeleteStatement_def
  delegations_DeleteStatement_def
  ibc_channels_DeleteStatement_def
  ibc_clients_DeleteStatement_def
  ibc_connections_DeleteStatement_def
  ibc_denom_traces_DeleteStatement_def
  unbonding_delegations_DeleteStatement_def
  validators_DeleteStatement_def

interpretation module_flush: flushing module_FlushCache pending "{Write, Delete}"
proof (unfold_locales, goal_cases)
  case (1 ord m)
  then show ?case
    by (cases m) (simp_all add: module_hands_over delete_cache_pending)
next
  case (2 ord m)
  then show ?case
    by (cases m) (simp_all add: module_clears [unfolded delete_cache_pending]
        delegations_cache.flush_empties unbonding_delegations_cache.flush_empties
        validators_cache.flush_empties)
next
  case (3 ord wo m)
  then show ?case
    by (cases m) (auto simp: write_flush_ops delete_flush_ops split: if_splits)
qed

text \<open>A module without a statement to delete never hands over a deletion.\<close>

lemma module_flush_delete:
  assumes "\<forall>i. range_order (ord i)" "wo \<in> set (fst (module_FlushCache ord m))" "wb_Type wo = Delete"
  shows "\<exists>q. module_DeleteStatement m = Ok q"
  using assms by (cases m) (auto simp: module_DeleteStatement_defs write_flush_ops split: if_splits)

text \<open>Flushing leaves a module what it is.\<close>

lemma module_flush_same [simp]:
  "module_ModuleName (snd (module_FlushCache ord m)) = module_ModuleName m"
  "module_SDKModuleName (snd (module_FlushCache ord m)) = module_SDKModuleName m"
  by (cases m; simp)+

lemma module_process_same:
  assumes "module_Process e m data = Ok m'"
  shows "module_ModuleName m' = module_ModuleName m" "module_SDKModuleName m' = module_SDKModuleName m"
  using assms by (cases m; auto simp: and_then_Ok)+

end
