(* ===== verification/Processor.thy ===== *)
theory Processor
  imports All_Modules
begin

text \<open>
  The data processor (\<open>processor/processor.go\<close>): which modules it is built from, how a trace reaches
  the modules that own its key, and the flush of a complete block. The processor's goroutine handles
  one trace at a time, so its life is a sequence of steps on its state. The modules live behind
  pointers: the list of modules and the mapping by SDK module share them, so the mapping holds indices
  into the list. What goes out on the writeback and error channels is the result of a step; the
  goroutine that hands the writeback over adds no state. Logging is left out.
\<close>

section \<open>Construction\<close>

definition defaultProcessors :: "string list" where
  "defaultProcessors =
     [''auth'', ''bank'', ''delegations'', ''unbonding_delegations'', ''ibc_clients'', ''ibc_channels'',
      ''ibc_connections'', ''ibc_denom_traces'', ''validators'', ''cw20_balances'', ''cw20_token_infos'']"

record Processor =
  p_migrations :: "string list"
  p_lastHeight :: u64
  p_chainName :: string
  p_moduleProcessors :: "module list"
  p_sdkModuleMapping :: "(SDKModuleName, nat list) gomap"
  p_useDBUpsert :: bool

definition processorByName :: "string \<Rightarrow> module outcome" where
  "processorByName name =
     (if name = bank_ModuleName then Ok (MBank \<lparr>bp_heightCache = []\<rparr>)
      else if name = ibc_connections_ModuleName then Ok (MConnections \<lparr>cop_connectionsCache = []\<rparr>)
      else if name = delegations_ModuleName
        then Ok (MDelegations \<lparr>dep_insertHeightCache = [], dep_deleteHeightCache = []\<rparr>)
      else if name = unbonding_delegations_ModuleName
        then Ok (MUnbonding \<lparr>udp_insertHeightCache = [], udp_deleteHeightCache = []\<rparr>)
      else if name = ibc_denom_traces_ModuleName then Ok (MDenomTraces \<lparr>dtp_denomTracesCache = []\<rparr>)
      else if name = ibc_channels_ModuleName then Ok (MChannels \<lparr>chp_channelsCache = []\<rparr>)
      else if name = ibc_clients_ModuleName then Ok (MClients \<lparr>clp_clientsCache = []\<rparr>)
      else if name = auth_ModuleName then Ok (MAuth \<lparr>ap_heightCache = []\<rparr>)
      else if name = validators_ModuleName
        then Ok (MValidators \<lparr>vap_insertValidatorsCache = [], vap_deleteValidatorsCache = []\<rparr>)
      else if name = cw20_balances_ModuleName then Ok (MCW20Balances \<lparr>cbp_heightCache = []\<rparr>)
      else if name = cw20_token_infos_ModuleName then Ok (MCW20TokenInfos \<lparr>ctp_heightCache = []\<rparr>)
      else Err (''unknown Processor '' @ name))"

definition mapped :: "SDKModuleName \<Rightarrow> (SDKModuleName, nat list) gomap \<Rightarrow> nat list" where
  "mapped n m = (case map_of m n of None \<Rightarrow> [] | Some js \<Rightarrow> js)"

text \<open>The loop of \<open>New\<close> over the enabled processors, with the three collections it fills.\<close>

fun build ::
    "string list \<Rightarrow> module list \<Rightarrow> string list \<Rightarrow> (SDKModuleName, nat list) gomap \<Rightarrow>
     (module list \<times> string list \<times> (SDKModuleName, nat list) gomap) outcome" where
  "build [] mp migrations mapping = Ok (mp, migrations, mapping)"
| "build (ep # eps) mp migrations mapping =
     and_then (processorByName ep) (\<lambda>p.
       let n = module_SDKModuleName p
       in build eps (mp @ [p]) (migrations @ module_Migrations p)
            (gomap_set n (mapped n mapping @ [length mp]) mapping))"

definition New :: "string list option \<Rightarrow> string \<Rightarrow> Processor outcome" where
  "New ProcessorsEnabled chain =
     (let enabled = (case ProcessorsEnabled of None \<Rightarrow> defaultProcessors | Some ps \<Rightarrow> ps)
      in and_then (build enabled [] [] []) (\<lambda>(mp, migrations, mapping).
           Ok \<lparr>p_migrations = migrations, p_lastHeight = 0, p_chainName = chain,
              p_moduleProcessors = mp, p_sdkModuleMapping = mapping, p_useDBUpsert = False\<rparr>))"

definition SetDBUpsertEnabled :: "bool \<Rightarrow> Processor \<Rightarrow> Processor" where
  "SetDBUpsertEnabled enabled p = p\<lparr>p_useDBUpsert := enabled\<rparr>"

definition DatabaseMigrations :: "Processor \<Rightarrow> string list" where
  "DatabaseMigrations p = p_migrations p"

definition AddModule :: "module \<Rightarrow> Processor \<Rightarrow> Processor outcome" where
  "AddModule m p =
     (if list_ex (\<lambda>em. module_ModuleName em = module_ModuleName m) (p_moduleProcessors p)
      then Err (''cannot add module '' @ module_ModuleName m @ '' more than one time'')
      else Ok (p\<lparr>p_moduleProcessors := p_moduleProcessors p @ [m]\<rparr>))"

section \<open>Flushing a block\<close>

definition statement_for :: "bool \<Rightarrow> module \<Rightarrow> WritebackStatementTypes \<Rightarrow> string outcome" where
  "statement_for useDBUpsert m t =
     (case t of
        Delete \<Rightarrow> module_DeleteStatement m
      | Write \<Rightarrow> if useDBUpsert then Ok (module_UpsertStatement m) else Ok (module_InsertStatement m)
      | Unknown n \<Rightarrow> Panic (''found unknown wbop type'' @ WritebackStatementTypes_String t))"

text \<open>The inner loop over the operations of one module.\<close>

fun complete_ops :: "Processor \<Rightarrow> module \<Rightarrow> WritebackOp list \<Rightarrow> WritebackOp list outcome" where
  "complete_ops p m [] = Ok []"
| "complete_ops p m (entry # cd) =
     (if length (wb_Data entry) = 0 then complete_ops p m cd
      else and_then (statement_for (p_useDBUpsert p) m (wb_Type entry)) (\<lambda>st.
           and_then (complete_ops p m cd) (\<lambda>wb.
             Ok (entry\<lparr>wb_Data := map (WithChainName (p_chainName p)) (wb_Data entry),
                       wb_Statement := st, wb_SourceModule := module_SDKModuleName m\<rparr> # wb))))"

text \<open>The outer loop; \<open>ords\<close> gives the range orders of each module.\<close>

fun flush_modules ::
    "Processor \<Rightarrow> (nat \<Rightarrow> orders) \<Rightarrow> nat \<Rightarrow> module list \<Rightarrow> (WritebackOp list \<times> module list) outcome" where
  "flush_modules p ords i [] = Ok ([], [])"
| "flush_modules p ords i (mp # mps) =
     (let (cd, mp') = module_FlushCache (ords i) mp
      in and_then (complete_ops p mp' cd) (\<lambda>wb.
         and_then (flush_modules p ords (Suc i) mps) (\<lambda>(wbs, mps').
           Ok (wb @ wbs, mp' # mps'))))"

definition Flush :: "(nat \<Rightarrow> orders) \<Rightarrow> Processor \<Rightarrow> (WritebackOp list \<times> Processor) outcome" where
  "Flush ords p =
     and_then (flush_modules p ords 0 (p_moduleProcessors p)) (\<lambda>(wb, mps).
       Ok (wb, p\<lparr>p_moduleProcessors := mps\<rparr>))"

section \<open>Processing a trace\<close>

type_synonym tracing_error = "string \<times> string \<times> TraceOperation"

text \<open>The loop of \<open>processData\<close> over indices into the modules.\<close>

fun processData ::
    "env \<Rightarrow> nat list \<Rightarrow> TraceOperation \<Rightarrow> module list \<Rightarrow> (tracing_error list \<times> module list) outcome" where
  "processData e [] data ms = Ok ([], ms)"
| "processData e (i # js) data ms =
     (if \<not> module_OwnsKey e (ms ! i) (vis (top_Key data)) then processData e js data ms
      else case module_Process e (ms ! i) data of
        Panic p \<Rightarrow> Panic p
      | Ok m' \<Rightarrow> processData e js data (ms[i := m'])
      | Err err \<Rightarrow>
          and_then (processData e js data ms) (\<lambda>(errs, ms').
            Ok ((module_ModuleName (ms ! i), err, data) # errs, ms')))"

definition processorList :: "Processor \<Rightarrow> TraceOperation \<Rightarrow> nat list" where
  "processorList p data =
     (if top_SuggestedProcessor data \<noteq> [] then
        (case map_of (p_sdkModuleMapping p) (top_SuggestedProcessor data) of
           Some plist \<Rightarrow> plist
         | None \<Rightarrow> [0..<length (p_moduleProcessors p)])
      else [0..<length (p_moduleProcessors p)])"

definition ProcessData :: "env \<Rightarrow> TraceOperation \<Rightarrow> Processor \<Rightarrow> (tracing_error list \<times> Processor) outcome" where
  "ProcessData e data p =
     and_then (processData e (processorList p data) data (p_moduleProcessors p)) (\<lambda>(errs, ms).
       Ok (errs, p\<lparr>p_moduleProcessors := ms\<rparr>))"

section \<open>The life of the processor\<close>

record step_output =
  so_writebacks :: "WritebackOp list list"
  so_errors :: "tracing_error list"

text \<open>One trace received by \<open>lifecycle\<close>: a new height other than zero flushes first.\<close>

definition lifecycle_step ::
    "env \<Rightarrow> (nat \<Rightarrow> orders) \<Rightarrow> TraceOperation \<Rightarrow> Processor \<Rightarrow> (step_output \<times> Processor) outcome" where
  "lifecycle_step e ords data p =
     and_then
       (if top_BlockHeight data \<noteq> p_lastHeight p \<and> top_BlockHeight data \<noteq> 0
        then and_then (Flush ords p) (\<lambda>(wb, p'). Ok ([wb], p'\<lparr>p_lastHeight := top_BlockHeight data\<rparr>))
        else Ok ([], p))
       (\<lambda>(wbs, p').
     and_then (ProcessData e data p') (\<lambda>(errs, p'').
       Ok (\<lparr>so_writebacks = wbs, so_errors = errs\<rparr>, p'')))"

fun lifecycle ::
    "env \<Rightarrow> (nat \<Rightarrow> nat \<Rightarrow> orders) \<Rightarrow> nat \<Rightarrow> TraceOperation list \<Rightarrow> Processor \<Rightarrow>
     (step_output list \<times> Processor) outcome" where
  "lifecycle e ords n [] p = Ok ([], p)"
| "lifecycle e ords n (data # ds) p =
     and_then (lifecycle_step e (ords n) data p) (\<lambda>(out, p').
     and_then (lifecycle e ords (Suc n) ds p') (\<lambda>(outs, p'').
       Ok (out # outs, p'')))"

section \<open>Facts about construction\<close>

lemma processorByName_Ok: "processorByName name = Ok m \<Longrightarrow> module_ModuleName m = name \<and> pending m = {#}"
  unfolding processorByName_def by (auto split: if_splits)

lemma processorByName_no_panic: "processorByName name \<noteq> Panic q"
  by (simp add: processorByName_def)

lemmas ModuleName_defs = auth_ModuleName_def bank_ModuleName_def cw20_balances_ModuleName_def
  cw20_token_infos_ModuleName_def delegations_ModuleName_def ibc_channels_ModuleName_def
  ibc_clients_ModuleName_def ibc_connections_ModuleName_def ibc_denom_traces_ModuleName_def
  unbonding_delegations_ModuleName_def validators_ModuleName_def

lemma processorByName_known: "(\<exists>m. processorByName name = Ok m) \<longleftrightarrow> name \<in> set defaultProcessors"
  unfolding processorByName_def ModuleName_defs by (simp add: defaultProcessors_def)

text \<open>The mapping holds, for each SDK module, the indices of the modules in the list that belong to it.\<close>

definition indices :: "module list \<Rightarrow> SDKModuleName \<Rightarrow> nat list" where
  "indices ms n = filter (\<lambda>i. module_SDKModuleName (ms ! i) = n) [0..<length ms]"

definition mapping_ok :: "module list \<Rightarrow> (SDKModuleName, nat list) gomap \<Rightarrow> bool" where
  "mapping_ok ms mapping \<longleftrightarrow>
     (\<forall>n. map_of mapping n = (if indices ms n = [] then None else Some (indices ms n)))"

lemma indices_append:
  "indices (ms @ [m]) n = indices ms n @ (if module_SDKModuleName m = n then [length ms] else [])"
proof -
  have "filter (\<lambda>i. module_SDKModuleName ((ms @ [m]) ! i) = n) [0..<length ms] = indices ms n"
    unfolding indices_def by (rule filter_cong) (simp_all add: nth_append)
  then show ?thesis by (simp add: indices_def)
qed

lemma mapping_ok_Nil: "mapping_ok [] []"
  by (simp add: mapping_ok_def indices_def)

lemma mapping_ok_add:
  assumes "mapping_ok ms mapping"
  shows "mapping_ok (ms @ [m])
    (gomap_set (module_SDKModuleName m) (mapped (module_SDKModuleName m) mapping @ [length ms]) mapping)"
proof -
  have "mapped n mapping = indices ms n" for n
    using assms by (simp add: mapping_ok_def mapped_def)
  then show ?thesis
    using assms by (simp add: mapping_ok_def map_of_gomap_set indices_append)
qed

lemma build_Cons:
  "build (ep # eps) mp mig mapping = Ok r \<longleftrightarrow>
    (\<exists>m. processorByName ep = Ok m \<and>
      build eps (mp @ [m]) (mig @ module_Migrations m)
        (gomap_set (module_SDKModuleName m) (mapped (module_SDKModuleName m) mapping @ [length mp]) mapping)
        = Ok r)"
  by (simp add: and_then_Ok Let_def)

lemma build_mapping:
  "build eps mp mig mapping = Ok (mp', mig', mapping') \<Longrightarrow> mapping_ok mp mapping \<Longrightarrow> mapping_ok mp' mapping'"
proof (induction eps arbitrary: mp mig mapping)
  case (Cons ep eps)
  then show ?case unfolding build_Cons using mapping_ok_add by blast
qed simp

lemma build_modules:
  "build eps mp mig mapping = Ok (mp', mig', mapping') \<Longrightarrow>
    \<exists>qs. mp' = mp @ qs \<and> map module_ModuleName qs = eps \<and> (\<forall>m \<in> set qs. pending m = {#}) \<and>
      mig' = mig @ concat (map module_Migrations qs)"
proof (induction eps arbitrary: mp mig mapping)
  case (Cons ep eps)
  then obtain m mapping1 where m: "processorByName ep = Ok m"
    and rest: "build eps (mp @ [m]) (mig @ module_Migrations m) mapping1 = Ok (mp', mig', mapping')"
    unfolding build_Cons by blast
  from Cons.IH [OF rest] obtain qs where "mp' = (mp @ [m]) @ qs" "map module_ModuleName qs = eps"
    "\<forall>m \<in> set qs. pending m = {#}" "mig' = (mig @ module_Migrations m) @ concat (map module_Migrations qs)"
    by blast
  with processorByName_Ok [OF m] show ?case by (intro exI [of _ "m # qs"]) simp
qed simp

lemma build_outcome:
  "is_ok (build eps mp mig mapping) \<longleftrightarrow> set eps \<subseteq> set defaultProcessors"
proof (induction eps arbitrary: mp mig mapping)
  case (Cons ep eps)
  show ?case
  proof (cases "processorByName ep")
    case (Ok m)
    then have "ep \<in> set defaultProcessors" using processorByName_known by blast
    with Ok Cons show ?thesis by (simp add: Let_def)
  next
    case (Err e)
    then have "ep \<notin> set defaultProcessors" using processorByName_known [of ep] by simp
    with Err show ?thesis by simp
  qed (simp add: processorByName_no_panic)
qed simp

section \<open>Facts about flushing\<close>

definition complete_for :: "bool \<Rightarrow> module \<Rightarrow> WritebackOp \<Rightarrow> bool" where
  "complete_for u m wo \<longleftrightarrow> wb_Data wo \<noteq> [] \<and> wb_SourceModule wo = module_SDKModuleName m \<and>
     statement_for u m (wb_Type wo) = Ok (wb_Statement wo)"

lemma complete_ops_spec:
  assumes "\<And>entry. entry \<in> set cd \<Longrightarrow> \<exists>st. statement_for (p_useDBUpsert p) m (wb_Type entry) = Ok st"
  shows "\<exists>wb. complete_ops p m cd = Ok wb \<and>
    op_rows wb = image_mset (WithChainName (p_chainName p)) (op_rows cd) \<and>
    (\<forall>wo \<in> set wb. complete_for (p_useDBUpsert p) m wo)"
  using assms
proof (induction cd)
  case (Cons entry cd)
  have "\<exists>wb. complete_ops p m cd = Ok wb \<and>
    op_rows wb = image_mset (WithChainName (p_chainName p)) (op_rows cd) \<and>
    (\<forall>wo \<in> set wb. complete_for (p_useDBUpsert p) m wo)"
    by (rule Cons.IH) (rule Cons.prems, simp)
  then obtain wb where wb: "complete_ops p m cd = Ok wb"
    "op_rows wb = image_mset (WithChainName (p_chainName p)) (op_rows cd)"
    "\<forall>wo \<in> set wb. complete_for (p_useDBUpsert p) m wo" by blast
  obtain st where st: "statement_for (p_useDBUpsert p) m (wb_Type entry) = Ok st"
    using Cons.prems [of entry] by fastforce
  show ?case
  proof (cases "wb_Data entry = []")
    case False
    with wb st show ?thesis by (simp add: complete_for_def)
  qed (use wb in simp)
qed simp

lemma statement_for_flushed:
  assumes "\<forall>i. range_order (ord i)" "wo \<in> set (fst (module_FlushCache ord m))"
  shows "\<exists>st. statement_for u (snd (module_FlushCache ord m)) (wb_Type wo) = Ok st"
proof -
  have "wb_Type wo \<in> {Write, Delete}" using module_flush.flush_types [OF assms] .
  moreover have "\<exists>q. module_DeleteStatement (snd (module_FlushCache ord m)) = Ok q" if "wb_Type wo = Delete"
    using module_flush_delete [OF assms that] by (cases m) simp_all
  ultimately show ?thesis by (auto simp: statement_for_def)
qed

lemma module_flush_statements [simp]:
  "statement_for u (snd (module_FlushCache ord m)) t = statement_for u m t"
  by (cases m) (simp_all add: statement_for_def split: WritebackStatementTypes.split)

lemma complete_for_flushed [simp]:
  "complete_for u (snd (module_FlushCache ord m)) wo = complete_for u m wo"
  by (simp add: complete_for_def)

text \<open>What a module's operations must be: its pending rows, each once, under the chain's name, in operations that carry
  this module's statements and SDK module.\<close>

definition handed_over :: "Processor \<Rightarrow> module \<Rightarrow> WritebackOp list \<Rightarrow> bool" where
  "handed_over p m wb \<longleftrightarrow> op_rows wb = image_mset (WithChainName (p_chainName p)) (pending m) \<and>
     (\<forall>wo \<in> set wb. complete_for (p_useDBUpsert p) m wo)"

fun flushed :: "(nat \<Rightarrow> orders) \<Rightarrow> nat \<Rightarrow> module list \<Rightarrow> module list" where
  "flushed ords i [] = []"
| "flushed ords i (m # ms) = snd (module_FlushCache (ords i) m) # flushed ords (Suc i) ms"

lemma flush_modules_spec:
  assumes "\<forall>i j. range_order (ords i j)"
  shows "\<exists>wbs. flush_modules p ords i ms = Ok (concat wbs, flushed ords i ms) \<and> list_all2 (handed_over p) ms wbs"
proof (induction ms arbitrary: i)
  case (Cons m ms)
  have ord: "\<forall>j. range_order (ords i j)" using assms by blast
  obtain wbs where wbs: "flush_modules p ords (Suc i) ms = Ok (concat wbs, flushed ords (Suc i) ms)"
    "list_all2 (handed_over p) ms wbs"
    using Cons.IH [of "Suc i"] by auto
  obtain cd m' where cd: "module_FlushCache (ords i) m = (cd, m')" by fastforce
  have m': "m' = snd (module_FlushCache (ords i) m)" by (simp add: cd)
  have "\<exists>st. statement_for (p_useDBUpsert p) m' (wb_Type entry) = Ok st" if "entry \<in> set cd" for entry
    using statement_for_flushed [OF ord, of entry m "p_useDBUpsert p"] that cd by simp
  from complete_ops_spec [OF this] obtain wb where wb: "complete_ops p m' cd = Ok wb"
    "op_rows wb = image_mset (WithChainName (p_chainName p)) (op_rows cd)"
    "\<forall>wo \<in> set wb. complete_for (p_useDBUpsert p) m' wo" by blast
  have rows: "op_rows cd = pending m" using module_flush.flush_hands_over [OF ord, of m] cd by simp
  have "handed_over p m wb"
    using wb(2,3) rows unfolding m' handed_over_def by simp
  then show ?case using wb(1) wbs by (intro exI [of _ "wb # wbs"]) (simp add: cd)
qed simp

lemma length_flushed [simp]: "length (flushed ords i ms) = length ms"
  by (induction ords i ms rule: flushed.induct) simp_all

lemma flushed_pending [simp]: "(\<Sum>m \<leftarrow> flushed ords i ms. pending m) = {#}"
  by (induction ords i ms rule: flushed.induct) (simp_all add: module_flush.flush_clears)

definition pending_all :: "Processor \<Rightarrow> entrier multiset" where
  "pending_all p = (\<Sum>m \<leftarrow> p_moduleProcessors p. pending m)"

lemma Flush_handed_over:
  assumes "\<forall>i j. range_order (ords i j)"
  shows "\<exists>wbs. Flush ords p = Ok (concat wbs, p\<lparr>p_moduleProcessors := flushed ords 0 (p_moduleProcessors p)\<rparr>) \<and>
    list_all2 (handed_over p) (p_moduleProcessors p) wbs"
  using flush_modules_spec [OF assms, of p 0 "p_moduleProcessors p"] unfolding Flush_def by auto

lemma op_rows_concat:
  "list_all2 (handed_over p) ms wbs \<Longrightarrow>
    op_rows (concat wbs) = image_mset (WithChainName (p_chainName p)) (\<Sum>m \<leftarrow> ms. pending m)"
proof (induction rule: list_all2_induct)
  case (Cons m ms wb wbs)
  then show ?case by (simp add: handed_over_def)
qed simp

lemma Flush_spec:
  assumes "\<forall>i j. range_order (ords i j)"
  shows "\<exists>wb. Flush ords p = Ok (wb, p\<lparr>p_moduleProcessors := flushed ords 0 (p_moduleProcessors p)\<rparr>) \<and>
    op_rows wb = image_mset (WithChainName (p_chainName p)) (pending_all p)"
  using Flush_handed_over [OF assms, of p] op_rows_concat unfolding pending_all_def by metis

section \<open>Facts about processing\<close>

definition owns :: "env \<Rightarrow> TraceOperation \<Rightarrow> module \<Rightarrow> bool" where
  "owns e data m \<longleftrightarrow> module_OwnsKey e m (vis (top_Key data))"

text \<open>What one trace does to one module: nothing, a new state, or an error.\<close>

definition after_trace :: "env \<Rightarrow> TraceOperation \<Rightarrow> module \<Rightarrow> module" where
  "after_trace e data m =
     (if owns e data m then (case module_Process e m data of Ok m' \<Rightarrow> m' | _ \<Rightarrow> m) else m)"

definition trace_errors :: "env \<Rightarrow> TraceOperation \<Rightarrow> module \<Rightarrow> tracing_error list" where
  "trace_errors e data m =
     (if owns e data m
      then (case module_Process e m data of Err err \<Rightarrow> [(module_ModuleName m, err, data)] | _ \<Rightarrow> []) else [])"

definition survives :: "env \<Rightarrow> TraceOperation \<Rightarrow> module \<Rightarrow> bool" where
  "survives e data m \<longleftrightarrow> owns e data m \<longrightarrow> \<not> is_panic (module_Process e m data)"

lemma and_then_pair [simp]: "and_then r (\<lambda>(a, b). Ok (a, b)) = r"
  by (cases r) auto

lemma and_then_Ok_id [simp]: "and_then r Ok = r"
  by (cases r) auto

lemma processData_step:
  assumes "survives e data (ms ! i)"
  shows "processData e (i # js) data ms =
    and_then (processData e js data (ms[i := after_trace e data (ms ! i)])) (\<lambda>(errs, ms').
      Ok (trace_errors e data (ms ! i) @ errs, ms'))"
proof (cases "owns e data (ms ! i)")
  case False
  then have "after_trace e data (ms ! i) = ms ! i" "trace_errors e data (ms ! i) = []"
    by (simp_all add: after_trace_def trace_errors_def)
  with False show ?thesis by (simp add: owns_def)
next
  case True
  show ?thesis
  proof (cases "module_Process e (ms ! i) data")
    case (Ok m')
    then have "after_trace e data (ms ! i) = m'" "trace_errors e data (ms ! i) = []"
      using True by (simp_all add: after_trace_def trace_errors_def)
    with Ok True show ?thesis by (simp add: owns_def)
  next
    case (Err err)
    then have "after_trace e data (ms ! i) = ms ! i"
      "trace_errors e data (ms ! i) = [(module_ModuleName (ms ! i), err, data)]"
      using True by (simp_all add: after_trace_def trace_errors_def)
    with Err True show ?thesis by (simp add: owns_def)
  qed (use assms True in \<open>simp add: survives_def\<close>)
qed

lemma processData_spec:
  assumes "distinct js" "\<forall>i \<in> set js. i < length ms \<and> survives e data (ms ! i)"
  shows "processData e js data ms =
    Ok (concat (map (\<lambda>i. trace_errors e data (ms ! i)) js),
        map (\<lambda>i. if i \<in> set js then after_trace e data (ms ! i) else ms ! i) [0..<length ms])"
  using assms
proof (induction js arbitrary: ms)
  case Nil
  then show ?case by (simp add: map_nth)
next
  case (Cons i js)
  let ?ms = "ms[i := after_trace e data (ms ! i)]"
  have i: "i < length ms" "i \<notin> set js" "survives e data (ms ! i)" using Cons.prems by auto
  have same: "?ms ! j = ms ! j" if "j \<in> set js" for j using i that by (metis nth_list_update_neq)
  have "\<forall>j \<in> set js. j < length ?ms \<and> survives e data (?ms ! j)"
    using Cons.prems(2) same by simp
  with Cons.prems(1) have IH: "processData e js data ?ms =
      Ok (concat (map (\<lambda>i. trace_errors e data (?ms ! i)) js),
          map (\<lambda>i. if i \<in> set js then after_trace e data (?ms ! i) else ?ms ! i) [0..<length ?ms])"
    by (intro Cons.IH) simp_all
  have errs: "map (\<lambda>i. trace_errors e data (?ms ! i)) js = map (\<lambda>i. trace_errors e data (ms ! i)) js"
    using same by simp
  have upd: "map (\<lambda>j. if j \<in> set js then after_trace e data (?ms ! j) else ?ms ! j) [0..<length ?ms] =
      map (\<lambda>j. if j \<in> set (i # js) then after_trace e data (ms ! j) else ms ! j) [0..<length ms]"
    using i by (intro nth_equalityI) (auto simp: nth_list_update)
  show ?case
    unfolding processData_step [OF i(3)] IH errs upd and_then.simps prod.case list.map concat.simps ..
qed

lemma processorList_valid:
  assumes "mapping_ok (p_moduleProcessors p) (p_sdkModuleMapping p)"
  shows "distinct (processorList p data)" "\<forall>i \<in> set (processorList p data). i < length (p_moduleProcessors p)"
proof -
  have "processorList p data = [0..<length (p_moduleProcessors p)] \<or>
    processorList p data = indices (p_moduleProcessors p) (top_SuggestedProcessor data)"
    using assms by (auto simp: processorList_def mapping_ok_def)
  then show "distinct (processorList p data)"
    "\<forall>i \<in> set (processorList p data). i < length (p_moduleProcessors p)"
    by (auto simp: indices_def)
qed

text \<open>The modules that a trace concerns: all of them, or those of the suggested SDK module when there
  is one and it has any.\<close>

definition concerned :: "Processor \<Rightarrow> TraceOperation \<Rightarrow> module \<Rightarrow> bool" where
  "concerned p data m \<longleftrightarrow>
     top_SuggestedProcessor data = [] \<or> module_SDKModuleName m = top_SuggestedProcessor data \<or>
     (\<forall>m' \<in> set (p_moduleProcessors p). module_SDKModuleName m' \<noteq> top_SuggestedProcessor data)"

lemma processorList_concerned:
  assumes "mapping_ok (p_moduleProcessors p) (p_sdkModuleMapping p)"
  shows "processorList p data =
    filter (\<lambda>i. concerned p data (p_moduleProcessors p ! i)) [0..<length (p_moduleProcessors p)]"
proof (cases "top_SuggestedProcessor data = [] \<or> indices (p_moduleProcessors p) (top_SuggestedProcessor data) = []")
  case True
  then have "concerned p data (p_moduleProcessors p ! i)" if "i < length (p_moduleProcessors p)" for i
    using that by (auto simp: concerned_def indices_def filter_empty_conv in_set_conv_nth)
  then have "filter (\<lambda>i. concerned p data (p_moduleProcessors p ! i)) [0..<length (p_moduleProcessors p)]
      = [0..<length (p_moduleProcessors p)]" by (intro filter_True) simp
  with True assms show ?thesis by (auto simp: processorList_def mapping_ok_def)
next
  case False
  then have "\<exists>m' \<in> set (p_moduleProcessors p). module_SDKModuleName m' = top_SuggestedProcessor data"
    by (auto simp: indices_def filter_empty_conv)
  then have "concerned p data m \<longleftrightarrow> module_SDKModuleName m = top_SuggestedProcessor data" for m
    using False by (auto simp: concerned_def)
  with False assms show ?thesis by (simp add: processorList_def mapping_ok_def indices_def)
qed

lemma ProcessData_spec:
  assumes "mapping_ok (p_moduleProcessors p) (p_sdkModuleMapping p)"
    and "\<forall>m \<in> set (p_moduleProcessors p). concerned p data m \<longrightarrow> survives e data m"
  shows "ProcessData e data p =
    Ok (concat (map (trace_errors e data) (filter (concerned p data) (p_moduleProcessors p))),
        p\<lparr>p_moduleProcessors := map (\<lambda>m. if concerned p data m then after_trace e data m else m)
            (p_moduleProcessors p)\<rparr>)"
proof -
  let ?ms = "p_moduleProcessors p"
  let ?js = "processorList p data"
  have js: "?js = filter (\<lambda>i. concerned p data (?ms ! i)) [0..<length ?ms]"
    using processorList_concerned [OF assms(1)] .
  have "\<forall>i \<in> set ?js. i < length ?ms \<and> survives e data (?ms ! i)"
    using assms(2) by (auto simp: js)
  from processData_spec [OF processorList_valid(1) [OF assms(1)] this]
  have "processData e ?js data ?ms =
    Ok (concat (map (\<lambda>i. trace_errors e data (?ms ! i)) ?js),
        map (\<lambda>i. if i \<in> set ?js then after_trace e data (?ms ! i) else ?ms ! i) [0..<length ?ms])" .
  moreover have "map (\<lambda>i. trace_errors e data (?ms ! i)) ?js =
      map (trace_errors e data) (filter (concerned p data) ?ms)"
  proof -
    have "map ((!) ?ms) ?js = filter (concerned p data) (map ((!) ?ms) [0..<length ?ms])"
      unfolding js filter_map by (simp add: comp_def)
    then have pick: "map ((!) ?ms) ?js = filter (concerned p data) ?ms" by (simp only: map_nth)
    have "map (\<lambda>i. trace_errors e data (?ms ! i)) ?js = map (trace_errors e data) (map ((!) ?ms) ?js)"
      by simp
    then show ?thesis unfolding pick .
  qed
  moreover have "map (\<lambda>i. if i \<in> set ?js then after_trace e data (?ms ! i) else ?ms ! i) [0..<length ?ms] =
      map (\<lambda>m. if concerned p data m then after_trace e data m else m) ?ms"
    by (rule nth_equalityI) (simp_all add: js)
  ultimately show ?thesis by (simp add: ProcessData_def)
qed

section \<open>Properties\<close>

definition enabled_of :: "string list option \<Rightarrow> string list" where
  "enabled_of ps = (case ps of None \<Rightarrow> defaultProcessors | Some ps \<Rightarrow> ps)"

text \<open>C12. \<open>New\<close> builds the enabled modules in the order of the configuration (all of them when none is
  configured), empty, with their migrations and with each module reachable under its SDK module; it
  fails exactly when a configured name is unknown, and never panics.\<close>

theorem New_builds:
  "case New ps chain of
     Ok p \<Rightarrow> map module_ModuleName (p_moduleProcessors p) = enabled_of ps \<and> pending_all p = {#} \<and>
       p_migrations p = concat (map module_Migrations (p_moduleProcessors p)) \<and>
       mapping_ok (p_moduleProcessors p) (p_sdkModuleMapping p) \<and>
       p_chainName p = chain \<and> p_lastHeight p = 0
   | Err e \<Rightarrow> \<not> set (enabled_of ps) \<subseteq> set defaultProcessors
   | Panic q \<Rightarrow> False"
proof (cases "build (enabled_of ps) [] [] []")
  case (Ok r)
  obtain mp mig mapping where r: "r = (mp, mig, mapping)" by (cases r)
  from build_modules [OF Ok [unfolded r]] have "map module_ModuleName mp = enabled_of ps"
    "mig = concat (map module_Migrations mp)" and p: "\<forall>m \<in> set mp. pending m = {#}" by auto
  moreover have "(\<Sum>m \<leftarrow> mp. pending m) = {#}" using p by (induction mp) simp_all
  moreover have "mapping_ok mp mapping" using build_mapping [OF Ok [unfolded r] mapping_ok_Nil] .
  ultimately show ?thesis
    using Ok by (simp add: New_def r enabled_of_def pending_all_def)
next
  case (Err e)
  with build_outcome [of "enabled_of ps" "[]" "[]" "[]"] show ?thesis
    by (simp add: New_def enabled_of_def)
next
  case (Panic q)
  have "build eps mp mig m \<noteq> Panic q" for eps mp mig m
    by (induction eps arbitrary: mp mig m) (simp_all add: and_then_Panic processorByName_no_panic Let_def)
  with Panic show ?thesis by simp
qed

text \<open>C6. A flush never panics. The batch is made of one part for each module, in the order of the modules: it hands
  over every row pending in that module once, under the chain's name, in operations that are not empty and
  carry that module's statement for their kind and that module's SDK module. Nothing stays pending.\<close>

theorem Flush_hands_over:
  assumes "\<forall>i j. range_order (ords i j)"
  shows "\<exists>wbs p'. Flush ords p = Ok (concat wbs, p') \<and>
    list_all2 (handed_over p) (p_moduleProcessors p) wbs \<and>
    pending_all p' = {#} \<and> p_lastHeight p' = p_lastHeight p"
  using Flush_handed_over [OF assms, of p] by (force simp: pending_all_def)

definition sample_processor :: Processor where
  "sample_processor = \<lparr>p_migrations = [], p_lastHeight = 4, p_chainName = ''cosmos-hub'',
     p_moduleProcessors =
       [MBank \<lparr>bp_heightCache = [((''aa'', ''uatom''), BalanceRow_at 4 ''aa'' ''7uatom'' ''uatom'')]\<rparr>,
        MDelegations \<lparr>dep_insertHeightCache = [],
          dep_deleteHeightCache = [((''bb'', ''aa''), DelegationRow_at 4 ''aa'' ''bb'' [])]\<rparr>],
     p_sdkModuleMapping = [(''bank'', [0]), (''staking'', [1])], p_useDBUpsert = True\<rparr>"

theorem Flush_hands_over_witness:
  "\<exists>wbs p'. Flush (\<lambda>_ _. forward) sample_processor = Ok (concat wbs, p') \<and>
    list_all2 (handed_over sample_processor) (p_moduleProcessors sample_processor) wbs \<and>
    pending_all p' = {#} \<and> p_lastHeight p' = p_lastHeight sample_processor"
  by (rule Flush_hands_over) simp

text \<open>C7. A trace reaches the modules of the SDK module it suggests, or all modules when it suggests
  none or one that has no module; among these, each that owns the key processes it once, and each error
  is reported with the module's name. No other module changes.\<close>

theorem ProcessData_routes:
  assumes "mapping_ok (p_moduleProcessors p) (p_sdkModuleMapping p)"
    and "\<forall>m \<in> set (p_moduleProcessors p). concerned p data m \<longrightarrow> survives e data m"
  shows "ProcessData e data p =
    Ok (concat (map (trace_errors e data) (filter (concerned p data) (p_moduleProcessors p))),
        p\<lparr>p_moduleProcessors := map (\<lambda>m. if concerned p data m then after_trace e data m else m)
            (p_moduleProcessors p)\<rparr>)"
  using assms by (rule ProcessData_spec)

definition sample_handler :: Handler where
  "sample_handler =
     \<lparr>h_keys = \<lparr>BankKey = [2], AuthKey = [1], DelegationKey = [0x31], IBCChannelKey = ''channelEnds'',
        IBCClientsKey = ''clientState'', IBCConnectionsKey = ''connections'', IBCDenomTracesKey = [2],
        UnbondingDelegationKey = [0x32], UnbondingDelegationByValidatorKey = [0x33], ValidatorsKey = [0x21]\<rparr>,
      h_UnbondingDelegationKeys = [[0x32], [0x33]], h_DecodeAndConvert = (\<lambda>_. Err ''bech32''),
      h_Bank = (\<lambda>d. Ok (BalanceRow_at (top_BlockHeight d) ''aa'' ''7uatom'' ''uatom'')),
      h_Auth = (\<lambda>_. Err ''auth''), h_Delegations = (\<lambda>_. Err ''delegation''),
      h_IBCChannels = (\<lambda>_. Err ''channel''), h_IBCClients = (\<lambda>_. Err ''client''),
      h_IBCConnections = (\<lambda>_. Err ''connection''), h_IBCDenomTraces = (\<lambda>_. Err ''denom trace''),
      h_UnbondingDelegations = (\<lambda>_. Err ''unbonding''), h_Validators = (\<lambda>_. Err ''validator'')\<rparr>"

definition sample_env :: env where
  "sample_env = \<lparr>handler = sample_handler, scan = (\<lambda>_. Err ''json'')\<rparr>"

definition sample_trace :: TraceOperation where
  "sample_trace = \<lparr>top_Operation = ''write'', top_Key = Slice [2, 1, 7] [], top_Value = [1],
     top_BlockHeight = 5, top_TxHash = ''AB'', top_SuggestedProcessor = []\<rparr>"

lemma sample_ok:
  "mapping_ok (p_moduleProcessors sample_processor) (p_sdkModuleMapping sample_processor)"
  "\<forall>m \<in> set (p_moduleProcessors sample_processor). survives sample_env sample_trace m"
  by (auto simp: mapping_ok_def indices_def sample_processor_def upt_conv_Cons bank_SDKModuleName_def
      Bank_def delegations_SDKModuleName_def Staking_def survives_def owns_def sample_env_def
      sample_handler_def sample_trace_def bank_Process_def delegations_OwnsKey_def)

theorem ProcessData_routes_witness:
  "ProcessData sample_env sample_trace sample_processor =
    Ok (concat (map (trace_errors sample_env sample_trace)
          (filter (concerned sample_processor sample_trace) (p_moduleProcessors sample_processor))),
        sample_processor\<lparr>p_moduleProcessors :=
          map (\<lambda>m. if concerned sample_processor sample_trace m then after_trace sample_env sample_trace m else m)
            (p_moduleProcessors sample_processor)\<rparr>)"
  by (rule ProcessData_routes) (use sample_ok in blast)+

text \<open>C13. A module added after construction is refused exactly when its name is taken, and nothing changes then.
  Otherwise it becomes the last module and nothing else changes: it receives traces with no
  suggestion or a suggestion that nobody answers to, but never one whose suggestion is mapped, even to its
  own SDK module.\<close>

theorem AddModule_unmapped:
  "if module_ModuleName m \<in> set (map module_ModuleName (p_moduleProcessors p))
   then AddModule m p = Err (''cannot add module '' @ module_ModuleName m @ '' more than one time'')
   else \<exists>p'. AddModule m p = Ok p' \<and> p' = p\<lparr>p_moduleProcessors := p_moduleProcessors p @ [m]\<rparr> \<and>
     (\<forall>data. processorList p' data =
       (if top_SuggestedProcessor data \<noteq> [] \<and> map_of (p_sdkModuleMapping p) (top_SuggestedProcessor data) \<noteq> None
        then processorList p data
        else processorList p data @ [length (p_moduleProcessors p)]))"
proof -
  have taken: "list_ex (\<lambda>em. module_ModuleName em = module_ModuleName m) (p_moduleProcessors p) \<longleftrightarrow>
      module_ModuleName m \<in> set (map module_ModuleName (p_moduleProcessors p))"
    by (auto simp: list_ex_iff intro: rev_image_eqI)
  have "processorList (p\<lparr>p_moduleProcessors := p_moduleProcessors p @ [m]\<rparr>) data =
       (if top_SuggestedProcessor data \<noteq> [] \<and> map_of (p_sdkModuleMapping p) (top_SuggestedProcessor data) \<noteq> None
        then processorList p data
        else processorList p data @ [length (p_moduleProcessors p)])" for data
    by (auto simp: processorList_def split: option.splits)
  then show ?thesis unfolding AddModule_def taken by simp
qed

end
