(* ===== verification/Store.thy ===== *)
theory Store
  imports Sql_Gen Models
begin

text \<open>
  What the generated statements do to a table, read off their SQL text: an insert that fails on a
  row with the same unique columns, an insert whose \<open>ON CONFLICT\<close> clause replaces an older row and
  leaves a row of the same or a later height alone, and an update that marks the live row with the
  given unique columns as deleted. A table is a map from the values of its unique columns to the
  values of its columns. The serial \<open>id\<close> is not represented. A statement binds the named parameters
  of its text to the \<open>db\<close>-tagged fields of the row, and fails as a whole or not at all; \<open>fault\<close> says whether
  it fails for a reason that is not in the statement, as a lost connection.
\<close>

section \<open>Rows and tables\<close>

type_synonym db_row = "string \<rightharpoonup> sqlval"
type_synonym table_state = "sqlval list \<rightharpoonup> db_row"

definition arg :: "entrier \<Rightarrow> string \<rightharpoonup> sqlval" where
  "arg e = map_of (db_args e)"

definition bound :: "entrier \<Rightarrow> string list \<Rightarrow> bool" where
  "bound e ps \<longleftrightarrow> list_all (\<lambda>p. arg e p \<noteq> None) ps"

definition unique_key :: "TableConfig \<Rightarrow> entrier \<Rightarrow> sqlval list" where
  "unique_key cfg e = map (\<lambda>c. the (arg e c)) (tc_UniqueColumns cfg)"

definition stored_columns :: "TableConfig \<Rightarrow> string list" where
  "stored_columns cfg = map col_Name (filter (\<lambda>c. \<not> col_Primary c) (tc_Columns cfg))"

definition new_row :: "TableConfig \<Rightarrow> entrier \<Rightarrow> db_row" where
  "new_row cfg e =
     (\<lambda>c. if c \<in> set (InsertColumns cfg) then arg e c
           else if c \<in> set (stored_columns cfg) then Some Null else None)"

text \<open>A comparison with \<open>NULL\<close> does not hold.\<close>

fun height_less :: "sqlval option \<Rightarrow> sqlval option \<Rightarrow> bool" where
  "height_less (Some (UInt a)) (Some (UInt b)) = (a < b)"
| "height_less _ _ = False"

section \<open>One row\<close>

definition insert_row :: "TableConfig \<Rightarrow> entrier \<Rightarrow> table_state \<Rightarrow> table_state outcome" where
  "insert_row cfg e T =
     (case T (unique_key cfg e) of
        None \<Rightarrow> Ok (T(unique_key cfg e \<mapsto> new_row cfg e))
      | Some old \<Rightarrow> Err ''duplicate key value violates unique constraint'')"

definition overwrite :: "TableConfig \<Rightarrow> entrier \<Rightarrow> db_row \<Rightarrow> db_row" where
  "overwrite cfg e old =
     (\<lambda>c. if c \<in> set (InsertColumns cfg) then arg e c
           else if c = ''delete_height'' then Some Null else old c)"

definition upsert_row :: "TableConfig \<Rightarrow> entrier \<Rightarrow> table_state \<Rightarrow> table_state" where
  "upsert_row cfg e T =
     (case T (unique_key cfg e) of
        None \<Rightarrow> T(unique_key cfg e \<mapsto> new_row cfg e)
      | Some old \<Rightarrow>
          if height_less (old ''height'') (arg e ''height'')
          then T(unique_key cfg e \<mapsto> overwrite cfg e old) else T)"

definition delete_row :: "TableConfig \<Rightarrow> entrier \<Rightarrow> table_state \<Rightarrow> table_state" where
  "delete_row cfg e T =
     (case T (unique_key cfg e) of
        None \<Rightarrow> T
      | Some old \<Rightarrow>
          if old ''delete_height'' = Some Null
          then T(unique_key cfg e \<mapsto> old(''delete_height'' := arg e ''height'', ''height'' := arg e ''height''))
          else T)"

section \<open>A statement with its rows\<close>

datatype stmt_kind = KInsert | KUpsert | KDelete

definition stmt_params :: "stmt_kind \<Rightarrow> TableConfig \<Rightarrow> string list" where
  "stmt_params k cfg =
     (case k of KDelete \<Rightarrow> ''height'' # tc_UniqueColumns cfg | _ \<Rightarrow> InsertColumns cfg)"

fun insert_rows :: "TableConfig \<Rightarrow> entrier list \<Rightarrow> table_state \<Rightarrow> table_state outcome" where
  "insert_rows cfg [] T = Ok T"
| "insert_rows cfg (e # es) T = and_then (insert_row cfg e T) (insert_rows cfg es)"

text \<open>The binder repeats the \<open>VALUES\<close> list once per row; an update has no such list and takes one
  row. An \<open>ON CONFLICT\<close> clause may not touch the same row twice within one statement.\<close>

definition exec_rows :: "stmt_kind \<Rightarrow> TableConfig \<Rightarrow> entrier list \<Rightarrow> table_state \<Rightarrow> table_state outcome" where
  "exec_rows k cfg es T =
     (if \<not> list_all (\<lambda>e. bound e (stmt_params k cfg)) es then Err ''could not find name''
      else case k of
        KInsert \<Rightarrow> insert_rows cfg es T
      | KUpsert \<Rightarrow>
          if distinct (map (unique_key cfg) es) then Ok (fold (upsert_row cfg) es T)
          else Err ''ON CONFLICT DO UPDATE command cannot affect row a second time''
      | KDelete \<Rightarrow>
          (case es of [e] \<Rightarrow> Ok (delete_row cfg e T) | _ \<Rightarrow> Err ''more than one row''))"

section \<open>Databases\<close>

type_synonym database = "string \<Rightarrow> table_state"

definition empty_db :: database where
  "empty_db = (\<lambda>t. Map.empty)"

text \<open>The statements of a schema: their text determines the kind of the statement and its table.\<close>

definition statements :: "(string \<times> TableConfig) list \<Rightarrow> (string \<times> stmt_kind \<times> string \<times> TableConfig) list" where
  "statements schema =
     concat (map (\<lambda>(t, cfg). [(gt_Insert (generated cfg t), KInsert, t, cfg),
                              (gt_Upsert (generated cfg t), KUpsert, t, cfg),
                              (gt_Delete (generated cfg t), KDelete, t, cfg)]) schema)"

text \<open>The binder sends one parameter per named placeholder of the text and row; the wire protocol counts
  them in sixteen bits. The text of a deletion has the height twice.\<close>

definition placeholders :: "stmt_kind \<Rightarrow> TableConfig \<Rightarrow> nat" where
  "placeholders k cfg =
     (case k of KDelete \<Rightarrow> 2 + length (tc_UniqueColumns cfg) | _ \<Rightarrow> length (InsertColumns cfg))"

text \<open>A statement may also fail for reasons of the connection or of the server; then it has no effect.\<close>

type_synonym fault = "string option"

definition NamedExec ::
    "fault \<Rightarrow> (string \<times> TableConfig) list \<Rightarrow> string \<Rightarrow> entrier list \<Rightarrow> database \<Rightarrow> database outcome" where
  "NamedExec failure schema query es db =
     (case failure of
        Some err \<Rightarrow> Err err
      | None \<Rightarrow> (case map_of (statements schema) query of
          None \<Rightarrow> Err ''syntax error''
        | Some (k, t, cfg) \<Rightarrow>
            if placeholders k cfg * length es > 65535
            then Err ''extended protocol limited to 65535 parameters''
            else and_then (exec_rows k cfg es (db t)) (\<lambda>T. Ok (db(t := T)))))"

section \<open>Well-formed descriptions and tables\<close>

text \<open>The height is inserted, the deletion mark is not, and every stored column is one of the two;
  the unique columns are inserted and the height is not one of them.\<close>

definition config_ok :: "TableConfig \<Rightarrow> bool" where
  "config_ok cfg \<longleftrightarrow>
     ''height'' \<in> set (InsertColumns cfg) \<and> ''delete_height'' \<notin> set (InsertColumns cfg) \<and>
     ''delete_height'' \<in> set (stored_columns cfg) \<and>
     set (stored_columns cfg) \<subseteq> insert ''delete_height'' (set (InsertColumns cfg)) \<and>
     set (InsertColumns cfg) \<subseteq> set (stored_columns cfg) \<and>
     set (tc_UniqueColumns cfg) \<subseteq> set (InsertColumns cfg) - {''height''}"

definition table_ok :: "TableConfig \<Rightarrow> table_state \<Rightarrow> bool" where
  "table_ok cfg T \<longleftrightarrow> config_ok cfg \<and>
     (\<forall>k r. T k = Some r \<longrightarrow> dom r = set (stored_columns cfg) \<and> (\<exists>h. r ''height'' = Some (UInt h)))"

definition row_height :: "db_row \<Rightarrow> u64" where
  "row_height r = (case r ''height'' of Some (UInt h) \<Rightarrow> h | _ \<Rightarrow> 0)"

definition entry_height :: "entrier \<Rightarrow> u64" where
  "entry_height e = Height (base_row e)"

lemma arg_height [simp]: "arg e ''height'' = Some (UInt (entry_height e))"
  by (simp add: arg_def db_args_def base_args_def entry_height_def)

lemma overwrite_new_row:
  assumes "config_ok cfg" "dom old = set (stored_columns cfg)"
  shows "overwrite cfg e old = new_row cfg e"
proof
  fix c
  show "overwrite cfg e old c = new_row cfg e c"
    using assms by (auto simp: overwrite_def new_row_def config_ok_def domIff)
qed

lemma new_row_height [simp]:
  "config_ok cfg \<Longrightarrow> new_row cfg e ''height'' = Some (UInt (entry_height e))"
  by (simp add: new_row_def config_ok_def)

lemma new_row_live [simp]: "config_ok cfg \<Longrightarrow> new_row cfg e ''delete_height'' = Some Null"
  by (auto simp: new_row_def config_ok_def)

lemma dom_new_row:
  assumes "config_ok cfg" "bound e (InsertColumns cfg)"
  shows "dom (new_row cfg e) = set (stored_columns cfg)"
  using assms by (auto simp: new_row_def config_ok_def bound_def list_all_iff split: if_splits)

section \<open>Guarded writes\<close>

text \<open>
  The contract of a store whose writes carry a height: a write to a key replaces what is there when
  its height is larger and is dropped otherwise. Whatever keeps the contract ends in the same state
  in whatever order the writes of one key arrive.
\<close>

locale height_guarded =
  fixes put :: "'e \<Rightarrow> 't \<Rightarrow> 't"
    and key :: "'e \<Rightarrow> 'k"
    and stamp :: "'e \<Rightarrow> 'h::linorder"
    and image :: "'e \<Rightarrow> 'r"
    and get :: "'t \<Rightarrow> 'k \<Rightarrow> 'r option"
    and age :: "'r \<Rightarrow> 'h"
    and invar :: "'t \<Rightarrow> bool"
    and good :: "'e \<Rightarrow> bool"
  assumes get_other: "invar t \<Longrightarrow> good e \<Longrightarrow> k \<noteq> key e \<Longrightarrow> get (put e t) k = get t k"
    and get_same: "invar t \<Longrightarrow> good e \<Longrightarrow> get (put e t) (key e) =
      (case get t (key e) of None \<Rightarrow> Some (image e)
       | Some r \<Rightarrow> if age r < stamp e then Some (image e) else Some r)"
    and age_image: "invar t \<Longrightarrow> good e \<Longrightarrow> age (image e) = stamp e"
    and invar_put: "invar t \<Longrightarrow> good e \<Longrightarrow> invar (put e t)"
begin

lemma invar_fold: "invar t \<Longrightarrow> \<forall>e \<in> set es. good e \<Longrightarrow> invar (fold put es t)"
  by (induction es arbitrary: t) (auto simp: invar_put)

lemma get_fold_other:
  "invar t \<Longrightarrow> \<forall>e \<in> set es. good e \<Longrightarrow> k \<notin> key ` set es \<Longrightarrow> get (fold put es t) k = get t k"
  by (induction es arbitrary: t) (auto simp: invar_put get_other)

lemma age_fold_mono:
  "invar t \<Longrightarrow> \<forall>e \<in> set es. good e \<Longrightarrow> get t k = Some r \<Longrightarrow>
   \<exists>r'. get (fold put es t) k = Some r' \<and> (r' = r \<or> age r < age r')"
proof (induction es arbitrary: t r)
  case Nil
  then show ?case by simp
next
  case (Cons e es)
  have inv: "invar (put e t)" and goods: "\<forall>e \<in> set es. good e"
    using Cons.prems by (simp_all add: invar_put)
  show ?case
  proof (cases "k = key e \<and> age r < stamp e")
    case True
    then have "get (put e t) k = Some (image e)"
      using Cons.prems by (simp add: get_same)
    from Cons.IH [OF inv goods this] show ?thesis
      using True Cons.prems(1,2) age_image [of t e] by fastforce
  next
    case False
    then have "get (put e t) k = Some r"
      using Cons.prems by (cases "k = key e") (simp_all add: get_same get_other)
    from Cons.IH [OF inv goods this] show ?thesis by auto
  qed
qed

text \<open>The writes of one key leave a row at least as young as each of them.\<close>

lemma fold_at_least:
  "invar t \<Longrightarrow> \<forall>e \<in> set es. good e \<Longrightarrow> e \<in> set es \<Longrightarrow>
   \<exists>r. get (fold put es t) (key e) = Some r \<and> stamp e \<le> age r"
proof (induction es arbitrary: t)
  case Nil
  then show ?case by simp
next
  case (Cons x xs)
  have inv: "invar (put x t)" and goods: "\<forall>e \<in> set xs. good e"
    using Cons.prems by (simp_all add: invar_put)
  show ?case
  proof (cases "e \<in> set xs")
    case True
    with Cons.IH [OF inv goods] show ?thesis by simp
  next
    case False
    with Cons.prems have e: "e = x" by simp
    obtain r where r: "get (put x t) (key x) = Some r" "stamp x \<le> age r"
      using Cons.prems(1,2) age_image [of t x] get_same [of t x]
      by (cases "get t (key x)"; fastforce split: if_splits)
    from age_fold_mono [OF inv goods r(1)] r(2) show ?thesis
      by (auto simp: e)
  qed
qed

lemma fold_comes_from:
  "invar t \<Longrightarrow> \<forall>e \<in> set es. good e \<Longrightarrow> get (fold put es t) k = Some r \<Longrightarrow>
   get t k = Some r \<or> (\<exists>e \<in> set es. key e = k \<and> r = image e)"
proof (induction es arbitrary: t)
  case Nil
  then show ?case by simp
next
  case (Cons e es)
  have inv: "invar (put e t)" and goods: "\<forall>e \<in> set es. good e"
    using Cons.prems by (simp_all add: invar_put)
  from Cons.IH [OF inv goods] Cons.prems(3)
  have "get (put e t) k = Some r \<or> (\<exists>e \<in> set es. key e = k \<and> r = image e)" by simp
  then show ?case
    using Cons.prems(1,2)
    by (cases "k = key e") (auto simp: get_other get_same split: option.splits if_splits)
qed

text \<open>The youngest put wins.\<close>

lemma fold_youngest:
  assumes "invar t" "\<forall>e \<in> set es. good e" "e \<in> set es"
    and young: "\<forall>e' \<in> set es. key e' = key e \<longrightarrow> e' = e \<or> stamp e' < stamp e"
    and fresh: "\<forall>r. get t (key e) = Some r \<longrightarrow> age r < stamp e"
  shows "get (fold put es t) (key e) = Some (image e)"
proof -
  obtain r where r: "get (fold put es t) (key e) = Some r" "stamp e \<le> age r"
    using fold_at_least [OF assms(1-3)] by blast
  from fold_comes_from [OF assms(1,2) r(1)] show ?thesis
  proof
    assume "get t (key e) = Some r"
    with fresh r(2) show ?thesis by fastforce
  next
    assume "\<exists>e' \<in> set es. key e' = key e \<and> r = image e'"
    then obtain e' where e': "e' \<in> set es" "key e' = key e" "r = image e'" by blast
    have "age (image e') = stamp e'" using assms(1,2) e'(1) by (simp add: age_image)
    with young e' r show ?thesis by force
  qed
qed

text \<open>Order does not matter when the heights of one key differ.\<close>

lemma fold_order:
  assumes t: "invar t" and good: "\<forall>e \<in> set es. good e" and perm: "mset es' = mset es"
    and apart: "\<forall>e \<in> set es. \<forall>e' \<in> set es. key e = key e' \<and> stamp e = stamp e' \<longrightarrow> e = e'"
  shows "get (fold put es' t) k = get (fold put es t) k"
proof -
  have same: "set es' = set es" using perm by (rule mset_eq_setD)
  then have good': "\<forall>e \<in> set es'. good e" using good by simp
  show ?thesis
  proof (cases "k \<in> key ` set es")
    case False
    then show ?thesis using get_fold_other t good good' same by simp
  next
    case True
    then obtain e0 where e0: "e0 \<in> set es" "key e0 = k" by blast
    obtain r where r: "get (fold put es t) k = Some r" "\<forall>e \<in> set es. key e = k \<longrightarrow> stamp e \<le> age r"
      using fold_at_least [OF t good] e0 by (metis option.inject)
    obtain r' where r': "get (fold put es' t) k = Some r'" "\<forall>e \<in> set es. key e = k \<longrightarrow> stamp e \<le> age r'"
      using fold_at_least [OF t good'] e0 same by (metis option.inject)
    have from_r: "get t k = Some r \<or> (\<exists>e \<in> set es. key e = k \<and> r = image e)"
      using fold_comes_from [OF t good r(1)] .
    have from_r': "get t k = Some r' \<or> (\<exists>e \<in> set es. key e = k \<and> r' = image e)"
      using fold_comes_from [OF t good' r'(1)] same by simp
    have img: "\<forall>e \<in> set es. age (image e) = stamp e" using age_image t good by blast
    have old: "r' = r \<or> age r < age r'" if "get t k = Some r"
      using age_fold_mono [OF t good' that] r'(1) by auto
    have old': "r = r' \<or> age r' < age r" if "get t k = Some r'"
      using age_fold_mono [OF t good that] r(1) by auto
    have "r = r'"
      using from_r from_r'
    proof (elim disjE bexE conjE)
      fix e e' assume e: "e \<in> set es" "key e = k" "r = image e"
        and e': "e' \<in> set es" "key e' = k" "r' = image e'"
      have "stamp e' \<le> stamp e" using r(2) e e' img by auto
      moreover have "stamp e \<le> stamp e'" using r'(2) e e' img by auto
      ultimately have "e = e'" using apart e e' by (metis order_antisym)
      then show ?thesis using e e' by simp
    next
      fix e assume q: "get t k = Some r" and e: "e \<in> set es" "key e = k" "r' = image e"
      then have "age r' \<le> age r" using r(2) img by simp
      with old [OF q] show ?thesis by auto
    next
      fix e assume q: "get t k = Some r'" and e: "e \<in> set es" "key e = k" "r = image e"
      then have "age r \<le> age r'" using r'(2) img by simp
      with old' [OF q] show ?thesis by auto
    qed simp_all
    with r r' show ?thesis by simp
  qed
qed

end

lemma table_ok_insert:
  assumes "table_ok cfg T" "bound e (InsertColumns cfg)"
  shows "table_ok cfg (T(k \<mapsto> new_row cfg e))"
  using assms dom_new_row [of cfg e] by (auto simp: table_ok_def)

lemma table_ok_row:
  assumes "table_ok cfg T" "T k = Some r"
  shows "config_ok cfg" "dom r = set (stored_columns cfg)" "r ''height'' = Some (UInt (row_height r))"
proof -
  show "config_ok cfg" "dom r = set (stored_columns cfg)"
    using assms by (auto simp: table_ok_def)
  from assms have "\<exists>h. r ''height'' = Some (UInt h)" unfolding table_ok_def by blast
  then obtain h where "r ''height'' = Some (UInt h)" ..
  then show "r ''height'' = Some (UInt (row_height r))" by (simp add: row_height_def)
qed

text \<open>An upsert into a well-formed table, in the terms of the contract.\<close>

lemma upsert_row_eq:
  assumes "table_ok cfg T"
  shows "upsert_row cfg e T =
    (case T (unique_key cfg e) of
       None \<Rightarrow> T(unique_key cfg e \<mapsto> new_row cfg e)
     | Some r \<Rightarrow> if row_height r < entry_height e then T(unique_key cfg e \<mapsto> new_row cfg e) else T)"
proof (cases "T (unique_key cfg e)")
  case (Some r)
  with table_ok_row [OF assms Some] show ?thesis by (simp add: upsert_row_def overwrite_new_row)
qed (simp add: upsert_row_def)

interpretation upsert_store: height_guarded "upsert_row cfg" "unique_key cfg" entry_height "new_row cfg"
    "\<lambda>T k. T k" row_height "table_ok cfg" "\<lambda>e. bound e (InsertColumns cfg)" for cfg
proof (unfold_locales, goal_cases)
  case (1 T e k)
  then show ?case by (auto simp: upsert_row_eq split: option.splits)
next
  case (2 T e)
  then show ?case by (auto simp: upsert_row_eq split: option.splits)
next
  case (3 T e)
  then show ?case by (simp add: table_ok_def row_height_def)
next
  case (4 T e)
  then show ?case by (auto simp: upsert_row_eq table_ok_insert split: option.splits)
qed

section \<open>Deletions\<close>

definition mark_deleted :: "u64 \<Rightarrow> db_row \<Rightarrow> db_row" where
  "mark_deleted h r = r(''delete_height'' \<mapsto> UInt h, ''height'' \<mapsto> UInt h)"

lemma delete_row_eq:
  "delete_row cfg e T =
    (case T (unique_key cfg e) of
       None \<Rightarrow> T
     | Some r \<Rightarrow> if r ''delete_height'' = Some Null
                 then T(unique_key cfg e \<mapsto> mark_deleted (entry_height e) r) else T)"
  by (simp add: delete_row_def mark_deleted_def split: option.splits)

lemma row_height_mark_deleted [simp]: "row_height (mark_deleted h r) = h"
  by (simp add: row_height_def mark_deleted_def)

lemma mark_deleted_dead [simp]: "mark_deleted h r ''delete_height'' = Some (UInt h)"
  by (simp add: mark_deleted_def)

lemma table_ok_delete:
  assumes "table_ok cfg T"
  shows "table_ok cfg (delete_row cfg e T)"
proof (cases "T (unique_key cfg e)")
  case (Some r)
  have "set (stored_columns cfg) = dom (mark_deleted h r)" for h
    using table_ok_row [OF assms Some]
    by (auto simp: mark_deleted_def config_ok_def)
  moreover have "mark_deleted h r ''height'' = Some (UInt h)" for h
    by (simp add: mark_deleted_def)
  ultimately show ?thesis
    using assms by (auto simp: delete_row_eq table_ok_def Some)
qed (simp add: delete_row_eq assms)

lemma upsert_after_delete:
  assumes ok: "table_ok cfg T" and live: "T k = Some r" "r ''delete_height'' = Some Null"
    and keys: "unique_key cfg d = k" "unique_key cfg e = k"
  shows "upsert_row cfg e (delete_row cfg d T) k =
    Some (if entry_height d < entry_height e then new_row cfg e else mark_deleted (entry_height d) r)"
proof -
  have d: "delete_row cfg d T = T(k \<mapsto> mark_deleted (entry_height d) r)"
    using live keys by (simp add: delete_row_eq)
  show ?thesis
    using upsert_row_eq [OF table_ok_delete [OF ok], of e d] keys by (simp add: d)
qed

end
