(* ===== verification/Marshaler44.thy ===== *)
theory Marshaler44
  imports Sdk
begin

text \<open>
  The data marshaler for version 0.44 of the Cosmos SDK (\<open>datamarshaler/impl_v44.go\<close>), one
  definition per method. Log output is left out. A method returns the zero row with no error for
  the values it means to ignore.
\<close>

section \<open>Bank and accounts\<close>

definition Bank44 :: "sdk \<Rightarrow> TraceOperation \<Rightarrow> BalanceRow outcome" where
  "Bank44 s data =
     and_then (from_index 1 (vis (top_Key data))) (\<lambda>rawAddress.
     and_then (wrap_err ''cannot parse address from balance store key, ''
                 (AddressFromBalancesStore s rawAddress)) (\<lambda>addrBytes.
     and_then (wrap_err ''cannot unmarshal balance coin: ''
                 (UnmarshalCoin s (top_Value data) \<lparr>coin_Denom = [], coin_Amount = 0\<rparr>)) (\<lambda>coins.
     and_then
       (case CoinValidate s coins of
          Ok _ \<Rightarrow> Ok coins
        | Panic p \<Rightarrow> Panic p
        | Err e \<Rightarrow>
            if is_delete data then
              and_then (from_index (length addrBytes + 1) rawAddress)
                (\<lambda>denom. Ok (coins\<lparr>coin_Denom := string_of_bytes denom\<rparr>))
            else Err (''invalid balance coin: '' @ e))
       (\<lambda>coins.
     Ok (BalanceRow_at (top_BlockHeight data) (hex_encode addrBytes) (CoinString s coins)
           (coin_Denom coins))))))"

definition unknown_type_url :: string where
  "unknown_type_url = ''no concrete type registered for type URL''"

definition zero_AuthRow :: AuthRow where
  "zero_AuthRow = AuthRow_at 0 [] 0 0"

definition Auth44 :: "sdk \<Rightarrow> TraceOperation \<Rightarrow> AuthRow outcome" where
  "Auth44 s data =
     (if length (vis (top_Key data)) > MaxAddrLen s + 1 then Ok zero_AuthRow
      else case UnmarshalAccount s (top_Value data) of
        Panic p \<Rightarrow> Panic p
      | Err e \<Rightarrow> if prefix unknown_type_url e then Ok zero_AuthRow else Err e
      | Ok ModuleAccount \<Rightarrow> Ok zero_AuthRow
      | Ok (OtherAccount T) \<Rightarrow>
          Err (''cannot cast account to BaseAccount, type *types.BaseAccount, account object type '' @ T)
      | Ok (BaseAccount acc) \<Rightarrow>
          and_then (wrap_err ''non compliant auth account, bech32 invalid, ''
                      (DecodeAndConvert s (acc_Address acc))) (\<lambda>(_, bz).
            if (case acc_PubKeyAddress acc of None \<Rightarrow> False | Some a \<Rightarrow> a \<noteq> bz)
            then Err ''non compliant auth account, account address and parsed address bytes do not match''
            else Ok (AuthRow_at (top_BlockHeight data) (hex_encode bz) (acc_Sequence acc)
                       (acc_AccountNumber acc))))"

section \<open>Delegations\<close>

definition quoted :: "string \<Rightarrow> string" where
  "quoted x = [CHR 0x22] @ x @ [CHR 0x22]"

definition Delegations44 :: "sdk \<Rightarrow> TraceOperation \<Rightarrow> DelegationRow outcome" where
  "Delegations44 s data =
     (if is_delete data then
        and_then (SplitDelegationKey (top_Key data)) (\<lambda>(delegator, validator).
          if delegator = [] \<or> validator = []
          then Err (''badly-formatted key: validator '' @ quoted validator @ '', delegator '' @
                    quoted delegator)
          else Ok (DelegationRow_at (top_BlockHeight data) delegator validator []))
      else
        and_then (UnmarshalDelegation s (top_Value data)) (\<lambda>delegation.
        and_then (wrap_err ''cannot convert delegator address from bech32 to hex, ''
                    (b32Hex (DecodeAndConvert s) (dlg_DelegatorAddress delegation))) (\<lambda>delegator.
        and_then (wrap_err ''cannot convert validator address from bech32 to hex, ''
                    (b32Hex (DecodeAndConvert s) (dlg_ValidatorAddress delegation))) (\<lambda>validator.
        Ok (DelegationRow_at (top_BlockHeight data) delegator validator (dlg_Shares delegation))))))"

section \<open>IBC\<close>

definition zero_IBCChannelRow :: IBCChannelRow where
  "zero_IBCChannelRow = IBCChannelRow_at 0 [] [] [] [] 0"

definition IBCChannels44 :: "sdk \<Rightarrow> TraceOperation \<Rightarrow> IBCChannelRow outcome" where
  "IBCChannels44 s data =
     and_then (UnmarshalChannel s (top_Value data)) (\<lambda>result.
     and_then (wrap_err ''cannot validate ibc channel, '' (ChannelValidateBasic s result)) (\<lambda>_.
       if ch_Ordering result \<noteq> UNORDERED s then Ok zero_IBCChannelRow
       else and_then (ParseChannelPath s (string_of_bytes (vis (top_Key data)))) (\<lambda>(portID, channelID).
         Ok (IBCChannelRow_at (top_BlockHeight data) channelID (ch_CounterpartyChannelId result)
               (ch_ConnectionHops result) portID (ch_State result)))))"

definition parseIBCChainID :: "string \<Rightarrow> u64 \<Rightarrow> string" where
  "parseIBCChainID fullChainID RevisionHeight =
     (if RevisionHeight = 0 then fullChainID
      else let suffix = CHR ''-'' # itoa (unat RevisionHeight)
           in replace_first suffix [] fullChainID)"

definition zero_IBCClientStateRow :: IBCClientStateRow where
  "zero_IBCClientStateRow = IBCClientStateRow_at 0 [] [] 0 0"

definition IBCClients44 :: "sdk \<Rightarrow> TraceOperation \<Rightarrow> IBCClientStateRow outcome" where
  "IBCClients44 s data =
     and_then (UnmarshalClientState s (top_Value data)) (\<lambda>result.
       case result of
         OtherClient \<Rightarrow> Ok zero_IBCClientStateRow
       | TendermintClient dest \<Rightarrow>
           and_then (wrap_err ''cannot validate ibc connection, '' (ClientValidate s dest)) (\<lambda>_.
             let keySplit = split_on (CHR ''/'') (string_of_bytes (vis (top_Key data)))
             in if length keySplit \<le> 1 then Panic ''runtime error: index out of range''
                else Ok (IBCClientStateRow_at (top_BlockHeight data)
                       (parseIBCChainID (tm_ChainId dest) (tm_RevisionHeight dest)) (keySplit ! 1)
                       (tm_RevisionHeight dest) (tm_TrustingPeriod dest))))"

definition zero_IBCConnectionRow :: IBCConnectionRow where
  "zero_IBCConnectionRow = IBCConnectionRow_at 0 [] [] [] [] []"

definition IBCConnections44 :: "sdk \<Rightarrow> TraceOperation \<Rightarrow> IBCConnectionRow outcome" where
  "IBCConnections44 s data =
     (case fields_on (CHR ''/'') (string_of_bytes (vis (top_Key data))) of
        [k, connectionID] \<Rightarrow>
          if k = IBCConnectionsKey (keys s) then
            and_then (wrap_err ''cannot unmarshal connection end, ''
                        (UnmarshalConnectionEnd s (top_Value data))) (\<lambda>ce.
            and_then (wrap_err ''connection end validation failed, ''
                        (ConnectionValidateBasic s ce)) (\<lambda>_.
            Ok (IBCConnectionRow_at (top_BlockHeight data) connectionID (ce_ClientId ce)
                  (ConnectionStateString s (ce_State ce)) (ce_CounterpartyConnectionId ce)
                  (ce_CounterpartyClientId ce))))
          else Ok zero_IBCConnectionRow
      | _ \<Rightarrow> Ok zero_IBCConnectionRow)"

definition zero_IBCDenomTraceRow :: IBCDenomTraceRow where
  "zero_IBCDenomTraceRow = IBCDenomTraceRow_at 0 [] [] []"

definition IBCDenomTraces44 :: "sdk \<Rightarrow> TraceOperation \<Rightarrow> IBCDenomTraceRow outcome" where
  "IBCDenomTraces44 s data =
     and_then (UnmarshalDenomTrace s (top_Value data)) (\<lambda>dt.
     and_then (wrap_err ''denom trace validation failed, '' (DenomTraceValidate s dt)) (\<lambda>_.
       if dt_BaseDenom dt = [] then Ok zero_IBCDenomTraceRow
       else Ok (IBCDenomTraceRow_at (top_BlockHeight data) (dt_Path dt) (dt_BaseDenom dt)
                  (hex_encode (DenomTraceHash s dt)))))"

section \<open>Unbonding delegations and validators\<close>

definition zero_UnbondingDelegationRow :: UnbondingDelegationRow where
  "zero_UnbondingDelegationRow = UnbondingDelegationRow_at 0 [] [] []"

definition UnbondingDelegations44 :: "sdk \<Rightarrow> TraceOperation \<Rightarrow> UnbondingDelegationRow outcome" where
  "UnbondingDelegations44 s data =
     (if is_delete data then
        if \<not> prefix (UnbondingDelegationByValidatorKey (keys s)) (vis (top_Key data))
        then Ok zero_UnbondingDelegationRow
        else
          and_then (GetUBDKeyFromValIndexKey s (vis (top_Key data))) (\<lambda>key.
          and_then (wrap_err ''cannot parse unbonding delegation key, '' (SplitDelegationKey key))
            (\<lambda>(delegatorAddr, validatorAddr).
          Ok (UnbondingDelegationRow_at (top_BlockHeight data) delegatorAddr validatorAddr [])))
      else
        and_then (UnmarshalUnbondingDelegation s (top_Value data)) (\<lambda>unbondingDelegation.
        and_then (wrap_err ''cannot convert delegator address from bech32 to hex, ''
                    (b32Hex (DecodeAndConvert s) (ud_DelegatorAddress unbondingDelegation))) (\<lambda>delegator.
        and_then (wrap_err ''cannot convert validator address from bech32 to hex, ''
                    (b32Hex (DecodeAndConvert s) (ud_ValidatorAddress unbondingDelegation))) (\<lambda>validator.
        and_then (convert_entries (ud_Entries unbondingDelegation)) (\<lambda>entriesStore.
        Ok (UnbondingDelegationRow_at (top_BlockHeight data) delegator validator entriesStore))))))"

text \<open>The generated getters of a protobuf message accept a nil pointer; the field \<open>Value\<close> does not.\<close>

definition nil_pointer :: string where
  "nil_pointer = ''runtime error: invalid memory address or nil pointer dereference''"

definition Validators44 :: "sdk \<Rightarrow> TraceOperation \<Rightarrow> ValidatorRow outcome" where
  "Validators44 s data =
     (if is_delete data then
        and_then (from_index 1 (vis (top_Key data))) (\<lambda>key.
        and_then (wrap_err ''cannot parse length-prefixed operator address, '' (FromLengthPrefix key))
          (\<lambda>rawAddress.
        Ok (zero_ValidatorRow\<lparr>val_OperatorAddress := hex_encode rawAddress, Height := top_BlockHeight data\<rparr>)))
      else
        and_then (UnmarshalValidator s (top_Value data)) (\<lambda>v.
        and_then (wrap_err ''cannot convert operator address from bech32 to hex, ''
                    (b32Hex (DecodeAndConvert s) (sv_OperatorAddress v))) (\<lambda>valAddress.
        case sv_ConsensusPubkey v of
          None \<Rightarrow> Panic nil_pointer
        | Some (TypeUrl, Value) \<Rightarrow>
            Ok \<lparr>ChainName = [], RowID = 0, Height = top_BlockHeight data, DeleteHeight = None,
               val_ValidatorAddress = valAddress, val_OperatorAddress = sv_OperatorAddress v,
               val_ConsensusPubKeyType = TypeUrl, val_ConsensusPubKeyValue = Value,
               val_Jailed = sv_Jailed v, val_Status = sv_Status v, val_Tokens = sv_Tokens v,
               val_DelegatorShares = sv_DelegatorShares v, val_Moniker = sv_Moniker v,
               val_Identity = sv_Identity v, val_Website = sv_Website v,
               val_SecurityContact = sv_SecurityContact v, val_Details = sv_Details v,
               val_UnbondingHeight = sv_UnbondingHeight v, val_UnbondingTime = sv_UnbondingTime v,
               val_CommissionRate = sv_Rate v, val_MaxRate = sv_MaxRate v,
               val_MaxChangeRate = sv_MaxChangeRate v, val_UpdateTime = sv_UpdateTime v,
               val_MinSelfDelegation = sv_MinSelfDelegation v\<rparr>)))"

section \<open>The handler\<close>

definition UnbondingDelegationKeys44 :: "sdk_keys \<Rightarrow> bytes list" where
  "UnbondingDelegationKeys44 k = [UnbondingDelegationKey k, UnbondingDelegationByValidatorKey k]"

definition DataMarshaler44 :: "sdk \<Rightarrow> Handler" where
  "DataMarshaler44 s =
     \<lparr>h_keys = keys s, h_UnbondingDelegationKeys = UnbondingDelegationKeys44 (keys s),
      h_DecodeAndConvert = DecodeAndConvert s,
      h_Bank = Bank44 s, h_Auth = Auth44 s, h_Delegations = Delegations44 s,
      h_IBCChannels = IBCChannels44 s, h_IBCClients = IBCClients44 s,
      h_IBCConnections = IBCConnections44 s, h_IBCDenomTraces = IBCDenomTraces44 s,
      h_UnbondingDelegations = UnbondingDelegations44 s, h_Validators = Validators44 s\<rparr>"

end
