(* ===== verification/Marshaler42.thy ===== *)
theory Marshaler42
  imports Marshaler44
begin

text \<open>
  The data marshaler for version 0.42 of the Cosmos SDK (\<open>datamarshaler/impl_v42.go\<close>). Addresses of
  this version have 20 bytes and stand in the keys without a length prefix. Methods ignore more
  values than their counterparts for version 0.44, whose zero rows and helpers are shared.
\<close>

section \<open>Bank and accounts\<close>

definition zero_BalanceRow :: BalanceRow where
  "zero_BalanceRow = BalanceRow_at 0 [] [] []"

text \<open>\<open>addrBytes[pLen:pLen+20]\<close> may reach into the spare capacity of the key.\<close>

definition Bank42 :: "sdk \<Rightarrow> TraceOperation \<Rightarrow> BalanceRow outcome" where
  "Bank42 s data =
     (let pLen = length (BankKey (keys s))
      in and_then (slice_to (pLen + 20) (top_Key data)) (\<lambda>whole.
         let addr = drop pLen (vis whole)
         in case UnmarshalCoin s (top_Value data) \<lparr>coin_Denom = [], coin_Amount = 0\<rparr> of
              Panic p \<Rightarrow> Panic p
            | Err e \<Rightarrow> Ok zero_BalanceRow
            | Ok coins \<Rightarrow>
                if \<not> CoinIsValid s coins then Ok zero_BalanceRow
                else Ok (BalanceRow_at (top_BlockHeight data) (hex_encode addr) (CoinString s coins)
                           (coin_Denom coins))))"

definition Auth42 :: "sdk \<Rightarrow> TraceOperation \<Rightarrow> AuthRow outcome" where
  "Auth42 s data =
     (if length (vis (top_Key data)) \<noteq> AddrLen s + 1 then Ok zero_AuthRow
      else case UnmarshalAccount s (top_Value data) of
        Panic p \<Rightarrow> Panic p
      | Err e \<Rightarrow> if prefix unknown_type_url e then Ok zero_AuthRow else Err e
      | Ok ModuleAccount \<Rightarrow> Ok zero_AuthRow
      | Ok (OtherAccount T) \<Rightarrow>
          Err (''cannot cast account to BaseAccount, type *types.BaseAccount, account object type '' @ T)
      | Ok (BaseAccount acc) \<Rightarrow>
          and_then (wrap_err ''non compliant auth account, bech32 invalid, ''
                      (DecodeAndConvert s (acc_Address acc))) (\<lambda>(_, bz).
            if (case acc_PubKeyAddress acc of None \<Rightarrow> False | Some a \<Rightarrow> a \<noteq> bz)
            then Err ''non compliant auth account, account address and parsed address bytes do not match''
            else Ok (AuthRow_at (top_BlockHeight data) (hex_encode bz) (acc_Sequence acc)
                       (acc_AccountNumber acc))))"

section \<open>Delegations\<close>

text \<open>The fields \<open>Key[1:21]\<close> and \<open>Key[21:41]\<close> of a key without length prefixes.\<close>

definition key_field :: "nat \<Rightarrow> bytes \<Rightarrow> string" where
  "key_field i key = hex_encode (take 20 (drop i key))"

definition Delegations42 :: "sdk \<Rightarrow> TraceOperation \<Rightarrow> DelegationRow outcome" where
  "Delegations42 s data =
     (if is_delete data then
        if length (vis (top_Key data)) < 41 then Ok (DelegationRow_at 0 [] [] [])
        else Ok (DelegationRow_at (top_BlockHeight data) (key_field 1 (vis (top_Key data)))
                   (key_field 21 (vis (top_Key data))) [])
      else
        and_then (UnmarshalDelegation s (top_Value data)) (\<lambda>delegation.
        and_then (wrap_err ''cannot convert delegator address from bech32 to hex, ''
                    (b32Hex (DecodeAndConvert s) (dlg_DelegatorAddress delegation))) (\<lambda>delegator.
        and_then (wrap_err ''cannot convert validator address from bech32 to hex, ''
                    (b32Hex (DecodeAndConvert s) (dlg_ValidatorAddress delegation))) (\<lambda>validator.
        Ok (DelegationRow_at (top_BlockHeight data) delegator validator (dlg_Shares delegation))))))"

section \<open>IBC\<close>

definition IBCChannels42 :: "sdk \<Rightarrow> TraceOperation \<Rightarrow> IBCChannelRow outcome" where
  "IBCChannels42 s data =
     and_then (UnmarshalChannel s (top_Value data)) (\<lambda>result.
     and_then (wrap_err ''cannot validate ibc channel, '' (ChannelValidateBasic s result)) (\<lambda>_.
       if ch_Ordering result \<noteq> UNORDERED s then Ok zero_IBCChannelRow
       else and_then (ParseChannelPath s (string_of_bytes (vis (top_Key data)))) (\<lambda>(portID, channelID).
         Ok (IBCChannelRow_at (top_BlockHeight data) channelID (ch_CounterpartyChannelId result)
               (ch_ConnectionHops result) portID (ch_State result)))))"

definition IBCClients42 :: "sdk \<Rightarrow> TraceOperation \<Rightarrow> IBCClientStateRow outcome" where
  "IBCClients42 s data =
     and_then (UnmarshalClientState s (top_Value data)) (\<lambda>result.
       case result of
         OtherClient \<Rightarrow> Ok zero_IBCClientStateRow
       | TendermintClient dest \<Rightarrow>
           and_then (wrap_err ''cannot validate ibc connection, '' (ClientValidate s dest)) (\<lambda>_.
             let keySplit = split_on (CHR ''/'') (string_of_bytes (vis (top_Key data)))
             in if length keySplit \<le> 1 then Panic ''runtime error: index out of range''
                else Ok (IBCClientStateRow_at (top_BlockHeight data)
                       (tm_ChainId dest) (keySplit ! 1)
                       (tm_RevisionHeight dest) (tm_TrustingPeriod dest))))"

definition IBCConnections42 :: "sdk \<Rightarrow> TraceOperation \<Rightarrow> IBCConnectionRow outcome" where
  "IBCConnections42 s data =
     (case fields_on (CHR ''/'') (string_of_bytes (vis (top_Key data))) of
        [k, connectionID] \<Rightarrow>
          if k = IBCConnectionsKey (keys s) then
            and_then (wrap_err ''cannot unmarshal connection end, ''
                        (UnmarshalConnectionEnd s (top_Value data))) (\<lambda>ce.
            and_then (wrap_err ''connection end validation failed, ''
                        (ConnectionValidateBasic s ce)) (\<lambda>_.
            Ok (IBCConnectionRow_at (top_BlockHeight data) connectionID (ce_ClientId ce)
                  (ConnectionStateString s (ce_State ce)) (ce_CounterpartyConnectionId ce)
                  (ce_CounterpartyClientId ce))))
          else Ok zero_IBCConnectionRow
      | _ \<Rightarrow> Ok zero_IBCConnectionRow)"

definition IBCDenomTraces42 :: "sdk \<Rightarrow> TraceOperation \<Rightarrow> IBCDenomTraceRow outcome" where
  "IBCDenomTraces42 s data =
     and_then (UnmarshalDenomTrace s (top_Value data)) (\<lambda>dt.
     and_then (wrap_err ''denom trace validation failed, '' (DenomTraceValidate s dt)) (\<lambda>_.
       if dt_BaseDenom dt = [] then Ok zero_IBCDenomTraceRow
       else Ok (IBCDenomTraceRow_at (top_BlockHeight data) (dt_Path dt) (dt_BaseDenom dt)
                  (hex_encode (DenomTraceHash s dt)))))"

section \<open>Unbonding delegations and validators\<close>

definition UnbondingDelegations42 :: "sdk \<Rightarrow> TraceOperation \<Rightarrow> UnbondingDelegationRow outcome" where
  "UnbondingDelegations42 s data =
     (if is_delete data then
        if length (vis (top_Key data)) < 41 then Ok zero_UnbondingDelegationRow
        else Ok (UnbondingDelegationRow_at (top_BlockHeight data) (key_field 1 (vis (top_Key data)))
                   (key_field 21 (vis (top_Key data))) [])
      else
        and_then (UnmarshalUnbondingDelegation s (top_Value data)) (\<lambda>unbondingDelegation.
        and_then (wrap_err ''cannot convert delegator address from bech32 to hex, ''
                    (b32Hex (DecodeAndConvert s) (ud_DelegatorAddress unbondingDelegation))) (\<lambda>delegator.
        and_then (wrap_err ''cannot convert validator address from bech32 to hex, ''
                    (b32Hex (DecodeAndConvert s) (ud_ValidatorAddress unbondingDelegation))) (\<lambda>validator.
        and_then (convert_entries (ud_Entries unbondingDelegation)) (\<lambda>entriesStore.
        Ok (UnbondingDelegationRow_at (top_BlockHeight data) delegator validator entriesStore))))))"

definition Validators42 :: "sdk \<Rightarrow> TraceOperation \<Rightarrow> ValidatorRow outcome" where
  "Validators42 s data =
     (if is_delete data then
        if length (vis (top_Key data)) < 21 then Ok zero_ValidatorRow
        else Ok (zero_ValidatorRow\<lparr>val_OperatorAddress := key_field 1 (vis (top_Key data)),
                   Height := top_BlockHeight data\<rparr>)
      else
        and_then (UnmarshalValidator s (top_Value data)) (\<lambda>v.
        and_then (wrap_err ''cannot convert operator address from bech32 to hex, ''
                    (b32Hex (DecodeAndConvert s) (sv_OperatorAddress v))) (\<lambda>valAddress.
        case sv_ConsensusPubkey v of
          None \<Rightarrow> Panic nil_pointer
        | Some (TypeUrl, Value) \<Rightarrow>
            Ok \<lparr>ChainName = [], RowID = 0, Height = top_BlockHeight data, DeleteHeight = None,
               val_ValidatorAddress = valAddress, val_OperatorAddress = sv_OperatorAddress v,
               val_ConsensusPubKeyType = TypeUrl, val_ConsensusPubKeyValue = Value,
               val_Jailed = sv_Jailed v, val_Status = sv_Status v, val_Tokens = sv_Tokens v,
               val_DelegatorShares = sv_DelegatorShares v, val_Moniker = sv_Moniker v,
               val_Identity = sv_Identity v, val_Website = sv_Website v,
               val_SecurityContact = sv_SecurityContact v, val_Details = sv_Details v,
               val_UnbondingHeight = sv_UnbondingHeight v, val_UnbondingTime = sv_UnbondingTime v,
               val_CommissionRate = sv_Rate v, val_MaxRate = sv_MaxRate v,
               val_MaxChangeRate = sv_MaxChangeRate v, val_UpdateTime = sv_UpdateTime v,
               val_MinSelfDelegation = sv_MinSelfDelegation v\<rparr>)))"

section \<open>The handler\<close>

definition UnbondingDelegationKeys42 :: "sdk_keys \<Rightarrow> bytes list" where
  "UnbondingDelegationKeys42 k = [UnbondingDelegationKey k]"

definition DataMarshaler42 :: "sdk \<Rightarrow> Handler" where
  "DataMarshaler42 s =
     \<lparr>h_keys = keys s, h_UnbondingDelegationKeys = UnbondingDelegationKeys42 (keys s),
      h_DecodeAndConvert = DecodeAndConvert s,
      h_Bank = Bank42 s, h_Auth = Auth42 s, h_Delegations = Delegations42 s,
      h_IBCChannels = IBCChannels42 s, h_IBCClients = IBCClients42 s,
      h_IBCConnections = IBCConnections42 s, h_IBCDenomTraces = IBCDenomTraces42 s,
      h_UnbondingDelegations = UnbondingDelegations42 s, h_Validators = Validators42 s\<rparr>"

end
