(* ===== verification/Blocks.thy ===== *)
theory Blocks
  imports Processor Store Marshaler42
begin

text \<open>
  What a block looks like when it leaves the processor: the rows of a flush carry the height of the
  block they belong to, because a new height flushes before its first trace is processed. The
  invariant is over the rows the modules hold; token infos are exempt, since their height can be set
  by the JSON value a contract stores.
\<close>

section \<open>Heights of rows\<close>

lemma entry_height_simps [simp]:
  "entry_height (EBalance r1) = Height r1" "entry_height (ECW20Balance r2) = Height r2"
  "entry_height (ECW20TokenInfo r3) = Height r3" "entry_height (EDelegation r4) = Height r4"
  "entry_height (EChannel r5) = Height r5" "entry_height (EConnection r6) = Height r6"
  "entry_height (EDenomTrace r7) = Height r7" "entry_height (EAuth r8) = Height r8"
  "entry_height (EClient r9) = Height r9" "entry_height (EUnbonding r10) = Height r10"
  "entry_height (EValidator r11) = Height r11"
  by (simp_all add: entry_height_def tl_row.defs)

lemma entry_height_WithChainName [simp]: "entry_height (WithChainName cn e) = entry_height e"
  by (simp add: entry_height_def)

primrec is_token_info :: "entrier \<Rightarrow> bool" where
  "is_token_info (EBalance r) = False"
| "is_token_info (ECW20Balance r) = False"
| "is_token_info (ECW20TokenInfo r) = True"
| "is_token_info (EDelegation r) = False"
| "is_token_info (EChannel r) = False"
| "is_token_info (EConnection r) = False"
| "is_token_info (EDenomTrace r) = False"
| "is_token_info (EPool r) = False"
| "is_token_info (ESwap r) = False"
| "is_token_info (EAuth r) = False"
| "is_token_info (EClient r) = False"
| "is_token_info (EUnbonding r) = False"
| "is_token_info (EValidator r) = False"
| "is_token_info (ERedelegation r) = False"

lemma is_token_info_WithChainName [simp]: "is_token_info (WithChainName cn e) = is_token_info e"
  by (cases e) simp_all

definition row_of :: "u64 \<Rightarrow> 'a tl_row_scheme \<Rightarrow> bool" where
  "row_of h r \<longleftrightarrow> Height r \<in> {0, h}"

definition of_block :: "u64 \<Rightarrow> entrier \<Rightarrow> bool" where
  "of_block h e \<longleftrightarrow> is_token_info e \<or> entry_height e = 0 \<or> entry_height e = h"

lemma of_block_WithChainName [simp]: "of_block h (WithChainName cn e) = of_block h e"
  by (simp add: of_block_def)

section \<open>Marshalled rows carry the height of their trace\<close>

definition handler_heights :: "Handler \<Rightarrow> bool" where
  "handler_heights h \<longleftrightarrow> (\<forall>d.
     (\<forall>r. h_Bank h d = Ok r \<longrightarrow> row_of (top_BlockHeight d) r) \<and>
     (\<forall>r. h_Auth h d = Ok r \<longrightarrow> row_of (top_BlockHeight d) r) \<and>
     (\<forall>r. h_Delegations h d = Ok r \<longrightarrow> row_of (top_BlockHeight d) r) \<and>
     (\<forall>r. h_IBCChannels h d = Ok r \<longrightarrow> row_of (top_BlockHeight d) r) \<and>
     (\<forall>r. h_IBCClients h d = Ok r \<longrightarrow> row_of (top_BlockHeight d) r) \<and>
     (\<forall>r. h_IBCConnections h d = Ok r \<longrightarrow> row_of (top_BlockHeight d) r) \<and>
     (\<forall>r. h_IBCDenomTraces h d = Ok r \<longrightarrow> row_of (top_BlockHeight d) r) \<and>
     (\<forall>r. h_Validators h d = Ok r \<longrightarrow> row_of (top_BlockHeight d) r))"

lemmas zero_row_defs = zero_AuthRow_def zero_IBCChannelRow_def zero_IBCClientStateRow_def
  zero_IBCConnectionRow_def zero_IBCDenomTraceRow_def zero_ValidatorRow_def zero_BalanceRow_def

named_theorems row_heights \<open>the height of a marshalled row\<close>

lemma Bank44_height [row_heights]: "Bank44 s d = Ok r \<Longrightarrow> Height r \<in> {0, top_BlockHeight d}"
  by (auto simp: Bank44_def and_then_Ok row_at_defs)

lemma Auth44_height [row_heights]: "Auth44 s d = Ok r \<Longrightarrow> Height r \<in> {0, top_BlockHeight d}"
  by (auto simp: Auth44_def and_then_Ok row_at_defs zero_row_defs split: if_splits outcome.splits account.splits)

lemma Delegations44_height [row_heights]: "Delegations44 s d = Ok r \<Longrightarrow> Height r \<in> {0, top_BlockHeight d}"
  by (auto simp: Delegations44_def and_then_Ok row_at_defs split: if_splits prod.splits)

lemma IBCChannels44_height [row_heights]: "IBCChannels44 s d = Ok r \<Longrightarrow> Height r \<in> {0, top_BlockHeight d}"
  by (auto simp: IBCChannels44_def and_then_Ok row_at_defs zero_row_defs split: if_splits prod.splits)

lemma IBCClients44_height [row_heights]: "IBCClients44 s d = Ok r \<Longrightarrow> Height r \<in> {0, top_BlockHeight d}"
  by (clarsimp simp: IBCClients44_def and_then_Ok)
    (auto simp: and_then_Ok row_at_defs zero_row_defs Let_def split: client_state.splits if_splits)

lemma IBCConnections44_height [row_heights]:
  "IBCConnections44 s d = Ok r \<Longrightarrow> Height r \<in> {0, top_BlockHeight d}"
  by (auto simp: IBCConnections44_def and_then_Ok row_at_defs zero_row_defs split: if_splits list.splits)

lemma IBCDenomTraces44_height [row_heights]:
  "IBCDenomTraces44 s d = Ok r \<Longrightarrow> Height r \<in> {0, top_BlockHeight d}"
  by (auto simp: IBCDenomTraces44_def and_then_Ok row_at_defs zero_row_defs split: if_splits)

lemma Validators44_height [row_heights]: "Validators44 s d = Ok r \<Longrightarrow> Height r \<in> {0, top_BlockHeight d}"
  by (auto simp: Validators44_def and_then_Ok split: if_splits option.splits prod.splits)

lemma Bank42_height [row_heights]: "Bank42 s d = Ok r \<Longrightarrow> Height r \<in> {0, top_BlockHeight d}"
  by (clarsimp simp: Bank42_def and_then_Ok Let_def) (auto simp: and_then_Ok row_at_defs zero_row_defs split: if_splits outcome.splits)

lemma Auth42_height [row_heights]: "Auth42 s d = Ok r \<Longrightarrow> Height r \<in> {0, top_BlockHeight d}"
  by (auto simp: Auth42_def and_then_Ok row_at_defs zero_row_defs split: if_splits outcome.splits account.splits)

lemma Delegations42_height [row_heights]: "Delegations42 s d = Ok r \<Longrightarrow> Height r \<in> {0, top_BlockHeight d}"
  by (auto simp: Delegations42_def and_then_Ok row_at_defs split: if_splits)

lemma IBCChannels42_height [row_heights]: "IBCChannels42 s d = Ok r \<Longrightarrow> Height r \<in> {0, top_BlockHeight d}"
  by (auto simp: IBCChannels42_def and_then_Ok row_at_defs zero_row_defs split: if_splits prod.splits)

lemma IBCClients42_height [row_heights]: "IBCClients42 s d = Ok r \<Longrightarrow> Height r \<in> {0, top_BlockHeight d}"
  by (clarsimp simp: IBCClients42_def and_then_Ok)
    (auto simp: and_then_Ok row_at_defs zero_row_defs Let_def split: client_state.splits if_splits)

lemma IBCConnections42_height [row_heights]:
  "IBCConnections42 s d = Ok r \<Longrightarrow> Height r \<in> {0, top_BlockHeight d}"
  by (auto simp: IBCConnections42_def and_then_Ok row_at_defs zero_row_defs split: if_splits list.splits)

lemma IBCDenomTraces42_height [row_heights]:
  "IBCDenomTraces42 s d = Ok r \<Longrightarrow> Height r \<in> {0, top_BlockHeight d}"
  by (auto simp: IBCDenomTraces42_def and_then_Ok row_at_defs zero_row_defs split: if_splits)

lemma Validators42_height [row_heights]: "Validators42 s d = Ok r \<Longrightarrow> Height r \<in> {0, top_BlockHeight d}"
  by (auto simp: Validators42_def and_then_Ok zero_row_defs split: if_splits option.splits prod.splits)

lemma handler_heights_44: "handler_heights (DataMarshaler44 s)"
  unfolding handler_heights_def DataMarshaler44_def Handler.simps row_of_def by (intro allI conjI impI row_heights)

lemma handler_heights_42: "handler_heights (DataMarshaler42 s)"
  unfolding handler_heights_def DataMarshaler42_def Handler.simps row_of_def by (intro allI conjI impI row_heights)

section \<open>The rows a module holds\<close>

definition cache_of :: "u64 \<Rightarrow> ('k, 'a tl_row_scheme) gomap \<Rightarrow> bool" where
  "cache_of h c \<longleftrightarrow> (\<forall>kv \<in> set c. row_of h (snd kv))"

lemma cache_of_Nil [simp]: "cache_of h []"
  by (simp add: cache_of_def)

lemma cache_of_set [intro]:
  assumes "row_of h r" "cache_of h c"
  shows "cache_of h (gomap_set k r c)"
  unfolding cache_of_def
proof
  fix kv assume "kv \<in> set (gomap_set k r c)"
  with gomap_set_mem [of "fst kv" "snd kv" k r c] have "kv = (k, r) \<or> kv \<in> set c" by simp
  with assms show "row_of h (snd kv)" by (auto simp: cache_of_def)
qed

lemma of_block_rows [simp]:
  "of_block h (EBalance r1) \<longleftrightarrow> row_of h r1"
  "of_block h (ECW20Balance r2) \<longleftrightarrow> row_of h r2"
  "of_block h (EDelegation r3) \<longleftrightarrow> row_of h r3"
  "of_block h (EChannel r4) \<longleftrightarrow> row_of h r4"
  "of_block h (EConnection r5) \<longleftrightarrow> row_of h r5"
  "of_block h (EDenomTrace r6) \<longleftrightarrow> row_of h r6"
  "of_block h (EAuth r7) \<longleftrightarrow> row_of h r7"
  "of_block h (EClient r8) \<longleftrightarrow> row_of h r8"
  "of_block h (EUnbonding r9) \<longleftrightarrow> row_of h r9"
  "of_block h (EValidator r10) \<longleftrightarrow> row_of h r10"
  "of_block h (ECW20TokenInfo r11)"
  by (auto simp: of_block_def row_of_def)

lemma handler_heightsD:
  assumes "handler_heights h"
  shows "h_Bank h d = Ok r1 \<Longrightarrow> row_of (top_BlockHeight d) r1"
    and "h_Auth h d = Ok r2 \<Longrightarrow> row_of (top_BlockHeight d) r2"
    and "h_Delegations h d = Ok r3 \<Longrightarrow> row_of (top_BlockHeight d) r3"
    and "h_IBCChannels h d = Ok r4 \<Longrightarrow> row_of (top_BlockHeight d) r4"
    and "h_IBCClients h d = Ok r5 \<Longrightarrow> row_of (top_BlockHeight d) r5"
    and "h_IBCConnections h d = Ok r6 \<Longrightarrow> row_of (top_BlockHeight d) r6"
    and "h_IBCDenomTraces h d = Ok r7 \<Longrightarrow> row_of (top_BlockHeight d) r7"
    and "h_Validators h d = Ok r8 \<Longrightarrow> row_of (top_BlockHeight d) r8"
  using assms unfolding handler_heights_def by blast+

lemma cw20_balances_row_height: "cw20_balances_row h d = Ok r \<Longrightarrow> row_of (top_BlockHeight d) r"
  by (auto simp: row_of_def cw20_balances_row_def and_then_Ok Let_def split: if_splits prod.splits)

text \<open>One operation caches a row of its own block or nothing.\<close>

lemmas process_defs = auth_Process_def bank_Process_def cw20_balances_Process_def
  cw20_token_infos_Process_def delegations_Process_def ibc_channels_Process_def
  ibc_clients_Process_def ibc_connections_Process_def ibc_denom_traces_Process_def
  unbonding_delegations_Process_def validators_Process_def

definition rows_of :: "u64 \<Rightarrow> module \<Rightarrow> bool" where
  "rows_of h m \<longleftrightarrow> (\<forall>x \<in># pending m. of_block h x)"

lemma rows_of_simps [simp]:
  "rows_of h (MAuth b1) \<longleftrightarrow> cache_of h (ap_heightCache b1)"
  "rows_of h (MBank b2) \<longleftrightarrow> cache_of h (bp_heightCache b2)"
  "rows_of h (MCW20Balances b3) \<longleftrightarrow> cache_of h (cbp_heightCache b3)"
  "rows_of h (MDelegations b4) \<longleftrightarrow> cache_of h (dep_insertHeightCache b4) \<and> cache_of h (dep_deleteHeightCache b4)"
  "rows_of h (MChannels b5) \<longleftrightarrow> cache_of h (chp_channelsCache b5)"
  "rows_of h (MClients b6) \<longleftrightarrow> cache_of h (clp_clientsCache b6)"
  "rows_of h (MConnections b7) \<longleftrightarrow> cache_of h (cop_connectionsCache b7)"
  "rows_of h (MDenomTraces b8) \<longleftrightarrow> cache_of h (dtp_denomTracesCache b8)"
  "rows_of h (MUnbonding b9) \<longleftrightarrow> cache_of h (udp_insertHeightCache b9) \<and> cache_of h (udp_deleteHeightCache b9)"
  "rows_of h (MValidators b10) \<longleftrightarrow> cache_of h (vap_insertValidatorsCache b10) \<and> cache_of h (vap_deleteValidatorsCache b10)"
  "rows_of h (MCW20TokenInfos b11)"
  unfolding rows_of_def cache_of_def by (auto simp: ball_Un)

lemma cache_of_0: "cache_of 0 c \<Longrightarrow> cache_of h c"
  by (auto simp: cache_of_def row_of_def)

lemma module_process_heights:
  assumes "handler_heights (handler e)" "top_BlockHeight d \<in> {0, h}" "module_Process e m d = Ok m'"
    "rows_of h m"
  shows "rows_of h m'"
proof -
  have up: "row_of h r" if "row_of (top_BlockHeight d) r" for r :: "'a tl_row_scheme"
    using that assms(2) by (auto simp: row_of_def)
  note heights = handler_heightsD [OF assms(1), THEN up] cw20_balances_row_height [THEN up]
  have [simp]: "row_of h (UnbondingDelegationRow_at 0 a b c)" for h a b c
    by (simp add: row_of_def UnbondingDelegationRow_at_def)
  show ?thesis
    using assms(3,4)
    by (cases m) (auto simp: process_defs and_then_Ok Let_def dest: heights
        intro!: cache_of_set split: if_splits)
qed

lemma module_flush_heights: "rows_of h (snd (module_FlushCache ord m))"
  by (simp add: rows_of_def module_flush.flush_clears)

section \<open>Blocks of a run\<close>

lemma processData_keeps:
  assumes "\<And>m m'. Q m \<Longrightarrow> module_Process e m data = Ok m' \<Longrightarrow> Q m'"
  shows "processData e js data ms = Ok (errs, ms') \<Longrightarrow> \<forall>i \<in> set js. i < length ms \<Longrightarrow>
    \<forall>m \<in> set ms. Q m \<Longrightarrow>
    (\<forall>m \<in> set ms'. Q m) \<and> map module_SDKModuleName ms' = map module_SDKModuleName ms"
proof (induction js arbitrary: ms errs)
  case (Cons i js)
  show ?case
  proof (cases "module_OwnsKey e (ms ! i) (vis (top_Key data))")
    case False
    with Cons show ?thesis by simp
  next
    case owns: True
    show ?thesis
    proof (cases "module_Process e (ms ! i) data")
      case (Ok m')
      from Cons.prems have "i < length ms" "Q (ms ! i)" by auto
      with assms Ok have m': "Q m'" by blast
      have same: "map module_SDKModuleName (ms[i := m']) = map module_SDKModuleName ms"
        using module_process_same(2) [OF Ok] \<open>i < length ms\<close>
        by (simp add: map_update list_update_same_conv)
      have "processData e js data (ms[i := m']) = Ok (errs, ms')"
        using Cons.prems(1) Ok owns by simp
      moreover have "\<forall>m \<in> set (ms[i := m']). Q m"
        using Cons.prems(3) m' set_update_subset_insert [of ms i m'] by blast
      ultimately show ?thesis using Cons.IH [of "ms[i := m']" errs] Cons.prems(2) same by simp
    next
      case (Err err)
      with Cons owns show ?thesis by (auto simp: and_then_Ok)
    qed (use Cons.prems(1) owns in simp)
  qed
qed simp

lemma mapping_ok_names:
  assumes "map module_SDKModuleName ms' = map module_SDKModuleName ms" "mapping_ok ms mapping"
  shows "mapping_ok ms' mapping"
proof -
  have "length ms' = length ms" using assms(1) map_eq_imp_length_eq by blast
  moreover have "module_SDKModuleName (ms' ! i) = module_SDKModuleName (ms ! i)" if "i < length ms" for i
    using assms(1) that calculation by (metis nth_map)
  ultimately have "indices ms' n = indices ms n" for n
    unfolding indices_def by (intro filter_cong) simp_all
  with assms(2) show ?thesis by (simp add: mapping_ok_def)
qed

text \<open>The invariant of the processor between two traces.\<close>

definition block_inv :: "Processor \<Rightarrow> bool" where
  "block_inv p \<longleftrightarrow> mapping_ok (p_moduleProcessors p) (p_sdkModuleMapping p) \<and>
     (\<forall>m \<in> set (p_moduleProcessors p). rows_of (p_lastHeight p) m)"

definition next_height :: "u64 \<Rightarrow> TraceOperation \<Rightarrow> u64" where
  "next_height h d = (if top_BlockHeight d = 0 then h else top_BlockHeight d)"

lemma ProcessData_block_inv:
  assumes "handler_heights (handler e)" "top_BlockHeight d \<in> {0, p_lastHeight p}"
    "ProcessData e d p = Ok (errs, p')" "block_inv p"
  shows "block_inv p'" "p_lastHeight p' = p_lastHeight p"
proof -
  obtain ms where ms: "processData e (processorList p d) d (p_moduleProcessors p) = Ok (errs, ms)"
    "p' = p\<lparr>p_moduleProcessors := ms\<rparr>"
    using assms(3) by (auto simp: ProcessData_def and_then_Ok)
  have mapping: "mapping_ok (p_moduleProcessors p) (p_sdkModuleMapping p)"
    using assms(4) by (simp add: block_inv_def)
  have "(\<forall>m \<in> set ms. rows_of (p_lastHeight p) m) \<and>
      map module_SDKModuleName ms = map module_SDKModuleName (p_moduleProcessors p)"
    using assms(4) unfolding block_inv_def
    by (intro processData_keeps [OF _ ms(1) processorList_valid(2) [OF mapping]])
      (auto intro: module_process_heights [OF assms(1,2)])
  then show "block_inv p'" using mapping_ok_names mapping ms(2) by (simp add: block_inv_def)
  show "p_lastHeight p' = p_lastHeight p" by (simp add: ms(2))
qed

lemma flushed_keeps:
  "map module_SDKModuleName (flushed ords i ms) = map module_SDKModuleName ms"
  "\<forall>m \<in> set (flushed ords i ms). rows_of h m"
  by (induction ords i ms rule: flushed.induct) (simp_all add: module_flush_heights)

lemma lifecycle_step_block:
  assumes "handler_heights (handler e)" "\<forall>i j. range_order (ords i j)"
    "lifecycle_step e ords d p = Ok (out, p')" "block_inv p"
  shows "block_inv p' \<and> p_lastHeight p' = next_height (p_lastHeight p) d \<and>
    (\<forall>wb \<in> set (so_writebacks out). \<forall>x \<in># op_rows wb. of_block (p_lastHeight p) x)"
proof (cases "top_BlockHeight d \<in> {0, p_lastHeight p}")
  case True
  then obtain errs where "ProcessData e d p = Ok (errs, p')" "so_writebacks out = []"
    using assms(3) by (auto simp: lifecycle_step_def and_then_Ok split: if_splits)
  with ProcessData_block_inv [OF assms(1) True this(1) assms(4)] True show ?thesis
    by (auto simp: next_height_def)
next
  case False
  obtain wb where wb: "Flush ords p = Ok (wb, p\<lparr>p_moduleProcessors := flushed ords 0 (p_moduleProcessors p)\<rparr>)"
    "op_rows wb = image_mset (WithChainName (p_chainName p)) (pending_all p)"
    using Flush_spec [OF assms(2)] by blast
  let ?p = "p\<lparr>p_moduleProcessors := flushed ords 0 (p_moduleProcessors p), p_lastHeight := top_BlockHeight d\<rparr>"
  obtain errs where p': "ProcessData e d ?p = Ok (errs, p')" "so_writebacks out = [wb]"
    using assms(3) False wb(1) by (auto simp: lifecycle_step_def and_then_Ok)
  have "block_inv ?p"
    using assms(4) mapping_ok_names [OF flushed_keeps(1)] flushed_keeps(2) by (simp add: block_inv_def)
  moreover have "top_BlockHeight d \<in> {0, p_lastHeight ?p}" by simp
  ultimately have "block_inv p'" "p_lastHeight p' = top_BlockHeight d"
    using ProcessData_block_inv [OF assms(1) _ p'(1)] by auto
  moreover have "of_block (p_lastHeight p) x" if mem: "x \<in># op_rows wb" for x
  proof -
    obtain y where "x = WithChainName (p_chainName p) y" "y \<in># pending_all p"
      using mem unfolding wb(2) by auto
    then show ?thesis using assms(4) by (auto simp: block_inv_def pending_all_def rows_of_def)
  qed
  ultimately show ?thesis using False p'(2) by (auto simp: next_height_def)
qed

text \<open>The block that is being read when each trace of a list arrives.\<close>

fun heights :: "u64 \<Rightarrow> TraceOperation list \<Rightarrow> u64 list" where
  "heights h [] = []"
| "heights h (d # ds) = h # heights (next_height h d) ds"

definition batch_of :: "u64 \<Rightarrow> step_output \<Rightarrow> bool" where
  "batch_of h out \<longleftrightarrow>
     (\<forall>wb \<in> set (so_writebacks out). \<forall>wo \<in> set wb. \<forall>x \<in> set (wb_Data wo). of_block h x)"

lemma batch_of_rows: "batch_of h out \<longleftrightarrow> (\<forall>wb \<in> set (so_writebacks out). \<forall>x \<in># op_rows wb. of_block h x)"
  unfolding batch_of_def using op_rows_mem by blast

lemma lifecycle_blocks_aux:
  assumes "handler_heights (handler e)" "\<forall>n i j. range_order (ords n i j)"
  shows "lifecycle e ords n ds p = Ok (outs, p') \<Longrightarrow> block_inv p \<Longrightarrow>
    block_inv p' \<and> list_all2 batch_of (heights (p_lastHeight p) ds) outs"
proof (induction ds arbitrary: n p outs)
  case (Cons d ds)
  from Cons.prems(1) obtain out p1 outs' where step: "lifecycle_step e (ords n) d p = Ok (out, p1)"
    and rest: "lifecycle e ords (Suc n) ds p1 = Ok (outs', p')" and outs: "outs = out # outs'"
    by (auto simp: and_then_Ok)
  have "\<forall>i j. range_order (ords n i j)" using assms(2) by blast
  from lifecycle_step_block [OF assms(1) this step Cons.prems(2)]
  have "block_inv p1" "p_lastHeight p1 = next_height (p_lastHeight p) d" "batch_of (p_lastHeight p) out"
    by (auto simp: batch_of_rows)
  with Cons.IH [OF rest] outs show ?case by simp
qed simp

text \<open>C8. If the data marshaler gives a row the height of its trace and what is pending at first is of the last height, everything
  a flush hands over belongs to the block that was being read: a trace with a new
  height flushes before it is processed, so no operation mixes rows of two blocks. Exempt (\<open>of_block\<close>) are the rows of
  height 0, which skipped traces and all unbonding delegations leave, and token infos, whose height
  the contract's value can set.\<close>

theorem lifecycle_blocks:
  assumes "handler_heights (handler e)" "\<forall>n i j. range_order (ords n i j)"
    and "lifecycle e ords 0 ds p = Ok (outs, p')" "block_inv p"
  shows "block_inv p' \<and> list_all2 batch_of (heights (p_lastHeight p) ds) outs"
  using lifecycle_blocks_aux [OF assms] .

definition next_trace :: TraceOperation where
  "next_trace = sample_trace\<lparr>top_BlockHeight := 6\<rparr>"

lemma sample_handler_heights: "handler_heights (handler sample_env)"
  by (simp add: handler_heights_def sample_env_def sample_handler_def row_of_def BalanceRow_at_def)

lemma sample_block_inv: "block_inv sample_processor"
  using sample_ok(1) by (auto simp: block_inv_def sample_processor_def cache_of_def row_of_def row_at_defs)

lemma sample_run:
  "is_ok (lifecycle sample_env (\<lambda>_ _ _. forward) 0 [sample_trace, next_trace] sample_processor)"
  by code_simp

theorem lifecycle_blocks_witness:
  "\<exists>outs p'. lifecycle sample_env (\<lambda>_ _ _. forward) 0 [sample_trace, next_trace] sample_processor = Ok (outs, p') \<and>
    block_inv p' \<and> list_all2 batch_of (heights (p_lastHeight sample_processor) [sample_trace, next_trace]) outs"
proof -
  obtain outs p' where run:
    "lifecycle sample_env (\<lambda>_ _ _. forward) 0 [sample_trace, next_trace] sample_processor = Ok (outs, p')"
    using sample_run by (cases "lifecycle sample_env (\<lambda>_ _ _. forward) 0 [sample_trace, next_trace] sample_processor") auto
  have "\<forall>n i j. range_order ((\<lambda>_ _ _. forward) (n :: nat) (i :: nat) (j :: nat))" by simp
  from lifecycle_blocks [OF sample_handler_heights this run sample_block_inv] run show ?thesis by blast
qed

end
