(* ===== verification/Schema.thy ===== *)
theory Schema
  imports Blocks
begin

text \<open>
  The statements the main program can execute: every module has a table, the text of a statement
  determines its kind and its table, and the rows a module flushes fit the statement they come with.
\<close>

section \<open>The schema of the main program\<close>

definition module_table :: "module \<Rightarrow> string \<times> TableConfig" where
  "module_table m =
     (case m of
        MAuth _ \<Rightarrow> (''tracelistener.auth'', auth_config)
      | MBank _ \<Rightarrow> (''tracelistener.balances'', balances_config)
      | MCW20Balances _ \<Rightarrow> (''tracelistener.cw20_balances'', cw20_balances_config)
      | MCW20TokenInfos _ \<Rightarrow> (''tracelistener.cw20_token_infos'', cw20_token_info_config)
      | MDelegations _ \<Rightarrow> (''tracelistener.delegations'', delegations_config)
      | MChannels _ \<Rightarrow> (''tracelistener.channels'', channels_config)
      | MClients _ \<Rightarrow> (''tracelistener.clients'', clients_config)
      | MConnections _ \<Rightarrow> (''tracelistener.connections'', connections_config)
      | MDenomTraces _ \<Rightarrow> (''tracelistener.denom_traces'', denom_traces_config)
      | MUnbonding _ \<Rightarrow> (''tracelistener.unbonding_delegations'', unbonding_delegations_config)
      | MValidators _ \<Rightarrow> (''tracelistener.validators'', validators_config))"

definition main_schema :: "(string \<times> TableConfig) list" where
  "main_schema =
     [(''tracelistener.auth'', auth_config),
      (''tracelistener.balances'', balances_config),
      (''tracelistener.cw20_balances'', cw20_balances_config),
      (''tracelistener.cw20_token_infos'', cw20_token_info_config),
      (''tracelistener.delegations'', delegations_config),
      (''tracelistener.channels'', channels_config),
      (''tracelistener.clients'', clients_config),
      (''tracelistener.connections'', connections_config),
      (''tracelistener.denom_traces'', denom_traces_config),
      (''tracelistener.unbonding_delegations'', unbonding_delegations_config),
      (''tracelistener.validators'', validators_config)]"

section \<open>A statement determines its kind and its table\<close>

lemma sprintf_append: "CHR ''%'' \<notin> set lit \<Longrightarrow> sprintf (lit @ rest) as = lit @ sprintf rest as"
proof (induction lit)
  case (Cons c lit)
  then show ?case by (cases "lit @ rest") auto
qed simp

lemma sprintf_verb [simp]: "sprintf (CHR ''%'' # CHR ''s'' # rest) (a # as) = a @ sprintf rest as"
  by simp

lemma sprintf_plain: "CHR ''%'' \<notin> set s \<Longrightarrow> sprintf s as = s"
  using sprintf_append [of s "[]" as] by simp

definition stmt :: "stmt_kind \<Rightarrow> string \<times> TableConfig \<Rightarrow> string" where
  "stmt k tc =
     (case k of
        KInsert \<Rightarrow> gt_Insert (generated (snd tc) (fst tc))
      | KUpsert \<Rightarrow> gt_Upsert (generated (snd tc) (fst tc))
      | KDelete \<Rightarrow> gt_Delete (generated (snd tc) (fst tc)))"

lemma statements_stmt:
  "set (statements schema) = {(stmt k tc, k, tc) | k tc. tc \<in> set schema}"
  unfolding statements_def stmt_def
  by (auto split: stmt_kind.splits) (metis stmt_kind.exhaust)

text \<open>No table name has a blank, no column name has a percent sign.\<close>

definition names_ok :: "string \<times> TableConfig \<Rightarrow> bool" where
  "names_ok tc \<longleftrightarrow> CHR '' '' \<notin> set (fst tc) \<and> CHR 0x0A \<notin> set (fst tc) \<and>
     CHR ''%'' \<notin> set (concat (InsertColumns (snd tc)) @ concat (tc_UniqueColumns (snd tc)))"

lemma set_join: "set (join sep xs) \<subseteq> set sep \<union> set (concat xs)"
  by (induction sep xs rule: join.induct) auto

lemma join_plain:
  assumes "c \<notin> set sep" "\<forall>x \<in> set xs. c \<notin> set x"
  shows "c \<notin> set (join sep xs)"
  using assms set_join [of sep xs] by auto

lemma tmpl_plain:
  assumes "names_ok tc"
  shows "CHR ''%'' \<notin> set (CommaJoin (InsertColumns (snd tc)))"
    "CHR ''%'' \<notin> set (CommaJoin (InsertColumnsParams (snd tc)))"
  using assms unfolding CommaJoin_def
  by (intro join_plain; auto simp: names_ok_def InsertColumnsParams_def)+

definition insert_head :: "string \<times> TableConfig \<Rightarrow> string" where
  "insert_head tc = '' ('' @ CommaJoin (InsertColumns (snd tc)) @ '')'' @ nl @
     tabs 2 @ ''VALUES ('' @ CommaJoin (InsertColumnsParams (snd tc)) @ '')'' @ nl @ tabs 1"

lemma insert_head_plain: "names_ok tc \<Longrightarrow> CHR ''%'' \<notin> set (insert_head tc)"
  using tmpl_plain [of tc] by (simp add: insert_head_def nl_def tabs_def)

definition insert_lit :: string where
  "insert_lit = nl @ tabs 2 @ ''INSERT INTO ''"

definition update_lit :: string where
  "update_lit = nl @ tabs 2 @ ''UPDATE ''"

lemma lit_plain: "CHR ''%'' \<notin> set insert_lit" "CHR ''%'' \<notin> set update_lit"
  by (simp_all add: insert_lit_def update_lit_def nl_def tabs_def)

lemma stmt_Insert:
  assumes "names_ok tc"
  shows "stmt KInsert tc = insert_lit @ fst tc @ insert_head tc"
proof -
  have "tmpl_Insert (snd tc) = insert_lit @ CHR ''%'' # CHR ''s'' # insert_head tc"
    by (simp add: tmpl_Insert_def insert_head_def insert_lit_def)
  then show ?thesis
    using sprintf_append [OF lit_plain(1)] sprintf_plain [OF insert_head_plain [OF assms]]
    by (simp add: stmt_def generated_def)
qed

definition conflict_clause :: "string \<times> TableConfig \<Rightarrow> string" where
  "conflict_clause tc = ''ON CONFLICT ('' @ CommaJoin (tc_UniqueColumns (snd tc)) @ '')'' @ nl @
     tabs 2 @ ''DO UPDATE'' @ nl @
     tabs 2 @ ''SET delete_height = NULL, '' @ CommaJoin (UpsertSet (snd tc)) @ nl @
     tabs 2 @ ''WHERE %s.height < EXCLUDED.height'' @ nl @ tabs 1"

lemma stmt_Upsert:
  assumes "names_ok tc"
  shows "\<exists>rest. stmt KUpsert tc = insert_lit @ fst tc @ insert_head tc @ CHR 0x09 # rest"
proof -
  have two: "tabs 2 = tabs 1 @ [CHR 0x09]" by (simp add: tabs_def numeral_eq_Suc)
  have "tmpl_Upsert (snd tc) =
      insert_lit @ CHR ''%'' # CHR ''s'' # insert_head tc @ CHR 0x09 # conflict_clause tc"
    by (simp add: tmpl_Upsert_def insert_head_def insert_lit_def conflict_clause_def two)
  moreover have "sprintf (CHR 0x09 # xs) as = CHR 0x09 # sprintf xs as" for xs as
    using sprintf_append [of "[CHR 0x09]" xs as] by simp
  ultimately show ?thesis
    using sprintf_append [OF lit_plain(1)] sprintf_append [OF insert_head_plain [OF assms]]
    by (simp add: stmt_def generated_def)
qed

lemma stmt_Delete: "\<exists>rest. stmt KDelete tc = update_lit @ fst tc @ CHR 0x0A # rest"
proof -
  have "tmpl_Delete (snd tc) = update_lit @ CHR ''%'' # CHR ''s'' # CHR 0x0A #
      tabs 2 @ ''SET delete_height = :height, height = :height'' @ nl @
      tabs 2 @ ''WHERE '' @ JoinAnd (WhereConditions (snd tc)) @ nl @
      tabs 2 @ ''AND delete_height IS NULL'' @ nl @ tabs 1"
    by (simp add: tmpl_Delete_def update_lit_def nl_def)
  moreover have "sprintf (CHR 0x0A # xs) as = CHR 0x0A # sprintf xs as" for xs as
    using sprintf_append [of "[CHR 0x0A]" xs as] by simp
  ultimately show ?thesis
    using sprintf_append [OF lit_plain(2)] by (simp add: stmt_def generated_def)
qed

text \<open>The table name ends at the first blank or line break.\<close>

definition word :: "string \<Rightarrow> string" where
  "word s = takeWhile (\<lambda>c. c \<noteq> CHR '' '' \<and> c \<noteq> CHR 0x0A) s"

lemma word_name:
  assumes "names_ok tc"
  shows "word (fst tc @ CHR '' '' # rest) = fst tc" "word (fst tc @ CHR 0x0A # rest) = fst tc"
proof -
  have "\<forall>c \<in> set (fst tc). c \<noteq> CHR '' '' \<and> c \<noteq> CHR 0x0A" using assms by (auto simp: names_ok_def)
  then show "word (fst tc @ CHR '' '' # rest) = fst tc" "word (fst tc @ CHR 0x0A # rest) = fst tc"
    by (simp_all add: word_def)
qed

lemma insert_head_blank: "\<exists>rest. insert_head tc = CHR '' '' # rest"
  by (simp add: insert_head_def)

definition stmt_shape :: "string \<Rightarrow> bool \<times> string" where
  "stmt_shape q =
     (if take (length insert_lit) q = insert_lit then (True, word (drop (length insert_lit) q))
      else (False, word (drop (length update_lit) q)))"

lemma stmt_shape_stmt:
  assumes "names_ok tc"
  shows "stmt_shape (stmt k tc) = (k \<noteq> KDelete, fst tc)"
proof (cases k)
  case KInsert
  with assms insert_head_blank [of tc] show ?thesis
    by (auto simp: stmt_Insert stmt_shape_def word_name)
next
  case KUpsert
  with stmt_Upsert [OF assms] insert_head_blank [of tc] assms show ?thesis
    by (auto simp: stmt_shape_def word_name)
next
  case KDelete
  obtain rest where rest: "stmt KDelete tc = update_lit @ fst tc @ CHR 0x0A # rest"
    using stmt_Delete by blast
  have "stmt_shape (update_lit @ xs) = (False, word xs)" for xs
    by (simp add: stmt_shape_def insert_lit_def update_lit_def nl_def tabs_def numeral_eq_Suc)
  with rest KDelete assms show ?thesis by (simp add: word_name)
qed

definition schema_ok :: "(string \<times> TableConfig) list \<Rightarrow> bool" where
  "schema_ok schema \<longleftrightarrow> distinct (map fst schema) \<and> list_all names_ok schema"

lemma stmt_inj:
  assumes "schema_ok schema" "tc \<in> set schema" "tc' \<in> set schema" "stmt k tc = stmt k' tc'"
  shows "k = k' \<and> tc = tc'"
proof -
  have ok: "names_ok tc" "names_ok tc'" using assms by (auto simp: schema_ok_def list_all_iff)
  then have "(k \<noteq> KDelete, fst tc) = (k' \<noteq> KDelete, fst tc')"
    using stmt_shape_stmt [of tc k] stmt_shape_stmt [of tc' k'] assms(4) by simp
  then have k: "k = KDelete \<longleftrightarrow> k' = KDelete" and fst: "fst tc = fst tc'" by auto
  have tc: "tc = tc'"
    using fst assms(1-3) by (metis eq_key_imp_eq_value prod.collapse schema_ok_def)
  obtain rest where "stmt KUpsert tc = insert_lit @ fst tc @ insert_head tc @ CHR 0x09 # rest"
    using stmt_Upsert [OF ok(1)] by blast
  with stmt_Insert [OF ok(1)] have "stmt KUpsert tc \<noteq> stmt KInsert tc" by simp
  with k assms(4) tc show ?thesis by (cases k; cases k') auto
qed

lemma lookup_stmt:
  assumes "schema_ok schema" "tc \<in> set schema"
  shows "map_of (statements schema) (stmt k tc) = Some (k, tc)"
proof -
  have mem: "(stmt k tc, k, tc) \<in> set (statements schema)"
    using assms(2) unfolding statements_stmt by blast
  then obtain v where v: "map_of (statements schema) (stmt k tc) = Some v"
    by (metis map_of_eq_None_iff not_None_eq fst_conv image_eqI)
  from map_of_SomeD [OF this] have "\<exists>k' tc'. v = (k', tc') \<and> tc' \<in> set schema \<and> stmt k tc = stmt k' tc'"
    by (auto simp: statements_stmt)
  with stmt_inj [OF assms] v show ?thesis by auto
qed

lemma main_schema_ok: "schema_ok main_schema"
  by code_simp

lemma module_table_schema: "module_table m \<in> set main_schema"
  by (cases m) (simp_all add: module_table_def main_schema_def)

text \<open>The statements of a module are those of its table.\<close>

lemmas table_defs = authTable_def balancesTable_def cw20BalanceTable_def cw20TokenInfoTable_def
  channelsTable_def clientsTable_def connectionsTable_def denomTracesTable_def delegationsTable_def
  unbondingDelegationsTable_def validatorsTable_def

lemma module_UpsertStatement_stmt: "module_UpsertStatement m = stmt KUpsert (module_table m)"
  by (cases m) (simp_all add: module_table_def stmt_def table_defs current_code
      auth_UpsertStatement_def bank_UpsertStatement_def cw20_balances_UpsertStatement_def
      cw20_token_infos_UpsertStatement_def delegations_UpsertStatement_def ibc_channels_UpsertStatement_def
      ibc_clients_UpsertStatement_def ibc_connections_UpsertStatement_def ibc_denom_traces_UpsertStatement_def
      unbonding_delegations_UpsertStatement_def validators_UpsertStatement_def)

lemma module_InsertStatement_stmt: "module_InsertStatement m = stmt KInsert (module_table m)"
  by (cases m) (simp_all add: module_table_def stmt_def table_defs current_code
      auth_InsertStatement_def bank_InsertStatement_def cw20_balances_InsertStatement_def
      cw20_token_infos_InsertStatement_def delegations_InsertStatement_def ibc_channels_InsertStatement_def
      ibc_clients_InsertStatement_def ibc_connections_InsertStatement_def ibc_denom_traces_InsertStatement_def
      unbonding_delegations_InsertStatement_def validators_InsertStatement_def)

lemma module_DeleteStatement_stmt:
  "module_DeleteStatement m = Ok q \<Longrightarrow> q = stmt KDelete (module_table m)"
  by (cases m) (simp_all add: module_table_def stmt_def table_defs current_code module_DeleteStatement_defs)

section \<open>Rows fit the statements of their module\<close>

lemmas config_defs = auth_config_def balances_config_def cw20_balances_config_def
  cw20_token_info_config_def delegations_config_def channels_config_def clients_config_def
  connections_config_def denom_traces_config_def unbonding_delegations_config_def validators_config_def

lemma main_configs_ok: "tc \<in> set main_schema \<Longrightarrow> config_ok (snd tc)"
proof -
  have "list_all (\<lambda>tc. config_ok (snd tc)) main_schema" by code_simp
  then show "tc \<in> set main_schema \<Longrightarrow> config_ok (snd tc)" by (simp add: list_all_iff)
qed

definition fits :: "TableConfig \<Rightarrow> entrier \<Rightarrow> bool" where
  "fits cfg e \<longleftrightarrow> bound e (InsertColumns cfg) \<and> bound e (tc_UniqueColumns cfg) \<and>
     length (InsertColumns cfg) = NumField e + 1 \<and> length (tc_UniqueColumns cfg) \<le> 3"

lemma arg_iff: "arg e p = None \<longleftrightarrow> p \<notin> set (map fst (db_args e))"
  unfolding arg_def map_of_eq_None_iff set_map ..

lemma args_WithChainName: "map fst (db_args (WithChainName cn e)) = map fst (db_args e)"
  by (simp add: db_args_def base_args_def)

lemma fits_WithChainName [simp]: "fits cfg (WithChainName cn e) = fits cfg e"
  unfolding fits_def bound_def arg_iff args_WithChainName NumField_WithChainName ..

lemma fits_bound: "fits cfg e \<Longrightarrow> bound e (stmt_params k cfg)"
  by (auto simp: fits_def bound_def stmt_params_def list_all_iff split: stmt_kind.split)

lemma fits_rows:
  "fits balances_config (EBalance r1)" "fits cw20_balances_config (ECW20Balance r2)"
  "fits cw20_token_info_config (ECW20TokenInfo r3)" "fits delegations_config (EDelegation r4)"
  "fits channels_config (EChannel r5)" "fits connections_config (EConnection r6)"
  "fits denom_traces_config (EDenomTrace r7)" "fits auth_config (EAuth r8)"
  "fits clients_config (EClient r9)" "fits unbonding_delegations_config (EUnbonding r10)"
  "fits validators_config (EValidator r11)"
  by (simp_all add: fits_def bound_def arg_iff db_args_def base_args_def NumField_def
      InsertColumns_def config_defs)

lemma pending_fits: "e \<in># pending m \<Longrightarrow> fits (snd (module_table m)) e"
  by (cases m) (auto simp: module_table_def fits_rows)

section \<open>Unique keys\<close>

lemma unique_keys:
  "unique_key balances_config (EBalance r1) =
     [Text (ChainName r1), Text (bal_Address r1), Text (bal_Denom r1)]"
  "unique_key cw20_balances_config (ECW20Balance r2) =
     [Text (ChainName r2), Text (cwb_ContractAddress r2), Text (cwb_Address r2)]"
  "unique_key cw20_token_info_config (ECW20TokenInfo r3) =
     [Text (ChainName r3), Text (cwt_ContractAddress r3)]"
  "unique_key delegations_config (EDelegation r4) =
     [Text (ChainName r4), Text (del_Delegator r4), Text (del_Validator r4)]"
  "unique_key channels_config (EChannel r5) =
     [Text (ChainName r5), Text (chn_ChannelID r5), Text (chn_Port r5)]"
  "unique_key connections_config (EConnection r6) =
     [Text (ChainName r6), Text (con_ConnectionID r6), Text (con_ClientID r6)]"
  "unique_key denom_traces_config (EDenomTrace r7) = [Text (ChainName r7), Text (dnt_Hash r7)]"
  "unique_key auth_config (EAuth r8) =
     [Text (ChainName r8), Text (auth_Address r8), UInt (auth_AccountNumber r8)]"
  "unique_key clients_config (EClient r9) =
     [Text (ChainName r9), Text (cli_ChainID r9), Text (cli_ClientID r9)]"
  "unique_key unbonding_delegations_config (EUnbonding r10) =
     [Text (ChainName r10), Text (ubd_Delegator r10), Text (ubd_Validator r10)]"
  "unique_key validators_config (EValidator r11) =
     [Text (ChainName r11), Text (val_OperatorAddress r11)]"
  by (simp_all add: unique_key_def arg_def db_args_def base_args_def config_defs tl_row.defs)

text \<open>A cache is keyed when its keys are read off its rows; then its rows have distinct unique keys.\<close>

definition keyed :: "('r \<Rightarrow> 'k) \<Rightarrow> ('k, 'r) gomap \<Rightarrow> bool" where
  "keyed key c \<longleftrightarrow> gomap_ok c \<and> (\<forall>kv \<in> set c. fst kv = key (snd kv))"

lemma keyed_Nil [simp]: "keyed key []"
  by (simp add: keyed_def gomap_simps)

lemma keyed_set [intro]:
  assumes "keyed key c" "k = key r"
  shows "keyed key (gomap_set k r c)"
proof -
  have "fst kv = key (snd kv)" if "kv \<in> set (gomap_set k r c)" for kv
    using gomap_set_mem [of "fst kv" "snd kv" k r c] that assms by (auto simp: keyed_def)
  with assms(1) show ?thesis by (auto simp: keyed_def gomap_simps)
qed

lemma keyed_distinct:
  assumes "keyed key c" "\<And>r s. f r = f s \<Longrightarrow> key r = key s"
  shows "distinct (map (\<lambda>kv. f (snd kv)) c)"
proof -
  have ok: "distinct (map fst c)" using assms(1) by (simp add: keyed_def gomap_ok_def)
  have "kv = kv'" if "kv \<in> set c" "kv' \<in> set c" "f (snd kv) = f (snd kv')" for kv kv'
  proof -
    have "fst kv = fst kv'" using assms(2) [OF that(3)] that(1,2) assms(1) by (simp add: keyed_def)
    then have "snd kv = snd kv'"
      using eq_key_imp_eq_value [OF ok, of "fst kv" "snd kv" "snd kv'"] that(1,2) by (cases kv; cases kv') simp
    with \<open>fst kv = fst kv'\<close> show ?thesis by (simp add: prod_eq_iff)
  qed
  then show ?thesis using ok by (auto simp: distinct_map inj_on_def)
qed

text \<open>The modules whose caches are keyed. The cache of token infos is keyed by the address in the store
  key, its rows carry the address left by the contract's value, so that their unique keys may clash.\<close>

primrec well_keyed :: "module \<Rightarrow> bool" where
  "well_keyed (MAuth b) = keyed (\<lambda>res. (auth_Address res, auth_AccountNumber res)) (ap_heightCache b)"
| "well_keyed (MBank b) = keyed (\<lambda>res. (bal_Address res, bal_Denom res)) (bp_heightCache b)"
| "well_keyed (MCW20Balances b) = keyed (\<lambda>val. (cwb_Address val, cwb_ContractAddress val)) (cbp_heightCache b)"
| "well_keyed (MCW20TokenInfos b) = distinct (map (\<lambda>kv. cwt_ContractAddress (snd kv)) (ctp_heightCache b))"
| "well_keyed (MDelegations b) =
     (keyed (\<lambda>res. (del_Validator res, del_Delegator res)) (dep_insertHeightCache b) \<and>
      keyed (\<lambda>res. (del_Validator res, del_Delegator res)) (dep_deleteHeightCache b))"
| "well_keyed (MChannels b) = keyed (\<lambda>res. (chn_ChannelID res, chn_Port res)) (chp_channelsCache b)"
| "well_keyed (MClients b) = keyed (\<lambda>res. (cli_ChainID res, cli_ClientID res)) (clp_clientsCache b)"
| "well_keyed (MConnections b) = keyed (\<lambda>res. (con_ConnectionID res, con_ClientID res)) (cop_connectionsCache b)"
| "well_keyed (MDenomTraces b) = keyed (\<lambda>res. (dnt_Hash res)) (dtp_denomTracesCache b)"
| "well_keyed (MUnbonding b) =
     (keyed (\<lambda>res. (ubd_Validator res, ubd_Delegator res)) (udp_insertHeightCache b) \<and>
      keyed (\<lambda>res. (ubd_Validator res, ubd_Delegator res)) (udp_deleteHeightCache b))"
| "well_keyed (MValidators b) =
     (keyed val_OperatorAddress (vap_insertValidatorsCache b) \<and>
      keyed val_OperatorAddress (vap_deleteValidatorsCache b))"

primrec is_token_infos :: "module \<Rightarrow> bool" where
  "is_token_infos (MAuth b) = False"
| "is_token_infos (MBank b) = False"
| "is_token_infos (MCW20Balances b) = False"
| "is_token_infos (MCW20TokenInfos b) = True"
| "is_token_infos (MDelegations b) = False"
| "is_token_infos (MChannels b) = False"
| "is_token_infos (MClients b) = False"
| "is_token_infos (MConnections b) = False"
| "is_token_infos (MDenomTraces b) = False"
| "is_token_infos (MUnbonding b) = False"
| "is_token_infos (MValidators b) = False"

lemma well_keyed_process:
  assumes "module_Process e m d = Ok m'" "well_keyed m" "\<not> is_token_infos m"
  shows "well_keyed m'"
  using assms
  by (cases m) (auto simp: process_defs and_then_Ok Let_def UnbondingDelegationRow_at_def
      intro!: keyed_set split: if_splits)

lemma well_keyed_flush [simp]: "well_keyed (snd (module_FlushCache ord m))"
  using module_flush.flush_clears [of ord m] by (cases m) simp_all

section \<open>What a module writes and deletes\<close>

primrec upserts :: "module \<Rightarrow> entrier list" where
  "upserts (MAuth b) = map (EAuth \<circ> snd) (ap_heightCache b)"
| "upserts (MBank b) = map (EBalance \<circ> snd) (bp_heightCache b)"
| "upserts (MCW20Balances b) = map (ECW20Balance \<circ> snd) (cbp_heightCache b)"
| "upserts (MCW20TokenInfos b) = map (ECW20TokenInfo \<circ> snd) (ctp_heightCache b)"
| "upserts (MDelegations b) = map (EDelegation \<circ> snd) (dep_insertHeightCache b)"
| "upserts (MChannels b) = map (EChannel \<circ> snd) (chp_channelsCache b)"
| "upserts (MClients b) = map (EClient \<circ> snd) (clp_clientsCache b)"
| "upserts (MConnections b) = map (EConnection \<circ> snd) (cop_connectionsCache b)"
| "upserts (MDenomTraces b) = map (EDenomTrace \<circ> snd) (dtp_denomTracesCache b)"
| "upserts (MUnbonding b) = map (EUnbonding \<circ> snd) (udp_insertHeightCache b)"
| "upserts (MValidators b) = map (EValidator \<circ> snd) (vap_insertValidatorsCache b)"

primrec removals :: "module \<Rightarrow> entrier list" where
  "removals (MAuth b) = []"
| "removals (MBank b) = []"
| "removals (MCW20Balances b) = []"
| "removals (MCW20TokenInfos b) = []"
| "removals (MDelegations b) = map (EDelegation \<circ> snd) (dep_deleteHeightCache b)"
| "removals (MChannels b) = []"
| "removals (MClients b) = []"
| "removals (MConnections b) = []"
| "removals (MDenomTraces b) = []"
| "removals (MUnbonding b) = map (EUnbonding \<circ> snd) (udp_deleteHeightCache b)"
| "removals (MValidators b) = map (EValidator \<circ> snd) (vap_deleteValidatorsCache b)"

lemma range_order_lt: "range_order ord \<Longrightarrow> i \<in> set (ord n) \<Longrightarrow> i < n"
  by (metis atLeastLessThan_iff range_order_def set_mset_mset set_upt)

lemma ranged_map: "range_order ord \<Longrightarrow> ranged ord (map f xs) = map f (ranged ord xs)"
  by (simp add: ranged_def range_order_lt)

lemma module_flush_form:
  assumes "\<forall>i. range_order (ord i)"
  shows "fst (module_FlushCache ord m) =
    (if upserts m = [] \<and> removals m = [] then []
     else write_op (ranged (ord 0) (upserts m)) # map delete_op (ranged (ord 1) (removals m)))"
  using assms by (cases m) (auto simp: write_flush_ops delete_flush_ops ranged_map comp_def)

lemma pending_rows: "pending m = mset (upserts m) + mset (removals m)"
  by (cases m) simp_all

lemma removals_deletes: "removals m \<noteq> [] \<Longrightarrow> \<exists>q. module_DeleteStatement m = Ok q"
  by (cases m) (simp_all add: module_DeleteStatement_defs)

text \<open>Rows of a well-keyed module never share a unique key within the rows to write or to delete.\<close>

lemma well_keyed_distinct:
  assumes "well_keyed m"
  shows "distinct (map (unique_key (snd (module_table m)) \<circ> WithChainName cn) (upserts m))"
    "distinct (map (unique_key (snd (module_table m)) \<circ> WithChainName cn) (removals m))"
proof -
  have infos: "distinct (map (\<lambda>x. [Text cn, Text (cwt_ContractAddress (snd x))]) c)"
    if "distinct (map (\<lambda>kv. cwt_ContractAddress (snd kv)) c)"
    for c :: "(cw20TokenInfoCacheEntry, CW20TokenInfoRow) gomap"
    using that by (simp add: distinct_map inj_on_def)
  show "distinct (map (unique_key (snd (module_table m)) \<circ> WithChainName cn) (upserts m))"
    using assms by (cases m) (auto simp: module_table_def unique_keys comp_def infos elim!: keyed_distinct)
  show "distinct (map (unique_key (snd (module_table m)) \<circ> WithChainName cn) (removals m))"
    using assms by (cases m) (auto simp: module_table_def unique_keys comp_def elim!: keyed_distinct)
qed

end
