(* ===== verification/Main_Loop.thy ===== *)
theory Main_Loop
  imports Schema
begin

text \<open>
  The main program's loop over its channels (\<open>cmd/tracelistener/main.go\<close>) with the database behind it
  (\<open>tracelistener/database/database.go\<close>): each operation of a batch is cut into units, each unit is
  executed as one statement, and an error is logged and does not stop the loop. The sleep before a
  statement changes no state. An argument \<open>f\<close> tells which statements fail for a reason outside the program.
\<close>

section \<open>The loop\<close>

definition Add :: "fault \<Rightarrow> string \<Rightarrow> entrier list \<Rightarrow> database \<Rightarrow> database outcome" where
  "Add failure query data db = NamedExec failure main_schema query data db"

datatype main_event =
    WatchingError string
  | ProcessingError tracing_error
  | Writebacks "WritebackOp list"

datatype log_entry =
    LogWatching string
  | LogProcessing tracing_error
  | LogDatabase string WritebackOp

text \<open>The loop over the units of one operation, then the one over the operations of a batch. The arguments \<open>f\<close> say
  which statement fails: the one for unit \<open>u\<close> of operation \<open>i\<close> of the batch of event \<open>n\<close>.\<close>

fun write_units ::
    "(nat \<Rightarrow> fault) \<Rightarrow> WritebackOp list \<Rightarrow> database \<Rightarrow> (database \<times> log_entry list) outcome" where
  "write_units f [] db = Ok (db, [])"
| "write_units f (wbUnit # wbUnits) db =
     (let is' = InterfaceSlice wbUnit
      in if length is' = 0 then write_units (\<lambda>u. f (Suc u)) wbUnits db
         else case Add (f 0) (wb_Statement wbUnit) is' db of
           Ok db' \<Rightarrow> write_units (\<lambda>u. f (Suc u)) wbUnits db'
         | Err e \<Rightarrow> and_then (write_units (\<lambda>u. f (Suc u)) wbUnits db) (\<lambda>(db', logs).
             Ok (db', LogDatabase e wbUnit # logs))
         | Panic q \<Rightarrow> Panic q)"

fun write_batch ::
    "(nat \<Rightarrow> nat \<Rightarrow> fault) \<Rightarrow> WritebackOp list \<Rightarrow> database \<Rightarrow> (database \<times> log_entry list) outcome" where
  "write_batch f [] db = Ok (db, [])"
| "write_batch f (p # b) db =
     and_then (SplitStatementToDBLimit p) (\<lambda>wbUnits.
     and_then (write_units (f 0) wbUnits db) (\<lambda>(db', logs).
     and_then (write_batch (\<lambda>i. f (Suc i)) b db') (\<lambda>(db'', logs'). Ok (db'', logs @ logs'))))"

definition main_step ::
    "(nat \<Rightarrow> nat \<Rightarrow> fault) \<Rightarrow> main_event \<Rightarrow> database \<Rightarrow> (database \<times> log_entry list) outcome" where
  "main_step f ev db =
     (case ev of
        WatchingError e \<Rightarrow> Ok (db, [LogWatching e])
      | ProcessingError te \<Rightarrow> Ok (db, [LogProcessing te])
      | Writebacks b \<Rightarrow> write_batch f b db)"

fun main_loop ::
    "(nat \<Rightarrow> nat \<Rightarrow> nat \<Rightarrow> fault) \<Rightarrow> main_event list \<Rightarrow> database \<Rightarrow> (database \<times> log_entry list) outcome" where
  "main_loop f [] db = Ok (db, [])"
| "main_loop f (ev # evs) db =
     and_then (main_step (f 0) ev db) (\<lambda>(db', logs).
     and_then (main_loop (\<lambda>n. f (Suc n)) evs db') (\<lambda>(db'', logs'). Ok (db'', logs @ logs')))"

abbreviation no_fault :: "nat \<Rightarrow> fault" where "no_fault \<equiv> \<lambda>_. None"
abbreviation no_faults :: "nat \<Rightarrow> nat \<Rightarrow> fault" where "no_faults \<equiv> \<lambda>_ _. None"
abbreviation never :: "nat \<Rightarrow> nat \<Rightarrow> nat \<Rightarrow> fault" where "never \<equiv> \<lambda>_ _ _. None"

section \<open>An operation as a whole\<close>

lemma lookup_main:
  assumes "tc \<in> set main_schema"
  shows "map_of (statements main_schema) (stmt k tc) = Some (k, fst tc, snd tc)"
  using lookup_stmt [OF main_schema_ok assms, of k] by simp

lemma Add_upsert:
  assumes "tc \<in> set main_schema" "\<forall>e \<in> set es. fits (snd tc) e"
    and "length (InsertColumns (snd tc)) * length es \<le> 65535"
    and "distinct (map (unique_key (snd tc)) es)"
  shows "Add None (stmt KUpsert tc) es db = Ok (db(fst tc := fold (upsert_row (snd tc)) es (db (fst tc))))"
  using assms(2-4) by (simp add: Add_def NamedExec_def lookup_main [OF assms(1)]
      case_prod_unfold
      placeholders_def exec_rows_def list_all_iff fits_bound)

lemma Add_delete:
  assumes "tc \<in> set main_schema" "fits (snd tc) e"
  shows "Add None (stmt KDelete tc) [e] db = Ok (db(fst tc := delete_row (snd tc) e (db (fst tc))))"
proof -
  have "length (tc_UniqueColumns (snd tc)) \<le> 3" using assms(2) by (simp add: fits_def)
  with assms(2) show ?thesis
    by (simp add: Add_def NamedExec_def lookup_main [OF assms(1)] case_prod_unfold
        placeholders_def exec_rows_def fits_bound)
qed

text \<open>Units of an upsert, each small enough for one statement, do what the whole rows do.\<close>

lemma write_units_upsert:
  assumes "tc \<in> set main_schema"
  shows "\<forall>u \<in> set us. wb_Statement u = stmt KUpsert tc \<and>
      length (InsertColumns (snd tc)) * length (wb_Data u) \<le> 65535 \<Longrightarrow>
    \<forall>e \<in> set (concat (map wb_Data us)). fits (snd tc) e \<Longrightarrow>
    distinct (map (unique_key (snd tc)) (concat (map wb_Data us))) \<Longrightarrow>
    write_units no_fault us db =
      Ok (db(fst tc := fold (upsert_row (snd tc)) (concat (map wb_Data us)) (db (fst tc))), [])"
proof (induction us arbitrary: db)
  case (Cons u us)
  show ?case
  proof (cases "wb_Data u = []")
    case True
    with Cons show ?thesis by (simp add: InterfaceSlice_Data)
  next
    case False
    have "Add None (stmt KUpsert tc) (wb_Data u) db =
      Ok (db(fst tc := fold (upsert_row (snd tc)) (wb_Data u) (db (fst tc))))"
      using Cons.prems by (intro Add_upsert [OF assms]) auto
    moreover have "write_units no_fault us db' =
      Ok (db'(fst tc := fold (upsert_row (snd tc)) (concat (map wb_Data us)) (db' (fst tc))), [])" for db'
      using Cons.prems by (intro Cons.IH) auto
    ultimately show ?thesis using Cons.prems(1) False
      by (simp add: InterfaceSlice_Data fun_eq_iff)
  qed
qed simp

lemma split_units:
  assumes "\<forall>e \<in> set (wb_Data wo). fits cfg e" "length (wb_Data wo) < 2 ^ 40"
  shows "\<exists>us. SplitStatementToDBLimit wo = Ok us \<and> concat (map wb_Data us) = wb_Data wo \<and>
    (\<forall>u \<in> set us. wb_Statement u = wb_Statement wo \<and>
      length (InsertColumns cfg) * length (wb_Data u) \<le> 65535)"
proof (cases "wb_Data wo = []")
  case True
  then show ?thesis by (simp add: SplitStatementToDBLimit_def SplitStatements_def)
next
  case False
  then obtain e where e: "e \<in> set (wb_Data wo)" by (cases "wb_Data wo") auto
  define f where "f = NumField e"
  have same: "\<forall>e \<in> set (wb_Data wo). NumField e = f"
    using assms(1) e unfolding fits_def f_def by (metis add_right_cancel)
  have f: "1 \<le> f" "f \<le> 21" "length (InsertColumns cfg) \<le> f + 1"
    using assms(1) e f_def NumField_pos [of e] NumField_le [of e] by (auto simp: fits_def)
  have "length (wb_Data wo) * f < 2 ^ 40 * 2 ^ 11"
    using assms(2) f by (intro mult_less_le_imp_less) auto
  then have "int (length (wb_Data wo)) * int f < 2 ^ 51"
    by (simp flip: of_nat_mult)
  then obtain us where us: "SplitStatementToDBLimit wo = Ok us" "concat (map wb_Data us) = wb_Data wo"
    "\<forall>u \<in> set us. wb_Statement u = wb_Statement wo \<and> int f * int (length (wb_Data u)) \<le> 6553"
    using SplitStatements_exact [of dbPlaceholderLimit wo "int f"] same f
    by (auto simp: SplitStatementToDBLimit_def dbPlaceholderLimit_def dbPlaceholderTotalLimit_def)
  have "length (InsertColumns cfg) * length (wb_Data u) \<le> 65535" if "u \<in> set us" for u
  proof -
    have "f * length (wb_Data u) \<le> 6553" using us(3) that by (simp flip: of_nat_mult)
    moreover have "length (InsertColumns cfg) \<le> 2 * f" using f by simp
    then have "length (InsertColumns cfg) * length (wb_Data u) \<le> 2 * f * length (wb_Data u)"
      by (rule mult_le_mono1)
    ultimately show ?thesis by (simp only: mult.assoc)
  qed
  with us show ?thesis by blast
qed

section \<open>A flush and its batch\<close>

text \<open>What the batch of a flush means: each module upserts the rows it holds and then marks rows as
  deleted, in its own table.\<close>

definition module_effect :: "string \<Rightarrow> module \<Rightarrow> database \<Rightarrow> database" where
  "module_effect cn m db =
     (let t = fst (module_table m); cfg = snd (module_table m)
      in db(t := fold (delete_row cfg) (map (WithChainName cn) (removals m))
                   (fold (upsert_row cfg) (map (WithChainName cn) (upserts m)) (db t))))"

definition small :: "module \<Rightarrow> bool" where
  "small m \<longleftrightarrow> size (pending m) < 2 ^ 40"

lemma and_then_assoc: "and_then (and_then r f) g = and_then r (\<lambda>x. and_then (f x) g)"
  by (cases r) auto

lemma write_batch_append:
  "write_batch f (a @ b) db =
    and_then (write_batch f a db) (\<lambda>(db', logs).
    and_then (write_batch (\<lambda>i. f (length a + i)) b db') (\<lambda>(db'', logs'). Ok (db'', logs @ logs')))"
proof (induction a arbitrary: f db)
  case (Cons p a)
  show ?case
    by (cases "SplitStatementToDBLimit p")
      (auto simp: Cons and_then_assoc case_prod_unfold)
qed (simp add: case_prod_unfold)

definition completed :: "Processor \<Rightarrow> module \<Rightarrow> string \<Rightarrow> WritebackOp \<Rightarrow> WritebackOp" where
  "completed p m st wo = wo\<lparr>wb_Data := map (WithChainName (p_chainName p)) (wb_Data wo),
     wb_Statement := st, wb_SourceModule := module_SDKModuleName m\<rparr>"

lemma complete_deletes:
  assumes "xs \<noteq> [] \<longrightarrow> module_DeleteStatement m = Ok q"
  shows "complete_ops p m (map delete_op xs) = Ok (map (completed p m q \<circ> delete_op) xs)"
  using assms by (induction xs) (simp_all add: completed_def statement_for_def)

lemma complete_flush:
  assumes "p_useDBUpsert p" "xs \<noteq> [] \<longrightarrow> module_DeleteStatement m = Ok q"
  shows "complete_ops p m (write_op ws # map delete_op xs) =
    Ok ((if ws = [] then [] else [completed p m (module_UpsertStatement m) (write_op ws)]) @
        map (completed p m q \<circ> delete_op) xs)"
  using complete_deletes [OF assms(2), of p] assms(1)
  by (simp add: completed_def statement_for_def)

lemma write_upserts:
  assumes "tc \<in> set main_schema" "\<forall>e \<in> set (wb_Data wo). fits (snd tc) e" "length (wb_Data wo) < 2 ^ 40"
    and "distinct (map (unique_key (snd tc)) (wb_Data wo))" "wb_Statement wo = stmt KUpsert tc"
  shows "write_batch no_faults [wo] db = Ok (db(fst tc := fold (upsert_row (snd tc)) (wb_Data wo) (db (fst tc))), [])"
proof -
  from split_units [OF assms(2,3)] obtain us where us: "SplitStatementToDBLimit wo = Ok us"
    "concat (map wb_Data us) = wb_Data wo"
    "\<forall>u \<in> set us. wb_Statement u = wb_Statement wo \<and>
      length (InsertColumns (snd tc)) * length (wb_Data u) \<le> 65535" by blast
  have "write_units no_fault us db =
      Ok (db(fst tc := fold (upsert_row (snd tc)) (concat (map wb_Data us)) (db (fst tc))), [])"
    using us assms by (intro write_units_upsert) auto
  with us(1,2) show ?thesis by simp
qed

lemma write_delete:
  assumes "tc \<in> set main_schema" "fits (snd tc) e" "wb_Data wo = [e]" "wb_Statement wo = stmt KDelete tc"
  shows "write_batch no_faults (wo # b) db = write_batch no_faults b (db(fst tc := delete_row (snd tc) e (db (fst tc))))"
proof -
  have "SplitStatements wo dbPlaceholderLimit = Ok [wo]"
    using SplitStatements_cases [of dbPlaceholderLimit wo e "[]" 1 "int (NumField e)"] NumField_le [of e] assms(3)
    by (simp add: dbPlaceholderLimit_def dbPlaceholderTotalLimit_def)
  with Add_delete [OF assms(1,2)] assms(3,4) show ?thesis
    by (simp add: SplitStatementToDBLimit_def InterfaceSlice_Data and_then_assoc)
qed

text \<open>Statements on rows with distinct unique keys commute.\<close>

lemma fold_rows_perm:
  assumes "distinct (map key es)" "mset es' = mset es"
    and "\<And>e e'. key e \<noteq> key e' \<Longrightarrow> f e \<circ> f e' = f e' \<circ> f e"
  shows "fold f es' T = fold f es T"
proof -
  have "f e \<circ> f e' = f e' \<circ> f e" if "e \<in> set es" "e' \<in> set es" for e e'
  proof (cases "e = e'")
    case False
    with assms(1) that have "key e \<noteq> key e'" by (auto simp: distinct_map inj_on_def)
    then show ?thesis by (rule assms(3))
  qed simp
  moreover have "set es' = set es" using assms(2) by (rule mset_eq_setD)
  ultimately have "fold f es' = fold f es" using assms(2) by (intro fold_multiset_equiv) auto
  then show ?thesis by simp
qed

lemma upsert_row_commute:
  "unique_key cfg e \<noteq> unique_key cfg e' \<Longrightarrow>
    upsert_row cfg e \<circ> upsert_row cfg e' = upsert_row cfg e' \<circ> upsert_row cfg e"
  by (rule ext) (auto simp: upsert_row_def fun_upd_twist split: option.splits)

lemma delete_row_commute:
  "unique_key cfg e \<noteq> unique_key cfg e' \<Longrightarrow>
    delete_row cfg e \<circ> delete_row cfg e' = delete_row cfg e' \<circ> delete_row cfg e"
  by (rule ext) (auto simp: delete_row_def fun_upd_twist split: option.splits)

lemmas fold_upsert_perm = fold_rows_perm [OF _ _ upsert_row_commute]
lemmas fold_delete_perm = fold_rows_perm [OF _ _ delete_row_commute]

lemma write_deletes:
  assumes "tc \<in> set main_schema" "\<forall>e \<in> set xs. fits (snd tc) e" "q = stmt KDelete tc"
  shows "write_batch no_faults (map (completed p m q \<circ> delete_op) xs) db =
    Ok (db(fst tc := fold (delete_row (snd tc)) (map (WithChainName (p_chainName p)) xs) (db (fst tc))), [])"
  using assms(2)
proof (induction xs arbitrary: db)
  case (Cons x xs)
  let ?x = "WithChainName (p_chainName p) x"
  have "write_batch no_faults (map (completed p m q \<circ> delete_op) (x # xs)) db =
      write_batch no_faults (map (completed p m q \<circ> delete_op) xs)
        (db(fst tc := delete_row (snd tc) ?x (db (fst tc))))"
    unfolding list.map using Cons.prems assms(3)
    by (intro write_delete [OF assms(1)]) (simp_all add: completed_def)
  moreover have "write_batch no_faults (map (completed p m q \<circ> delete_op) xs) db' =
      Ok (db'(fst tc := fold (delete_row (snd tc)) (map (WithChainName (p_chainName p)) xs) (db' (fst tc))), [])"
    for db'
    by (rule Cons.IH) (use Cons.prems in simp)
  ultimately show ?case by (simp only:) (simp add: fun_eq_iff)
qed simp

lemma module_batch:
  assumes "p_useDBUpsert p" "well_keyed m" "small m" "\<forall>i. range_order (ord i)"
  shows "\<exists>wb. complete_ops p (snd (module_FlushCache ord m)) (fst (module_FlushCache ord m)) = Ok wb \<and>
    write_batch no_faults wb db = Ok (module_effect (p_chainName p) m db, [])"
proof -
  let ?cn = "WithChainName (p_chainName p)"
  let ?m = "snd (module_FlushCache ord m)"
  define tc where "tc = module_table m"
  define ws where "ws = ranged (ord 0) (upserts m)"
  define xs where "xs = ranged (ord 1) (removals m)"
  have tc: "tc \<in> set main_schema" unfolding tc_def by (rule module_table_schema)
  have perm: "mset ws = mset (upserts m)" "mset xs = mset (removals m)"
    using assms(4) by (simp_all add: ws_def xs_def)
  have sets: "set ws = set (upserts m)" "set xs = set (removals m)"
    using perm by (auto dest: mset_eq_setD)
  have fit: "\<forall>e \<in> set ws. fits (snd tc) (?cn e)" "\<forall>e \<in> set xs. fits (snd tc) (?cn e)"
    using pending_fits [of _ m] by (auto simp: sets tc_def pending_rows)
  have same: "module_table ?m = tc" "module_DeleteStatement ?m = module_DeleteStatement m"
    by (cases m; simp add: module_table_def tc_def)+
  obtain q where q: "removals m \<noteq> [] \<longrightarrow> module_DeleteStatement m = Ok q"
    using removals_deletes by blast
  have stmts: "module_UpsertStatement ?m = stmt KUpsert tc" "removals m \<noteq> [] \<longrightarrow> q = stmt KDelete tc"
    using module_UpsertStatement_stmt [of ?m] module_DeleteStatement_stmt [of ?m q] q same by auto
  have empty: "ws = [] \<longleftrightarrow> upserts m = []" "xs = [] \<longleftrightarrow> removals m = []"
    using assms(4) by (simp_all add: ws_def xs_def)
  define up where "up = completed p ?m (module_UpsertStatement ?m) (write_op ws)"
  define del where "del = map (completed p ?m q \<circ> delete_op) xs"
  have "complete_ops p ?m (fst (module_FlushCache ord m)) = Ok ((if ws = [] then [] else [up]) @ del)"
    using complete_flush [OF assms(1), of xs ?m q ws] q empty same
    unfolding module_flush_form [OF assms(4)] ws_def [symmetric] xs_def [symmetric] up_def del_def
    by simp
  moreover have "write_batch no_faults ((if ws = [] then [] else [up]) @ del) db = Ok (module_effect (p_chainName p) m db, [])"
  proof -
    have uniq: "distinct (map (unique_key (snd tc)) (map ?cn (upserts m)))"
      "distinct (map (unique_key (snd tc)) (map ?cn (removals m)))"
      using well_keyed_distinct [OF assms(2)] by (simp_all add: tc_def)
    have len: "length ws < 2 ^ 40"
      using assms(3) perm(1) by (simp add: small_def pending_rows ws_def assms(4))
    have "wb_Data up = map ?cn ws" by (simp add: up_def completed_def)
    moreover have "distinct (map (unique_key (snd tc)) (map ?cn ws))"
      using uniq(1) perm(1) by (metis mset_map mset_eq_imp_distinct_iff)
    moreover have perms:
      "fold (upsert_row (snd tc)) (map ?cn ws) T = fold (upsert_row (snd tc)) (map ?cn (upserts m)) T"
      "fold (delete_row (snd tc)) (map ?cn xs) T = fold (delete_row (snd tc)) (map ?cn (removals m)) T" for T
      using uniq perm by (intro fold_upsert_perm fold_delete_perm; simp)+
    ultimately have up: "write_batch no_faults [up] db' =
        Ok (db'(fst tc := fold (upsert_row (snd tc)) (map ?cn (upserts m)) (db' (fst tc))), [])" for db'
      using write_upserts [OF tc, of up db'] fit(1) len stmts(1) by (simp add: up_def completed_def)
    have del: "write_batch no_faults del db' =
        Ok (db'(fst tc := fold (delete_row (snd tc)) (map ?cn (removals m)) (db' (fst tc))), [])" for db'
      using write_deletes [OF tc, of xs q p ?m db'] fit(2) stmts(2) empty(2) perms(2)
      by (cases "xs = []") (simp_all add: del_def)
    show ?thesis
      unfolding write_batch_append using up del empty(1)
      by (simp add: module_effect_def Let_def fun_eq_iff flip: tc_def)
  qed
  ultimately show ?thesis by blast
qed

text \<open>The batch of a module never panics the loop and touches no other table, even when a statement
  fails.\<close>

lemma Add_other:
  assumes "tc \<in> set main_schema" "t \<noteq> fst tc" "Add failure (stmt k tc) es db = Ok db'"
  shows "db' t = db t"
  using assms(2,3) by (auto simp: Add_def NamedExec_def lookup_main [OF assms(1)] case_prod_unfold and_then_Ok
      split: if_splits option.splits)

lemma Add_no_panic: "Add failure q es db \<noteq> Panic r"
proof -
  have "insert_rows cfg es T \<noteq> Panic r" for cfg T
    by (induction es arbitrary: T) (auto simp: insert_row_def and_then_Panic split: option.splits)
  then have "exec_rows k cfg es T \<noteq> Panic r" for k cfg T
    by (auto simp: exec_rows_def split: stmt_kind.splits list.splits)
  then show ?thesis
    by (auto simp: Add_def NamedExec_def and_then_Panic split: option.splits if_splits)
qed

lemma write_units_other:
  assumes "tc \<in> set main_schema" "t \<noteq> fst tc"
  shows "\<forall>u \<in> set us. \<exists>k. wb_Statement u = stmt k tc \<Longrightarrow>
    \<exists>db' logs. write_units no_fault us db = Ok (db', logs) \<and> db' t = db t"
proof (induction us arbitrary: db)
  case (Cons u us)
  then obtain k where k: "wb_Statement u = stmt k tc" by auto
  have rest: "\<exists>db' logs. write_units no_fault us db1 = Ok (db', logs) \<and> db' t = db1 t" for db1
    using Cons by simp
  show ?case
  proof (cases "wb_Data u = [] \<or> (\<exists>r. Add None (wb_Statement u) (wb_Data u) db = Err r)")
    case True
    with rest [of db] show ?thesis by (auto simp: InterfaceSlice_Data Let_def)
  next
    case False
    with Add_no_panic obtain db1 where db1: "Add None (wb_Statement u) (wb_Data u) db = Ok db1"
      by (cases "Add None (wb_Statement u) (wb_Data u) db") auto
    with Add_other [OF assms] k have "db1 t = db t" by metis
    with rest [of db1] db1 False show ?thesis by (auto simp: InterfaceSlice_Data Let_def)
  qed
qed simp

lemma write_batch_other:
  assumes "tc \<in> set main_schema" "t \<noteq> fst tc"
  shows "\<forall>wo \<in> set wb. length (wb_Data wo) < 2 ^ 40 \<and> (\<forall>e \<in> set (wb_Data wo). fits (snd tc) e) \<and>
      (\<exists>k. wb_Statement wo = stmt k tc) \<Longrightarrow>
    \<exists>db' logs. write_batch no_faults wb db = Ok (db', logs) \<and> db' t = db t"
proof (induction wb arbitrary: db)
  case (Cons wo wb)
  then obtain us where us: "SplitStatementToDBLimit wo = Ok us"
    "\<forall>u \<in> set us. wb_Statement u = wb_Statement wo"
    using split_units [of wo "snd tc"] by auto
  with Cons.prems have "\<forall>u \<in> set us. \<exists>k. wb_Statement u = stmt k tc" by simp
  from write_units_other [OF assms this, of db] obtain db1 logs1
    where "write_units no_fault us db = Ok (db1, logs1)" "db1 t = db t" by blast
  moreover have "\<exists>db' logs. write_batch no_faults wb db1 = Ok (db', logs) \<and> db' t = db1 t"
    by (rule Cons.IH) (use Cons.prems in simp)
  then obtain db' logs where "write_batch no_faults wb db1 = Ok (db', logs)" "db' t = db1 t" by blast
  ultimately show ?case using us(1) by simp
qed simp

lemma complete_ops_sizes:
  "complete_ops p m cd = Ok wb \<Longrightarrow> wo \<in> set wb \<Longrightarrow> size (op_rows [wo]) \<le> size (op_rows cd)"
proof (induction cd arbitrary: wb)
  case (Cons entry cd)
  then show ?case by (fastforce simp: and_then_Ok split: if_splits)
qed simp

lemma statement_for_stmt:
  assumes "statement_for u m t = Ok st"
  shows "\<exists>k. st = stmt k (module_table m)"
proof (cases t)
  case Delete
  with assms have "module_DeleteStatement m = Ok st" by (simp add: statement_for_def)
  then show ?thesis using module_DeleteStatement_stmt by blast
next
  case Write
  with assms have "st = module_UpsertStatement m \<or> st = module_InsertStatement m"
    by (simp add: statement_for_def split: if_splits)
  then show ?thesis unfolding module_UpsertStatement_stmt module_InsertStatement_stmt by blast
qed (use assms in \<open>simp add: statement_for_def\<close>)

lemma module_batch_other:
  assumes "small m" "\<forall>i. range_order (ord i)" "t \<noteq> fst (module_table m)"
  shows "\<exists>wb. complete_ops p (snd (module_FlushCache ord m)) (fst (module_FlushCache ord m)) = Ok wb \<and>
    (\<forall>db. \<exists>db' logs. write_batch no_faults wb db = Ok (db', logs) \<and> db' t = db t)"
proof -
  let ?m = "snd (module_FlushCache ord m)" and ?cd = "fst (module_FlushCache ord m)"
  have tc: "module_table m \<in> set main_schema" by (rule module_table_schema)
  have same: "module_table ?m = module_table m" by (cases m) (simp_all add: module_table_def)
  have "\<exists>st. statement_for (p_useDBUpsert p) ?m (wb_Type entry) = Ok st" if "entry \<in> set ?cd" for entry
    using statement_for_flushed [OF assms(2) that] .
  from complete_ops_spec [OF this, of ?cd] obtain wb where wb: "complete_ops p ?m ?cd = Ok wb"
    "op_rows wb = image_mset (WithChainName (p_chainName p)) (op_rows ?cd)"
    "\<forall>wo \<in> set wb. complete_for (p_useDBUpsert p) ?m wo" by blast
  have rows: "op_rows ?cd = pending m" using module_flush.flush_hands_over [OF assms(2)] .
  have "length (wb_Data wo) < 2 ^ 40 \<and> (\<forall>e \<in> set (wb_Data wo). fits (snd (module_table m)) e) \<and>
      (\<exists>k. wb_Statement wo = stmt k (module_table m))" if wo: "wo \<in> set wb" for wo
  proof (intro conjI ballI)
    show "length (wb_Data wo) < 2 ^ 40"
      using complete_ops_sizes [OF wb(1) wo] assms(1) by (simp add: rows small_def)
    fix e assume "e \<in> set (wb_Data wo)"
    then have "e \<in># op_rows wb" using wo unfolding op_rows_mem by blast
    then show "fits (snd (module_table m)) e" unfolding wb(2) rows using pending_fits by auto
  next
    have "statement_for (p_useDBUpsert p) ?m (wb_Type wo) = Ok (wb_Statement wo)"
      using wb(3) wo unfolding complete_for_def by blast
    from statement_for_stmt [OF this] show "\<exists>k. wb_Statement wo = stmt k (module_table m)"
      unfolding same .
  qed
  with write_batch_other [OF tc assms(3)] wb(1) show ?thesis by blast
qed

section \<open>The batch of a processor\<close>

definition flush_effect :: "Processor \<Rightarrow> database \<Rightarrow> database" where
  "flush_effect p = fold (module_effect (p_chainName p)) (p_moduleProcessors p)"

definition flushable :: "Processor \<Rightarrow> bool" where
  "flushable p \<longleftrightarrow> p_useDBUpsert p \<and> (\<forall>m \<in> set (p_moduleProcessors p). well_keyed m \<and> small m)"

lemma flush_modules_effect:
  assumes "p_useDBUpsert p" "\<forall>i j. range_order (ords i j)"
  shows "\<forall>m \<in> set ms. well_keyed m \<and> small m \<Longrightarrow>
    \<exists>wb. flush_modules p ords i ms = Ok (wb, flushed ords i ms) \<and>
      (\<forall>db. write_batch no_faults wb db = Ok (fold (module_effect (p_chainName p)) ms db, []))"
proof (induction ms arbitrary: i)
  case (Cons m ms)
  have ord: "\<forall>j. range_order (ords i j)" using assms(2) by blast
  obtain wbs where wbs: "flush_modules p ords (Suc i) ms = Ok (wbs, flushed ords (Suc i) ms)"
    "\<forall>db. write_batch no_faults wbs db = Ok (fold (module_effect (p_chainName p)) ms db, [])"
    using Cons.IH [of "Suc i"] Cons.prems by auto
  have "well_keyed m" "small m" using Cons.prems by simp_all
  note batch = module_batch [OF assms(1) this ord]
  obtain wb where "complete_ops p (snd (module_FlushCache (ords i) m)) (fst (module_FlushCache (ords i) m)) = Ok wb"
    using batch by blast
  with batch wbs show ?case by (auto simp: case_prod_unfold Let_def write_batch_append)
qed simp

lemma Flush_effect:
  assumes "flushable p" "\<forall>i j. range_order (ords i j)"
  shows "\<exists>wb. Flush ords p = Ok (wb, p\<lparr>p_moduleProcessors := flushed ords 0 (p_moduleProcessors p)\<rparr>) \<and>
    (\<forall>db. write_batch no_faults wb db = Ok (flush_effect p db, []))"
  using flush_modules_effect [of p ords "p_moduleProcessors p" 0] assms
  by (auto simp: flushable_def Flush_def flush_effect_def)

section \<open>Properties\<close>

text \<open>C5. Suppose upserts are enabled, every module holds fewer than \<open>2 ^ 40\<close> rows, each under the key of its own columns
  (which \<open>well_keyed_process\<close> shows every module but the one of token infos to maintain; for that one: no two rows of
  one contract), and the driver reports no fault. Then the batch of a flush has one effect on the database, whatever the order in which Go ranges over
  the caches and however its operations are cut into statements: every module upserts the rows it
  holds into its own table and then marks the rows it holds for deletion. No statement fails: none
  names a column its row lacks, touches a row twice or has more than 65535 parameters.\<close>

theorem Flush_writes:
  assumes "flushable p" "\<forall>i j. range_order (ords i j)"
  shows "\<exists>wb p'. Flush ords p = Ok (wb, p') \<and>
    main_step no_faults (Writebacks wb) db = Ok (flush_effect p db, [])"
  using Flush_effect [OF assms] by (auto simp: main_step_def)

lemma sample_flushable: "flushable sample_processor"
  by (auto simp: flushable_def sample_processor_def small_def keyed_def gomap_ok_def row_at_defs)

theorem Flush_writes_witness:
  "\<exists>wb p'. Flush (\<lambda>_ _. forward) sample_processor = Ok (wb, p') \<and>
    main_step no_faults (Writebacks wb) empty_db = Ok (flush_effect sample_processor empty_db, [])"
  by (rule Flush_writes [OF sample_flushable]) simp

end
