(* ===== verification/Ledger.thy ===== *)
theory Ledger
  imports Main_Loop
begin

text \<open>
  From traces to the database: the table of a module that only writes holds, for every key, the row of
  the last trace that carried it, as soon as the block of that trace is complete. The processor hands
  its batches over from goroutines, so they may reach the main loop in any order.
\<close>

section \<open>Modules that keep a ledger\<close>

fun module_row :: "env \<Rightarrow> module \<Rightarrow> TraceOperation \<Rightarrow> entrier outcome" where
  "module_row e (MAuth b) d = and_then (h_Auth (handler e) d) (\<lambda>r. Ok (EAuth r))"
| "module_row e (MBank b) d = and_then (h_Bank (handler e) d) (\<lambda>r. Ok (EBalance r))"
| "module_row e (MCW20Balances b) d = and_then (cw20_balances_row (handler e) d) (\<lambda>r. Ok (ECW20Balance r))"
| "module_row e (MChannels b) d = and_then (h_IBCChannels (handler e) d) (\<lambda>r. Ok (EChannel r))"
| "module_row e (MClients b) d = and_then (h_IBCClients (handler e) d) (\<lambda>r. Ok (EClient r))"
| "module_row e (MConnections b) d = and_then (h_IBCConnections (handler e) d) (\<lambda>r. Ok (EConnection r))"
| "module_row e (MDenomTraces b) d = and_then (h_IBCDenomTraces (handler e) d) (\<lambda>r. Ok (EDenomTrace r))"
| "module_row e m d = Err []"

fun keeps_ledger :: "module \<Rightarrow> bool" where
  "keeps_ledger (MCW20TokenInfos b) = False"
| "keeps_ledger (MDelegations b) = False"
| "keeps_ledger (MUnbonding b) = False"
| "keeps_ledger (MValidators b) = False"
| "keeps_ledger m = True"

lemma keeps_ledger_removals: "keeps_ledger m \<Longrightarrow> removals m = []"
  by (cases m) simp_all

text \<open>A row under its key, as the database sees it; the rows a module holds.\<close>

definition row_entry :: "string \<Rightarrow> module \<Rightarrow> entrier \<Rightarrow> sqlval list \<times> entrier" where
  "row_entry cn m e =
     (let e' = WithChainName cn e in (unique_key (snd (module_table m)) e', e'))"

definition held :: "string \<Rightarrow> module \<Rightarrow> sqlval list \<rightharpoonup> entrier" where
  "held cn m = map_of (map (row_entry cn m) (upserts m))"

lemma keyed_update:
  assumes "keyed key c" "\<And>r s. g r = g s \<longleftrightarrow> key r = key s"
  shows "map_of (map (\<lambda>kv. (g (snd kv), f (snd kv))) (gomap_set (key r) r c)) =
    (map_of (map (\<lambda>kv. (g (snd kv), f (snd kv))) c))(g r \<mapsto> f r)"
proof -
  have "\<forall>kv \<in> set c. fst kv = key (snd kv)" using assms(1) by (simp add: keyed_def)
  moreover have "distinct (map fst c)" using assms(1) by (simp add: keyed_def gomap_ok_def)
  ultimately show ?thesis
  proof (induction c)
    case (Cons kv c)
    show ?case
    proof (cases "fst kv = key r")
      case True
      then have "g (snd kv) = g r" using Cons.prems(1) assms(2) [of "snd kv" r] by simp
      with True show ?thesis by (cases kv) (simp add: gomap_set_def fun_eq_iff)
    next
      case False
      then have "g (snd kv) \<noteq> g r" using Cons.prems(1) assms(2) [of "snd kv" r] by simp
      with False Cons show ?thesis by (cases kv) (auto simp: gomap_set_def fun_upd_twist)
    qed
  qed (simp add: gomap_set_def)
qed

lemma held_process:
  assumes "keeps_ledger m" "well_keyed m" "module_Process e m d = Ok m'"
  shows "\<exists>r. module_row e m d = Ok r \<and> held cn m' = (held cn m)(fst (row_entry cn m r) \<mapsto> snd (row_entry cn m r))"
  using assms
  by (cases m) (auto simp: process_defs and_then_Ok Let_def held_def row_entry_def module_table_def unique_keys
      comp_def intro!: keyed_update)

section \<open>Blocks of a run, as maps\<close>

text \<open>The map of rows handed over at each flush.\<close>

fun blocks ::
    "(TraceOperation \<Rightarrow> ('k \<times> 'r) option) \<Rightarrow> u64 \<Rightarrow> ('k \<rightharpoonup> 'r) \<Rightarrow> TraceOperation list \<Rightarrow> ('k \<rightharpoonup> 'r) list" where
  "blocks entry h cur [] = []"
| "blocks entry h cur (d # ds) =
     (if next_height h d = h then blocks entry h (latest entry [d] cur) ds
      else cur # blocks entry (next_height h d) (latest entry [d] Map.empty) ds)"

fun block_heights :: "u64 \<Rightarrow> TraceOperation list \<Rightarrow> u64 list" where
  "block_heights h [] = []"
| "block_heights h (d # ds) =
     (if next_height h d = h then block_heights h ds else h # block_heights (next_height h d) ds)"

definition rising :: "u64 \<Rightarrow> TraceOperation list \<Rightarrow> bool" where
  "rising h ds \<longleftrightarrow> sorted (map top_BlockHeight ds) \<and> (\<forall>d \<in> set ds. 0 < top_BlockHeight d \<and> h \<le> top_BlockHeight d)"

lemma rising_Cons: "rising h (d # ds) \<Longrightarrow>
    next_height h d = top_BlockHeight d \<and> h \<le> top_BlockHeight d \<and> rising (top_BlockHeight d) ds"
  by (auto simp: rising_def next_height_def)

lemma block_heights_ge: "rising h ds \<Longrightarrow> \<forall>h' \<in> set (block_heights h ds). h \<le> h'"
proof (induction ds arbitrary: h)
  case (Cons d ds)
  from rising_Cons [OF Cons.prems] have d: "next_height h d = top_BlockHeight d" "h \<le> top_BlockHeight d"
    "rising (top_BlockHeight d) ds" by auto
  from Cons.IH [OF d(3)] d(1,2) show ?case by (auto intro: order_trans)
qed simp

lemma block_heights_sorted: "rising h ds \<Longrightarrow> sorted_wrt (<) (block_heights h ds)"
proof (induction ds arbitrary: h)
  case (Cons d ds)
  from rising_Cons [OF Cons.prems] have d: "next_height h d = top_BlockHeight d" "h \<le> top_BlockHeight d"
    "rising (top_BlockHeight d) ds" by auto
  with Cons.IH block_heights_ge [OF d(3)] show ?case by fastforce
qed simp

lemma blocks_at_heights:
  assumes "\<forall>d \<in> set ds. \<forall>r. entry d = Some (k, r) \<longrightarrow> entry_height r = top_BlockHeight d"
  shows "rising h ds \<Longrightarrow> \<forall>r. cur k = Some r \<longrightarrow> entry_height r = h \<Longrightarrow>
    list_all2 (\<lambda>h' M. \<forall>r. M k = Some r \<longrightarrow> entry_height r = h') (block_heights h ds) (blocks entry h cur ds)"
  using assms
proof (induction ds arbitrary: h cur)
  case (Cons d ds)
  from rising_Cons [OF Cons.prems(1)] have d: "next_height h d = top_BlockHeight d"
    "rising (top_BlockHeight d) ds" by auto
  have row: "\<forall>r. entry d = Some (k, r) \<longrightarrow> entry_height r = top_BlockHeight d" using Cons.prems(3) by simp
  note IH = Cons.IH [OF _ _ Cons.prems(3) [unfolded list.set ball_simps, THEN conjunct2]]
  show ?case
  proof (cases "top_BlockHeight d = h")
    case True
    have "\<forall>r. latest entry [d] cur k = Some r \<longrightarrow> entry_height r = h"
      using row Cons.prems(2) True by (auto split: option.splits prod.splits)
    with IH [of h "latest entry [d] cur"] True d show ?thesis by (simp del: latest.simps)
  next
    case False
    have "\<forall>r. latest entry [d] Map.empty k = Some r \<longrightarrow> entry_height r = top_BlockHeight d"
      using row by (auto split: option.splits prod.splits)
    with IH [of "top_BlockHeight d" "latest entry [d] Map.empty"] False d Cons.prems(2) show ?thesis
      by (simp del: latest.simps)
  qed
qed simp

text \<open>Blocks in a row overwrite each other like the traces they consist of.\<close>

definition overlay :: "('k \<rightharpoonup> 'r) list \<Rightarrow> ('k \<rightharpoonup> 'r) \<Rightarrow> 'k \<rightharpoonup> 'r" where
  "overlay Ms A = fold (\<lambda>M acc. acc ++ M) Ms A"

lemma overlay_simps [simp]:
  "overlay [] A = A" "overlay (M # Ms) A = overlay Ms (A ++ M)" "overlay (Ms @ [M]) A = overlay Ms A ++ M"
  by (simp_all add: overlay_def)

lemma latest_over: "latest entry ds (A ++ B) = A ++ latest entry ds B"
  by (induction ds arbitrary: B) (simp_all split: option.splits prod.splits flip: map_add_upd)

definition final_height :: "u64 \<Rightarrow> TraceOperation list \<Rightarrow> u64" where
  "final_height h ds = fold (\<lambda>d h. next_height h d) ds h"

lemma final_height_ge: "rising h ds \<Longrightarrow> h \<le> final_height h ds"
proof (induction ds arbitrary: h)
  case (Cons d ds)
  from rising_Cons [OF Cons.prems] Cons.IH [of "top_BlockHeight d"] show ?case
    by (auto simp: final_height_def)
qed (simp add: final_height_def)

lemma overlay_blocks:
  "rising h ds \<Longrightarrow> \<forall>d \<in> set pre. top_BlockHeight d = h \<Longrightarrow>
    overlay (blocks entry h (latest entry pre Map.empty) ds) A =
    latest entry (filter (\<lambda>d. top_BlockHeight d < final_height h ds) (pre @ ds)) A"
proof (induction ds arbitrary: h pre A)
  case Nil
  then have "filter (\<lambda>d. top_BlockHeight d < h) pre = []" by (simp add: filter_empty_conv)
  then show ?case by (simp add: final_height_def)
next
  case (Cons d ds)
  from rising_Cons [OF Cons.prems(1)] have d: "next_height h d = top_BlockHeight d"
    "h \<le> top_BlockHeight d" "rising (top_BlockHeight d) ds" by auto
  have final: "final_height h (d # ds) = final_height (top_BlockHeight d) ds"
    by (simp add: final_height_def d(1))
  show ?case
  proof (cases "top_BlockHeight d = h")
    case True
    then have "blocks entry h (latest entry pre Map.empty) (d # ds) =
        blocks entry h (latest entry (pre @ [d]) Map.empty) ds"
      using d(1) by (simp only: blocks.simps latest_append refl if_True)
    with Cons.IH [of h "pre @ [d]" A] Cons.prems(2) True d(3) show ?thesis
      by (simp only: final set_append ball_Un) simp
  next
    case False
    then have "h < final_height (top_BlockHeight d) ds" using d final_height_ge [OF d(3)] by simp
    then have pre: "filter (\<lambda>d'. top_BlockHeight d' < final_height (top_BlockHeight d) ds) pre = pre"
      using Cons.prems(2) by simp
    have one: "\<forall>d' \<in> set [d]. top_BlockHeight d' = top_BlockHeight d" by simp
    have "overlay (blocks entry h (latest entry pre Map.empty) (d # ds)) A =
        overlay (blocks entry (top_BlockHeight d) (latest entry [d] Map.empty) ds) (latest entry pre A)"
      using False d(1) latest_over [of entry pre A Map.empty]
      by (simp only: blocks.simps overlay_simps map_add_empty if_False)
    also have "\<dots> = latest entry
        (filter (\<lambda>d'. top_BlockHeight d' < final_height (top_BlockHeight d) ds) (d # ds)) (latest entry pre A)"
      by (simp only: Cons.IH [OF d(3) one] append.simps)
    finally show ?thesis by (simp only: final filter_append pre latest_append)
  qed
qed

text \<open>The row an overlay shows for a key is the youngest of its rows.\<close>

lemma overlay_youngest:
  assumes "sorted_wrt (<) hs" "list_all2 (\<lambda>h M. \<forall>r. M k = Some r \<longrightarrow> entry_height r = h) hs Ms"
    and "overlay Ms Map.empty k = Some r"
  shows "\<exists>M \<in> set Ms. M k = Some r \<and>
    (\<forall>M' \<in> set Ms. \<forall>r'. M' k = Some r' \<longrightarrow> r' = r \<or> entry_height r' < entry_height r)"
  using assms
proof (induction Ms arbitrary: hs r rule: rev_induct)
  case (snoc M Ms)
  from snoc.prems(2) obtain hs' h where hs: "hs = hs' @ [h]"
    "list_all2 (\<lambda>h M. \<forall>r. M k = Some r \<longrightarrow> entry_height r = h) hs' Ms"
    "\<forall>r. M k = Some r \<longrightarrow> entry_height r = h"
    by (auto simp: list_all2_append2 list_all2_Cons2)
  have sorted: "sorted_wrt (<) hs'" "\<forall>h' \<in> set hs'. h' < h"
    using snoc.prems(1) by (auto simp: hs(1) sorted_wrt_append)
  have low: "\<exists>h' \<in> set hs'. entry_height r' = h'" if "M' \<in> set Ms" "M' k = Some r'" for M' r'
    using hs(2) that by (auto simp: list_all2_conv_all_nth in_set_conv_nth) 
  show ?case
  proof (cases "M k")
    case None
    with snoc.prems(3) have "overlay Ms Map.empty k = Some r" by (simp add: map_add_def)
    from snoc.IH [OF sorted(1) hs(2) this] None show ?thesis by auto
  next
    case (Some q)
    with snoc.prems(3) have "q = r" by (simp add: map_add_def)
    with Some hs(3) low sorted(2) show ?thesis by fastforce
  qed
qed simp

lemma overlay_None: "overlay Ms Map.empty k = None \<longleftrightarrow> (\<forall>M \<in> set Ms. M k = None)"
  by (induction Ms rule: rev_induct) (auto simp: map_add_def split: option.splits)

section \<open>The module among the others\<close>

definition same_kind :: "module \<Rightarrow> module \<Rightarrow> bool" where
  "same_kind m m' \<longleftrightarrow> module_ModuleName m = module_ModuleName m'"

lemma same_kind_facts:
  assumes "same_kind m m'"
  shows "module_row e m = module_row e m'" "owns e d m = owns e d m'" "row_entry cn m = row_entry cn m'"
    "keeps_ledger m = keeps_ledger m'" "module_table m = module_table m'"
    "module_SDKModuleName m = module_SDKModuleName m'"
  using assms
  by (cases m; cases m'; simp add: same_kind_def ModuleName_defs fun_eq_iff owns_def row_entry_def module_table_def)+

lemma tables_apart:
  assumes "\<not> same_kind m m'"
  shows "fst (module_table m) \<noteq> fst (module_table m')"
  using assms by (cases m; cases m'; simp add: same_kind_def module_table_def)

definition names :: "Processor \<Rightarrow> string list" where
  "names p = map module_ModuleName (p_moduleProcessors p)"

text \<open>What a trace adds to the ledger of module \<open>j\<close>.\<close>

definition ledger_entry :: "env \<Rightarrow> Processor \<Rightarrow> nat \<Rightarrow> TraceOperation \<Rightarrow> (sqlval list \<times> entrier) option" where
  "ledger_entry e p j d =
     (let m = p_moduleProcessors p ! j
      in if concerned p d m \<and> owns e d m
         then (case module_row e m d of Ok r \<Rightarrow> Some (row_entry (p_chainName p) m r) | _ \<Rightarrow> None)
         else None)"

lemma names_nth:
  assumes "names p = names q" "i < length (p_moduleProcessors p)"
  shows "same_kind (p_moduleProcessors p ! i) (p_moduleProcessors q ! i)" "i < length (p_moduleProcessors q)"
proof -
  have "length (p_moduleProcessors p) = length (p_moduleProcessors q)"
    using assms(1) unfolding names_def by (rule map_eq_imp_length_eq)
  with assms show "i < length (p_moduleProcessors q)" by simp
  with assms show "same_kind (p_moduleProcessors p ! i) (p_moduleProcessors q ! i)"
    unfolding names_def same_kind_def by (metis nth_map)
qed

lemma names_sdk:
  assumes "names p = names q"
  shows "map module_SDKModuleName (p_moduleProcessors p) = map module_SDKModuleName (p_moduleProcessors q)"
proof (rule nth_equalityI)
  show len: "length (map module_SDKModuleName (p_moduleProcessors p)) =
      length (map module_SDKModuleName (p_moduleProcessors q))"
    using assms unfolding names_def by (metis length_map)
  fix i assume "i < length (map module_SDKModuleName (p_moduleProcessors p))"
  with names_nth [OF assms, of i] same_kind_facts(6) len
  show "map module_SDKModuleName (p_moduleProcessors p) ! i = map module_SDKModuleName (p_moduleProcessors q) ! i"
    by fastforce
qed

lemma ledger_entry_cong:
  assumes "names p = names q" "p_chainName p = p_chainName q" "j < length (p_moduleProcessors p)"
  shows "ledger_entry e p j = ledger_entry e q j"
proof
  fix d
  have kind: "same_kind (p_moduleProcessors p ! j) (p_moduleProcessors q ! j)"
    using names_nth(1) [OF assms(1,3)] .
  have "module_SDKModuleName ` set (p_moduleProcessors p) = module_SDKModuleName ` set (p_moduleProcessors q)"
    using names_sdk [OF assms(1)] by (metis set_map)
  then have "(\<forall>m' \<in> set (p_moduleProcessors p). module_SDKModuleName m' \<noteq> n) \<longleftrightarrow>
      (\<forall>m' \<in> set (p_moduleProcessors q). module_SDKModuleName m' \<noteq> n)" for n
    by (metis (no_types) image_iff)
  then have "concerned p d (p_moduleProcessors p ! j) = concerned q d (p_moduleProcessors q ! j)"
    using same_kind_facts(6) [OF kind] unfolding concerned_def by simp
  with same_kind_facts(1-3) [OF kind] assms(2) show "ledger_entry e p j d = ledger_entry e q j d"
    by (simp add: ledger_entry_def Let_def split: outcome.split)
qed

lemma processData_at:
  "processData e js data ms = Ok (errs, ms') \<Longrightarrow> distinct js \<Longrightarrow> \<forall>i \<in> set js. i < length ms \<Longrightarrow>
    length ms' = length ms \<and>
    (\<forall>i < length ms. ms' ! i = (if i \<in> set js then after_trace e data (ms ! i) else ms ! i))"
proof (induction js arbitrary: ms errs)
  case (Cons i js)
  have surv: "survives e data (ms ! i)"
    using Cons.prems(1) by (auto simp: survives_def owns_def is_panic_iff)
  let ?ms = "ms[i := after_trace e data (ms ! i)]"
  from Cons.prems(1) obtain errs' where rest: "processData e js data ?ms = Ok (errs', ms')"
    unfolding processData_step [OF surv] by (auto simp: and_then_Ok)
  from Cons.IH [OF rest] Cons.prems(2,3) show ?case by (auto simp: nth_list_update)
qed simp

lemma after_trace_kind: "same_kind m (after_trace e d m)"
  using module_process_same(1) by (auto simp: after_trace_def same_kind_def split: outcome.split)

lemma after_trace_size: "size (pending (after_trace e d m)) \<le> size (pending m) + 1"
proof -
  have le: "length (gomap_set k r c) \<le> Suc (length c)" for k :: 'k and r :: 'r and c
    by (induction c) (auto simp: gomap_set_def)
  have "size (pending m') \<le> size (pending m) + 1" if "module_Process e m d = Ok m'" for m'
    using that by (cases m) (auto simp: process_defs and_then_Ok Let_def intro: le split: if_splits)
  then show ?thesis by (auto simp: after_trace_def split: outcome.split)
qed

section \<open>One trace\<close>

text \<open>What holds of a processor that keeps the ledger of module \<open>j\<close> and has \<open>n\<close> traces to come.\<close>

definition ledger_ready :: "nat \<Rightarrow> nat \<Rightarrow> Processor \<Rightarrow> bool" where
  "ledger_ready j n p \<longleftrightarrow> p_useDBUpsert p \<and> distinct (names p) \<and> j < length (p_moduleProcessors p) \<and>
     mapping_ok (p_moduleProcessors p) (p_sdkModuleMapping p) \<and>
     keeps_ledger (p_moduleProcessors p ! j) \<and> well_keyed (p_moduleProcessors p ! j) \<and>
     (\<forall>m \<in> set (p_moduleProcessors p). size (pending m) + n < 2 ^ 40)"

definition held_at :: "nat \<Rightarrow> Processor \<Rightarrow> sqlval list \<rightharpoonup> entrier" where
  "held_at j p = held (p_chainName p) (p_moduleProcessors p ! j)"

definition same_processor :: "Processor \<Rightarrow> Processor \<Rightarrow> bool" where
  "same_processor p q \<longleftrightarrow> names p = names q \<and> p_chainName p = p_chainName q \<and>
     p_useDBUpsert p = p_useDBUpsert q \<and> p_sdkModuleMapping p = p_sdkModuleMapping q"

lemma ledger_after_trace:
  assumes "keeps_ledger m" "well_keyed m" "\<not> is_panic (module_Process e m d) \<or> \<not> owns e d m"
  shows "held cn (after_trace e d m) =
    (if owns e d m then (case module_row e m d of
        Ok r \<Rightarrow> (held cn m)(fst (row_entry cn m r) \<mapsto> snd (row_entry cn m r)) | _ \<Rightarrow> held cn m)
     else held cn m)"
proof (cases "owns e d m")
  case True
  show ?thesis
  proof (cases "module_Process e m d")
    case (Ok m')
    with held_process [OF assms(1,2) Ok, of cn] True show ?thesis by (auto simp: after_trace_def)
  next
    case (Err er)
    then have "\<nexists>r. module_row e m d = Ok r"
      using assms(1) by (cases m) (auto simp: process_defs and_then_Ok and_then_Err Let_def)
    with Err True show ?thesis by (simp add: after_trace_def split: outcome.split)
  qed (use assms(3) True in \<open>simp add: is_panic_iff\<close>)
qed (simp add: after_trace_def)

lemma well_keyed_after_trace:
  assumes "keeps_ledger m" "well_keyed m"
  shows "well_keyed (after_trace e d m)"
proof -
  have "\<not> is_token_infos m" using assms(1) by (cases m) simp_all
  with well_keyed_process assms(2) show ?thesis by (auto simp: after_trace_def split: outcome.split)
qed

lemma processData_no_panic:
  "processData e js data ms = Ok r \<Longrightarrow> i \<in> set js \<Longrightarrow> distinct js \<Longrightarrow> survives e data (ms ! i)"
proof (induction js arbitrary: ms r)
  case (Cons i' js)
  have surv: "survives e data (ms ! i')"
    using Cons.prems(1) by (auto simp: survives_def owns_def is_panic_iff)
  show ?case
  proof (cases "i = i'")
    case False
    let ?ms = "ms[i' := after_trace e data (ms ! i')]"
    from Cons.prems(1) obtain r' where "processData e js data ?ms = Ok r'"
      unfolding processData_step [OF surv] by (auto simp: and_then_Ok)
    from Cons.IH [OF this] Cons.prems(2,3) False show ?thesis by simp
  qed (use surv in simp)
qed simp

lemma ProcessData_ledger:
  assumes "ledger_ready j (Suc n) p" "ProcessData e d p = Ok (errs, p')"
  shows "ledger_ready j n p'" "same_processor p p'" "p_lastHeight p' = p_lastHeight p"
    "held_at j p' = latest (ledger_entry e p j) [d] (held_at j p)"
proof -
  let ?ms = "p_moduleProcessors p"
  let ?js = "processorList p d"
  obtain ms' where ms': "processData e ?js d ?ms = Ok (errs, ms')" "p' = p\<lparr>p_moduleProcessors := ms'\<rparr>"
    using assms(2) by (auto simp: ProcessData_def and_then_Ok)
  have ready: "distinct (names p)" "j < length ?ms" "mapping_ok ?ms (p_sdkModuleMapping p)"
    "keeps_ledger (?ms ! j)" "well_keyed (?ms ! j)" "p_useDBUpsert p"
    "\<forall>m \<in> set ?ms. size (pending m) + Suc n < 2 ^ 40"
    using assms(1) by (simp_all add: ledger_ready_def)
  note js = processorList_valid [OF ready(3), of d]
  have len: "length ms' = length ?ms" and at: "\<And>i. i < length ?ms \<Longrightarrow>
      ms' ! i = (if i \<in> set ?js then after_trace e d (?ms ! i) else ?ms ! i)"
    using processData_at [OF ms'(1) js] by auto
  have kind: "same_kind (?ms ! i) (ms' ! i)" if "i < length ?ms" for i
    using at [OF that] after_trace_kind by (auto simp: same_kind_def)
  then have names: "names p = names p'"
    by (intro nth_equalityI) (auto simp: names_def ms'(2) len same_kind_def)
  then show "same_processor p p'" by (simp add: same_processor_def ms'(2))
  have "map module_SDKModuleName ms' = map module_SDKModuleName ?ms"
    using names_sdk [OF names] ms'(2) by simp
  then have "mapping_ok ms' (p_sdkModuleMapping p)" using mapping_ok_names ready(3) by blast
  moreover have "keeps_ledger (ms' ! j)" using same_kind_facts(4) [OF kind [OF ready(2)]] ready(4) by simp
  moreover have "well_keyed (ms' ! j)"
    using at [OF ready(2)] well_keyed_after_trace [OF ready(4,5)] ready(5) by simp
  moreover have "size (pending m) + n < 2 ^ 40" if "m \<in> set ms'" for m
  proof -
    from that obtain i where i: "i < length ?ms" "m = ms' ! i" using len by (metis in_set_conv_nth)
    then have "size (pending m) \<le> size (pending (?ms ! i)) + 1"
      using at [OF i(1)] after_trace_size by auto
    moreover have "size (pending (?ms ! i)) + Suc n < 2 ^ 40" using ready(7) i(1) by simp
    ultimately show ?thesis by simp
  qed
  ultimately show "ledger_ready j n p'"
    using ready names len by (simp add: ledger_ready_def ms'(2))
  show "p_lastHeight p' = p_lastHeight p" by (simp add: ms'(2))
  have mem: "j \<in> set ?js \<longleftrightarrow> concerned p d (?ms ! j)"
    using processorList_concerned [OF ready(3), of d] ready(2) by simp
  show "held_at j p' = latest (ledger_entry e p j) [d] (held_at j p)"
  proof (cases "j \<in> set ?js")
    case True
    then have "\<not> is_panic (module_Process e (?ms ! j) d) \<or> \<not> owns e d (?ms ! j)"
      using processData_no_panic [OF ms'(1) True js(1)] by (auto simp: survives_def)
    from ledger_after_trace [OF ready(4,5) this, of "p_chainName p"] True mem at [OF ready(2)]
    show ?thesis
      by (auto simp: held_at_def ms'(2) ledger_entry_def Let_def split: outcome.splits prod.splits)
  next
    case False
    with mem at [OF ready(2)] show ?thesis
      by (simp add: held_at_def ms'(2) ledger_entry_def)
  qed
qed

section \<open>One flush\<close>

text \<open>A batch that brings the rows of a map to a table, whatever else it does.\<close>

definition brings :: "string \<times> TableConfig \<Rightarrow> WritebackOp list \<Rightarrow> (sqlval list \<rightharpoonup> entrier) \<Rightarrow> bool" where
  "brings tc wb M \<longleftrightarrow> (\<exists>es. set es = ran M \<and> (\<forall>k x. M k = Some x \<longrightarrow> unique_key (snd tc) x = k) \<and>
     (\<forall>x \<in> set es. fits (snd tc) x) \<and>
     (\<forall>db. \<exists>db' logs. write_batch no_faults wb db = Ok (db', logs) \<and>
        db' (fst tc) = fold (upsert_row (snd tc)) es (db (fst tc))))"

text \<open>What a batch does to one table.\<close>

definition affects :: "string \<Rightarrow> (table_state \<Rightarrow> table_state) \<Rightarrow> WritebackOp list \<Rightarrow> bool" where
  "affects t F wb \<longleftrightarrow> (\<forall>db. \<exists>db' logs. write_batch no_faults wb db = Ok (db', logs) \<and> db' t = F (db t))"

lemma affects_append:
  assumes "affects t F a" "affects t G b"
  shows "affects t (G \<circ> F) (a @ b)"
  unfolding affects_def
proof
  fix db
  obtain db1 logs1 where 1: "write_batch no_faults a db = Ok (db1, logs1)" "db1 t = F (db t)"
    using assms(1) unfolding affects_def by blast
  obtain db2 logs2 where 2: "write_batch no_faults b db1 = Ok (db2, logs2)" "db2 t = G (db1 t)"
    using assms(2) unfolding affects_def by blast
  from 1 2 show "\<exists>db' logs. write_batch no_faults (a @ b) db = Ok (db', logs) \<and> db' t = (G \<circ> F) (db t)"
    by (simp add: write_batch_append)
qed

definition table_effect :: "string \<Rightarrow> string \<Rightarrow> module \<Rightarrow> table_state \<Rightarrow> table_state" where
  "table_effect cn t m T = (if fst (module_table m) = t then module_effect cn m (\<lambda>_. T) t else T)"

lemma module_affects:
  assumes "p_useDBUpsert p" "small m" "\<forall>i. range_order (ord i)"
    and "fst (module_table m) = t \<longrightarrow> well_keyed m"
  shows "\<exists>wb. complete_ops p (snd (module_FlushCache ord m)) (fst (module_FlushCache ord m)) = Ok wb \<and>
    affects t (table_effect (p_chainName p) t m) wb"
proof (cases "fst (module_table m) = t")
  case True
  note batch = module_batch [OF assms(1) assms(4) [rule_format, OF True] assms(2,3)]
  obtain wb where wb: "complete_ops p (snd (module_FlushCache ord m)) (fst (module_FlushCache ord m)) = Ok wb"
    using batch by blast
  have "affects t (table_effect (p_chainName p) t m) wb"
    unfolding affects_def
  proof
    fix db
    have "module_effect (p_chainName p) m db t = table_effect (p_chainName p) t m (db t)"
      using True by (simp add: table_effect_def module_effect_def Let_def)
    with batch [of db] wb show "\<exists>db' logs. write_batch no_faults wb db = Ok (db', logs) \<and>
        db' t = table_effect (p_chainName p) t m (db t)" by auto
  qed
  with wb show ?thesis by blast
next
  case False
  then have id: "table_effect (p_chainName p) t m = (\<lambda>T. T)" by (simp add: table_effect_def fun_eq_iff)
  have "t \<noteq> fst (module_table m)" using False by simp
  from module_batch_other [OF assms(2,3) this, of p] show ?thesis
    unfolding affects_def id .
qed

lemma flush_modules_affects:
  assumes "p_useDBUpsert p" "\<forall>i j. range_order (ords i j)"
  shows "\<forall>m \<in> set ms. small m \<and> (fst (module_table m) = t \<longrightarrow> well_keyed m) \<Longrightarrow>
    \<exists>wb. flush_modules p ords i ms = Ok (wb, flushed ords i ms) \<and>
      affects t (fold (table_effect (p_chainName p) t) ms) wb"
proof (induction ms arbitrary: i)
  case (Cons m ms)
  have ord: "\<forall>j. range_order (ords i j)" using assms(2) by blast
  have "small m" "fst (module_table m) = t \<longrightarrow> well_keyed m" using Cons.prems by simp_all
  from module_affects [OF assms(1) this(1) ord this(2)] obtain wb where wb:
    "complete_ops p (snd (module_FlushCache (ords i) m)) (fst (module_FlushCache (ords i) m)) = Ok wb"
    "affects t (table_effect (p_chainName p) t m) wb" by blast
  obtain wbs where "flush_modules p ords (Suc i) ms = Ok (wbs, flushed ords (Suc i) ms)"
    "affects t (fold (table_effect (p_chainName p) t) ms) wbs"
    using Cons.IH [of "Suc i"] Cons.prems by auto
  with wb affects_append [OF wb(2) this(2)] show ?case
    by (auto simp: case_prod_unfold Let_def comp_def)
qed (simp add: affects_def)

lemma fold_table_effect_others:
  "\<forall>m \<in> set ms. fst (module_table m) \<noteq> t \<Longrightarrow> fold (table_effect cn t) ms T = T"
  by (induction ms arbitrary: T) (simp_all add: table_effect_def)

lemma fold_table_effect_one:
  assumes "distinct (map module_ModuleName ms)" "m \<in> set ms" "t = fst (module_table m)"
  shows "fold (table_effect cn t) ms T = table_effect cn t m T"
proof -
  obtain xs ys where ms: "ms = xs @ m # ys" using assms(2) by (meson split_list)
  have "\<forall>m' \<in> set xs \<union> set ys. fst (module_table m') \<noteq> t"
  proof
    fix m' assume "m' \<in> set xs \<union> set ys"
    then have "module_ModuleName m' \<in> set (map module_ModuleName xs) \<union> set (map module_ModuleName ys)"
      by auto
    moreover have "module_ModuleName m \<notin> set (map module_ModuleName xs) \<union> set (map module_ModuleName ys)"
      using assms(1) by (simp add: ms)
    ultimately have "module_ModuleName m' \<noteq> module_ModuleName m" by metis
    then show "fst (module_table m') \<noteq> t" using tables_apart [of m' m] assms(3) by (simp add: same_kind_def)
  qed
  then show ?thesis by (simp add: ms fold_table_effect_others)
qed

lemma fold_table_effect:
  assumes "distinct (map module_ModuleName ms)" "m \<in> set ms" "keeps_ledger m" "t = fst (module_table m)"
  shows "fold (table_effect cn t) ms T =
    fold (upsert_row (snd (module_table m))) (map (WithChainName cn) (upserts m)) T"
  unfolding fold_table_effect_one [OF assms(1,2,4)]
  using keeps_ledger_removals [OF assms(3)] by (simp add: table_effect_def module_effect_def Let_def assms(4))

lemma held_rows:
  assumes "well_keyed m"
  shows "set (map (WithChainName cn) (upserts m)) = ran (held cn m)"
    and "held cn m k = Some x \<Longrightarrow> unique_key (snd (module_table m)) x = k \<and> fits (snd (module_table m)) x"
proof -
  have "map fst (map (row_entry cn m) (upserts m)) =
      map (unique_key (snd (module_table m)) \<circ> WithChainName cn) (upserts m)"
    by (simp add: row_entry_def Let_def comp_def)
  then have "distinct (map fst (map (row_entry cn m) (upserts m)))"
    using well_keyed_distinct(1) [OF assms] by (simp only:)
  from ran_distinct [OF this] show "set (map (WithChainName cn) (upserts m)) = ran (held cn m)"
    by (simp add: held_def row_entry_def Let_def image_image)
  assume "held cn m k = Some x"
  then have "(k, x) \<in> set (map (row_entry cn m) (upserts m))" unfolding held_def by (rule map_of_SomeD)
  then obtain y where "y \<in> set (upserts m)" "x = WithChainName cn y" "k = unique_key (snd (module_table m)) x"
    by (auto simp: row_entry_def Let_def)
  then show "unique_key (snd (module_table m)) x = k \<and> fits (snd (module_table m)) x"
    using pending_fits [of y m] by (simp add: pending_rows)
qed

lemma Flush_ledger:
  assumes "ledger_ready j n p" "\<forall>i j. range_order (ords i j)"
  shows "\<exists>wb. Flush ords p = Ok (wb, p\<lparr>p_moduleProcessors := flushed ords 0 (p_moduleProcessors p)\<rparr>) \<and>
    brings (module_table (p_moduleProcessors p ! j)) wb (held_at j p)"
proof -
  let ?m = "p_moduleProcessors p ! j"
  let ?es = "map (WithChainName (p_chainName p)) (upserts ?m)"
  have ready: "distinct (map module_ModuleName (p_moduleProcessors p))" "?m \<in> set (p_moduleProcessors p)"
    "keeps_ledger ?m" "well_keyed ?m" "p_useDBUpsert p"
    "\<forall>m \<in> set (p_moduleProcessors p). size (pending m) + n < 2 ^ 40"
    using assms(1) by (simp_all add: ledger_ready_def names_def)
  have "small m \<and> (fst (module_table m) = fst (module_table ?m) \<longrightarrow> well_keyed m)"
    if "m \<in> set (p_moduleProcessors p)" for m
  proof -
    have "fst (module_table m) \<noteq> fst (module_table ?m)" if "m \<noteq> ?m"
      using ready(1,2) that \<open>m \<in> set (p_moduleProcessors p)\<close> tables_apart [of m ?m]
      by (auto simp: same_kind_def distinct_map inj_on_def)
    with ready(4,6) that show ?thesis by (auto simp: small_def)
  qed
  with flush_modules_affects [OF ready(5) assms(2), of "p_moduleProcessors p" "fst (module_table ?m)" 0]
  obtain wb where wb: "flush_modules p ords 0 (p_moduleProcessors p) = Ok (wb, flushed ords 0 (p_moduleProcessors p))"
    "affects (fst (module_table ?m)) (fold (table_effect (p_chainName p) (fst (module_table ?m))) (p_moduleProcessors p)) wb"
    by blast
  have "brings (module_table ?m) wb (held_at j p)"
    unfolding brings_def held_at_def
  proof (intro exI [of _ ?es] conjI)
    show "set ?es = ran (held (p_chainName p) ?m)" by (rule held_rows(1) [OF ready(4)])
    show "\<forall>k x. held (p_chainName p) ?m k = Some x \<longrightarrow> unique_key (snd (module_table ?m)) x = k"
      using held_rows(2) [OF ready(4)] by blast
    show "\<forall>x \<in> set ?es. fits (snd (module_table ?m)) x"
      using pending_fits [of _ ?m] by (auto simp: pending_rows)
    show "\<forall>db. \<exists>db' logs. write_batch no_faults wb db = Ok (db', logs) \<and>
        db' (fst (module_table ?m)) = fold (upsert_row (snd (module_table ?m))) ?es (db (fst (module_table ?m)))"
      using wb(2) unfolding affects_def fold_table_effect [OF ready(1-3) refl] .
  qed
  with wb(1) show ?thesis by (simp add: Flush_def)
qed

section \<open>A run\<close>

lemma ledger_step:
  assumes "ledger_ready j (Suc n) p" "\<forall>i j. range_order (ords i j)"
    and "lifecycle_step e ords d p = Ok (out, p')"
  shows "ledger_ready j n p' \<and> same_processor p p' \<and> p_lastHeight p' = next_height (p_lastHeight p) d \<and>
    (if next_height (p_lastHeight p) d = p_lastHeight p
     then so_writebacks out = [] \<and> held_at j p' = latest (ledger_entry e p j) [d] (held_at j p)
     else (\<exists>wb. so_writebacks out = [wb] \<and> brings (module_table (p_moduleProcessors p ! j)) wb (held_at j p)) \<and>
       held_at j p' = latest (ledger_entry e p j) [d] Map.empty)"
proof (cases "next_height (p_lastHeight p) d = p_lastHeight p")
  case True
  then have "top_BlockHeight d = p_lastHeight p \<or> top_BlockHeight d = 0" by (auto simp: next_height_def split: if_splits)
  with assms(3) obtain errs where "ProcessData e d p = Ok (errs, p')" "so_writebacks out = []"
    by (auto simp: lifecycle_step_def and_then_Ok)
  with ProcessData_ledger [OF assms(1) this(1)] True show ?thesis by simp
next
  case False
  then have new: "top_BlockHeight d \<noteq> p_lastHeight p" "top_BlockHeight d \<noteq> 0"
    by (auto simp: next_height_def split: if_splits)
  obtain wb where wb: "Flush ords p = Ok (wb, p\<lparr>p_moduleProcessors := flushed ords 0 (p_moduleProcessors p)\<rparr>)"
    "brings (module_table (p_moduleProcessors p ! j)) wb (held_at j p)"
    using Flush_ledger [OF assms(1,2)] by blast
  let ?q = "p\<lparr>p_moduleProcessors := flushed ords 0 (p_moduleProcessors p), p_lastHeight := top_BlockHeight d\<rparr>"
  obtain errs where p': "ProcessData e d ?q = Ok (errs, p')" "so_writebacks out = [wb]"
    using assms(3) new wb(1) by (auto simp: lifecycle_step_def and_then_Ok)
  have at: "flushed ords i ms ! k = snd (module_FlushCache (ords (i + k)) (ms ! k))" if "k < length ms" for i ms k
    using that by (induction ords i ms arbitrary: k rule: flushed.induct) (auto simp: nth_Cons split: nat.split)
  have names: "names ?q = names p"
  proof -
    have "map module_ModuleName (flushed ords i ms) = map module_ModuleName ms" for i ms
      by (induction ords i ms rule: flushed.induct) simp_all
    then show ?thesis by (simp add: names_def)
  qed
  have j: "j < length (p_moduleProcessors p)" using assms(1) by (simp add: ledger_ready_def)
  have kind: "same_kind (p_moduleProcessors p ! j) (p_moduleProcessors ?q ! j)"
    using names_nth(1) [OF names [symmetric] j] .
  have "pending m = {#}" if "m \<in> set (flushed ords i ms)" for m i ms
    using that by (induction ords i ms rule: flushed.induct) (auto simp: module_flush.flush_clears)
  moreover have "size (pending (p_moduleProcessors p ! j)) + Suc n < 2 ^ 40"
    using assms(1) j by (simp add: ledger_ready_def)
  ultimately have "\<forall>m \<in> set (flushed ords 0 (p_moduleProcessors p)). size (pending m) + Suc n < 2 ^ 40"
    by auto
  then have "ledger_ready j (Suc n) ?q"
    using assms(1) names same_kind_facts(4) [OF kind] j at [OF j, of 0] mapping_ok_names [OF flushed_keeps(1)]
    by (simp add: ledger_ready_def)
  note step = ProcessData_ledger [OF this p'(1)]
  have empty: "held_at j ?q = Map.empty"
  proof -
    have "upserts (snd (module_FlushCache ord m)) = []" for ord m
      using module_flush.flush_clears [of ord m] by (simp add: pending_rows)
    then show ?thesis using at [OF j, of 0] by (simp add: held_at_def held_def)
  qed
  have "ledger_entry e ?q j = ledger_entry e p j"
    using names j by (intro ledger_entry_cong) simp_all
  moreover have "same_processor p p'"
    using step(2) names by (simp add: same_processor_def)
  ultimately show ?thesis using step False new wb(2) p'(2) empty by (simp add: next_height_def)
qed

lemma lifecycle_ledger:
  assumes "\<forall>n i j. range_order (ords n i j)"
  shows "lifecycle e ords n ds p = Ok (outs, p') \<Longrightarrow> ledger_ready j (length ds) p \<Longrightarrow>
    p_lastHeight p' = final_height (p_lastHeight p) ds \<and>
    list_all2 (brings (module_table (p_moduleProcessors p ! j))) (concat (map so_writebacks outs))
      (blocks (ledger_entry e p j) (p_lastHeight p) (held_at j p) ds)"
proof (induction ds arbitrary: n p outs)
  case (Cons d ds)
  from Cons.prems(1) obtain out p1 outs' where step: "lifecycle_step e (ords n) d p = Ok (out, p1)"
    and rest: "lifecycle e ords (Suc n) ds p1 = Ok (outs', p')" and outs: "outs = out # outs'"
    by (auto simp: and_then_Ok)
  have ord: "\<forall>i j. range_order (ords n i j)" using assms by blast
  have ready: "ledger_ready j (Suc (length ds)) p" using Cons.prems(2) by simp
  note one = ledger_step [OF ready ord step]
  then have p1: "ledger_ready j (length ds) p1" "same_processor p p1"
    "p_lastHeight p1 = next_height (p_lastHeight p) d" by simp_all
  note IH = Cons.IH [OF rest p1(1)]
  have j: "j < length (p_moduleProcessors p)" using ready by (simp add: ledger_ready_def)
  have same: "ledger_entry e p1 j = ledger_entry e p j"
    "module_table (p_moduleProcessors p1 ! j) = module_table (p_moduleProcessors p ! j)"
  proof -
    have names: "names p = names p1" "p_chainName p = p_chainName p1" using p1(2) by (simp_all add: same_processor_def)
    show "ledger_entry e p1 j = ledger_entry e p j" using ledger_entry_cong [OF names j] by simp
    show "module_table (p_moduleProcessors p1 ! j) = module_table (p_moduleProcessors p ! j)"
      using same_kind_facts(5) [OF names_nth(1) [OF names(1) j]] by simp
  qed
  show ?case
    using IH one same p1(3) outs
    by (cases "next_height (p_lastHeight p) d = p_lastHeight p")
      (auto simp: final_height_def simp del: latest.simps)
qed (simp add: final_height_def)

section \<open>The main loop, in any order of the batches\<close>

lemma main_loop_brings:
  "list_all2 (brings tc) bs Ms \<Longrightarrow>
    \<exists>es. set es = (\<Union>M \<in> set Ms. ran M) \<and> (\<forall>x \<in> set es. fits (snd tc) x) \<and>
      (\<forall>M \<in> set Ms. \<forall>k x. M k = Some x \<longrightarrow> unique_key (snd tc) x = k) \<and>
      (\<forall>db. \<exists>db' logs. main_loop never (map Writebacks bs) db = Ok (db', logs) \<and>
        db' (fst tc) = fold (upsert_row (snd tc)) es (db (fst tc)))"
proof (induction bs Ms rule: list_all2_induct)
  case (Cons b bs M Ms)
  from Cons.hyps(1) obtain es1 where 1: "set es1 = ran M" "\<forall>k x. M k = Some x \<longrightarrow> unique_key (snd tc) x = k"
    "\<forall>x \<in> set es1. fits (snd tc) x"
    "\<And>db. \<exists>db' logs. write_batch no_faults b db = Ok (db', logs) \<and> db' (fst tc) = fold (upsert_row (snd tc)) es1 (db (fst tc))"
    unfolding brings_def by blast
  from Cons.IH obtain es2 where 2: "set es2 = (\<Union>M \<in> set Ms. ran M)" "\<forall>x \<in> set es2. fits (snd tc) x"
    "\<forall>M \<in> set Ms. \<forall>k x. M k = Some x \<longrightarrow> unique_key (snd tc) x = k"
    "\<And>db. \<exists>db' logs. main_loop never (map Writebacks bs) db = Ok (db', logs) \<and>
        db' (fst tc) = fold (upsert_row (snd tc)) es2 (db (fst tc))" by blast
  have "\<exists>db' logs. main_loop never (map Writebacks (b # bs)) db = Ok (db', logs) \<and>
        db' (fst tc) = fold (upsert_row (snd tc)) (es1 @ es2) (db (fst tc))" for db
  proof -
    obtain db1 logs1 where b: "write_batch no_faults b db = Ok (db1, logs1)"
      "db1 (fst tc) = fold (upsert_row (snd tc)) es1 (db (fst tc))" using 1(4) by blast
    obtain db2 logs2 where "main_loop never (map Writebacks bs) db1 = Ok (db2, logs2)"
      "db2 (fst tc) = fold (upsert_row (snd tc)) es2 (db1 (fst tc))" using 2(4) by blast
    with b show ?thesis by (simp add: main_step_def)
  qed
  with 1 2 show ?case by (intro exI [of _ "es1 @ es2"]) auto
qed simp

lemma upserts_show_overlay:
  assumes "config_ok cfg" "set es = (\<Union>M \<in> set Ms. ran M)" "\<forall>x \<in> set es. fits cfg x"
    and keys: "\<forall>M \<in> set Ms. \<forall>k x. M k = Some x \<longrightarrow> unique_key cfg x = k"
    and hs: "sorted_wrt (<) hs" "list_all2 (\<lambda>h M. \<forall>r. M k = Some r \<longrightarrow> entry_height r = h) hs Ms"
  shows "fold (upsert_row cfg) es Map.empty k = map_option (new_row cfg) (overlay Ms Map.empty k)"
proof -
  have ok: "table_ok cfg Map.empty" using assms(1) by (simp add: table_ok_def)
  have good: "\<forall>e \<in> set es. bound e (InsertColumns cfg)" using assms(3) by (simp add: fits_def)
  have at: "\<exists>M \<in> set Ms. M (unique_key cfg e) = Some e" if "e \<in> set es" for e
    using that assms(2) keys by (fastforce simp: ran_def)
  show ?thesis
  proof (cases "overlay Ms Map.empty k")
    case None
    then have "\<forall>M \<in> set Ms. M k = None" by (simp only: overlay_None)
    then have "k \<notin> unique_key cfg ` set es" using at by fastforce
    with upsert_store.get_fold_other [OF ok good] None show ?thesis by simp
  next
    case (Some r)
    from overlay_youngest [OF hs Some] obtain M where M: "M \<in> set Ms" "M k = Some r"
      "\<forall>M' \<in> set Ms. \<forall>r'. M' k = Some r' \<longrightarrow> r' = r \<or> entry_height r' < entry_height r" by blast
    have r: "r \<in> set es" "unique_key cfg r = k" using M(1,2) assms(2) keys by (auto intro: ranI)
    have "fold (upsert_row cfg) es Map.empty (unique_key cfg r) = Some (new_row cfg r)"
    proof (rule upsert_store.fold_youngest [OF ok good r(1)])
      show "\<forall>e' \<in> set es. unique_key cfg e' = unique_key cfg r \<longrightarrow> e' = r \<or> entry_height e' < entry_height r"
        using at M(3) r(2) by metis
    qed simp
    with Some r(2) show ?thesis by simp
  qed
qed

lemma ledger_database:
  assumes "\<forall>n i j. range_order (ords n i j)" "lifecycle e ords 0 ds p = Ok (outs, p')"
    and ready: "ledger_ready j (length ds) p" and fresh: "pending (p_moduleProcessors p ! j) = {#}"
    and rising: "rising (p_lastHeight p) ds"
    and faithful: "\<forall>d \<in> set ds. \<forall>r. ledger_entry e p j d = Some (k, r) \<longrightarrow> entry_height r = top_BlockHeight d"
    and arrival: "mset bs = mset (concat (map so_writebacks outs))"
    and tc: "module_table (p_moduleProcessors p ! j) = (t, cfg)" and db: "db t = Map.empty"
  shows "\<exists>db' logs. main_loop never (map Writebacks bs) db = Ok (db', logs) \<and>
    db' t k = map_option (new_row cfg)
      (latest (ledger_entry e p j) (filter (\<lambda>d. top_BlockHeight d < p_lastHeight p') ds) Map.empty k)"
proof -
  let ?entry = "ledger_entry e p j" and ?h = "p_lastHeight p"
  have held: "held_at j p = Map.empty" using fresh by (simp add: held_at_def held_def pending_rows)
  define Ms where "Ms = blocks ?entry ?h Map.empty ds"
  from lifecycle_ledger [OF assms(1,2) ready] have final: "p_lastHeight p' = final_height ?h ds"
    and all: "list_all2 (brings (t, cfg)) (concat (map so_writebacks outs)) Ms"
    by (simp_all add: held tc Ms_def)
  from list_all2_reorder_left_invariance [OF all arrival] obtain Ms' where
    Ms': "list_all2 (brings (t, cfg)) bs Ms'" "mset Ms' = mset Ms" by blast
  have same: "set Ms' = set Ms" using Ms'(2) by (rule mset_eq_setD)
  from main_loop_brings [OF Ms'(1)] obtain es where es: "set es = (\<Union>M \<in> set Ms. ran M)"
    "\<forall>x \<in> set es. fits cfg x" "\<forall>M \<in> set Ms. \<forall>k x. M k = Some x \<longrightarrow> unique_key cfg x = k"
    "\<exists>db' logs. main_loop never (map Writebacks bs) db = Ok (db', logs) \<and> db' t = fold (upsert_row cfg) es (db t)"
    unfolding same by auto
  have "config_ok cfg" using main_configs_ok [OF module_table_schema] tc by (metis snd_conv)
  moreover have "list_all2 (\<lambda>h' M. \<forall>r. M k = Some r \<longrightarrow> entry_height r = h') (block_heights ?h ds) Ms"
    unfolding Ms_def using faithful rising by (intro blocks_at_heights) auto
  ultimately have "fold (upsert_row cfg) es Map.empty k = map_option (new_row cfg) (overlay Ms Map.empty k)"
    using upserts_show_overlay [OF _ es(1-3) block_heights_sorted [OF rising]] by blast
  also have "overlay Ms Map.empty =
      latest ?entry (filter (\<lambda>d. top_BlockHeight d < p_lastHeight p') ds) Map.empty"
    using overlay_blocks [OF rising, of "[]" ?entry Map.empty] by (simp add: Ms_def final)
  finally show ?thesis using es(4) db by auto
qed

section \<open>Properties\<close>

text \<open>C4. The database is refined to a ledger. Run a processor with upserts enabled on traces whose heights
  do not fall; let the batches reach the main loop in any order, with any order of Go's ranges, and let no statement
  fail for a reason outside the program. Then the table of a module that keeps a ledger (it only writes, and is not
  the one of token infos) holds under each key exactly the row of the last trace that carried it in a complete block, and
  nothing else, provided the rows of that key carry the height of their trace, the table was empty and the module
  had nothing pending (and the processor is \<open>ledger_ready\<close>: distinct modules, correctly mapped, and fewer than \<open>2 ^ 40\<close>
  rows and traces). Errors of other modules and of their statements do not matter.\<close>

theorem ledger_refined:
  assumes "\<forall>n i j. range_order (ords n i j)" "lifecycle e ords 0 ds p = Ok (outs, p')"
    and "ledger_ready j (length ds) p" "pending (p_moduleProcessors p ! j) = {#}"
    and "rising (p_lastHeight p) ds"
    and "\<forall>d \<in> set ds. \<forall>r. ledger_entry e p j d = Some (k, r) \<longrightarrow> entry_height r = top_BlockHeight d"
    and "mset bs = mset (concat (map so_writebacks outs))"
    and "module_table (p_moduleProcessors p ! j) = (t, cfg)" "db t = Map.empty"
  shows "\<exists>db' logs. main_loop never (map Writebacks bs) db = Ok (db', logs) \<and>
    db' t k = map_option (new_row cfg)
      (latest (ledger_entry e p j) (filter (\<lambda>d. top_BlockHeight d < p_lastHeight p') ds) Map.empty k)"
  using assms by (rule ledger_database)

definition fresh_processor :: Processor where
  "fresh_processor = \<lparr>p_migrations = [], p_lastHeight = 0, p_chainName = ''cosmos-hub'',
     p_moduleProcessors = [MBank \<lparr>bp_heightCache = []\<rparr>, MCW20TokenInfos \<lparr>ctp_heightCache = []\<rparr>],
     p_sdkModuleMapping = [(''bank'', [0]), (''cw20'', [1])], p_useDBUpsert = True\<rparr>"

lemma fresh_ready: "ledger_ready 0 3 fresh_processor"
  by (auto simp: ledger_ready_def fresh_processor_def names_def ModuleName_defs mapping_ok_def indices_def
      upt_conv_Cons bank_SDKModuleName_def Bank_def cw20_token_infos_SDKModuleName_def CW20_def)

definition sample_run_traces :: "TraceOperation list" where
  "sample_run_traces = [sample_trace, next_trace, next_trace\<lparr>top_BlockHeight := 7\<rparr>]"

lemma sample_lifecycle:
  "is_ok (lifecycle sample_env (\<lambda>_ _ _. forward) 0 sample_run_traces fresh_processor)"
  by code_simp

lemma sample_faithful:
  "ledger_entry sample_env fresh_processor 0 d = Some (k, r) \<Longrightarrow> entry_height r = top_BlockHeight d"
  by (auto simp: ledger_entry_def Let_def fresh_processor_def row_entry_def sample_env_def sample_handler_def
      row_at_defs split: if_splits)

theorem ledger_refined_witness:
  "\<exists>outs p' db' logs. lifecycle sample_env (\<lambda>_ _ _. forward) 0 sample_run_traces fresh_processor = Ok (outs, p') \<and>
    main_loop never (map Writebacks (rev (concat (map so_writebacks outs)))) empty_db = Ok (db', logs) \<and>
    db' ''tracelistener.balances'' [Text ''cosmos-hub'', Text ''aa'', Text ''uatom''] =
      map_option (new_row balances_config)
        (latest (ledger_entry sample_env fresh_processor 0)
          (filter (\<lambda>d. top_BlockHeight d < p_lastHeight p') sample_run_traces) Map.empty
          [Text ''cosmos-hub'', Text ''aa'', Text ''uatom''])"
proof -
  obtain outs p' where run:
    "lifecycle sample_env (\<lambda>_ _ _. forward) 0 sample_run_traces fresh_processor = Ok (outs, p')"
    using sample_lifecycle
    by (cases "lifecycle sample_env (\<lambda>_ _ _. forward) 0 sample_run_traces fresh_processor") auto
  have ord: "\<forall>n i j. range_order ((\<lambda>_ _ _. forward) (n :: nat) (i :: nat) (j :: nat))" by simp
  have "ledger_ready 0 (length sample_run_traces) fresh_processor"
    using fresh_ready by (simp add: sample_run_traces_def eval_nat_numeral)
  moreover have "pending (p_moduleProcessors fresh_processor ! 0) = {#}" by (simp add: fresh_processor_def)
  moreover have "rising (p_lastHeight fresh_processor) sample_run_traces"
    by (simp add: rising_def fresh_processor_def sample_run_traces_def next_trace_def sample_trace_def)
  moreover have "module_table (p_moduleProcessors fresh_processor ! 0) = (''tracelistener.balances'', balances_config)"
    by (simp add: fresh_processor_def module_table_def)
  moreover have "empty_db ''tracelistener.balances'' = Map.empty" by (simp add: empty_db_def)
  ultimately show ?thesis
    using run ledger_refined [OF ord run _ _ _ _ _, of 0 "[Text ''cosmos-hub'', Text ''aa'', Text ''uatom'']"
      "rev (concat (map so_writebacks outs))" "''tracelistener.balances''" balances_config empty_db]
      sample_faithful by (metis mset_rev)
qed

end
