(* ===== verification/Typed_Tables.thy ===== *)
theory Typed_Tables
  imports Main_Loop
begin

text \<open>
  Types: every row the program stores has a value of the declared type in every column, \<open>NULL\<close> only where
  the table description allows it, and stands under the values of its unique columns.
\<close>

section \<open>Values, entries and rows of a table\<close>

text \<open>What the driver accepts for a column type of the generated tables.\<close>

definition has_type :: "string \<Rightarrow> sqlval \<Rightarrow> bool" where
  "has_type ty v =
     (case v of
        Null \<Rightarrow> False
      | Text s \<Rightarrow> ty = ''text''
      | UInt n \<Rightarrow> ty \<in> {''integer'', ''numeric''}
      | SInt n \<Rightarrow> ty \<in> {''integer'', ''bigint'', ''numeric''}
      | Blob bs \<Rightarrow> ty = ''bytes''
      | Boolean b \<Rightarrow> ty = ''bool''
      | TextArray ss \<Rightarrow> ty = ''text[]''
      | UbdEntries es \<Rightarrow> ty = ''jsonb''
      | RedEntries es \<Rightarrow> ty = ''jsonb'')"

definition typed_value :: "column \<Rightarrow> sqlval option \<Rightarrow> bool" where
  "typed_value c v \<longleftrightarrow> (\<exists>x. v = Some x \<and> (has_type (col_Type c) x \<or> x = Null \<and> col_Nullable c))"

definition inserted :: "TableConfig \<Rightarrow> column list" where
  "inserted cfg = filter (\<lambda>c. \<not> col_SkipOnInsert c) (tc_Columns cfg)"

definition typed_entry :: "TableConfig \<Rightarrow> entrier \<Rightarrow> bool" where
  "typed_entry cfg e \<longleftrightarrow> list_all (\<lambda>c. typed_value c (arg e (col_Name c))) (inserted cfg)"

definition typed_row :: "TableConfig \<Rightarrow> sqlval list \<Rightarrow> db_row \<Rightarrow> bool" where
  "typed_row cfg k r \<longleftrightarrow>
     dom r = set (stored_columns cfg) \<and> k = map (\<lambda>c. the (r c)) (tc_UniqueColumns cfg) \<and>
     (\<forall>c \<in> set (tc_Columns cfg). col_Primary c \<or> typed_value c (r (col_Name c)))"

text \<open>What the descriptions have in common.\<close>

definition config_typed :: "TableConfig \<Rightarrow> bool" where
  "config_typed cfg \<longleftrightarrow>
     distinct (map col_Name (tc_Columns cfg)) \<and>
     list_all (\<lambda>c. col_Primary c \<longrightarrow> col_SkipOnInsert c) (tc_Columns cfg) \<and>
     list_all (\<lambda>c. col_Name c \<in> {''height'', ''delete_height''} \<longrightarrow> col_Type c = ''integer'') (tc_Columns cfg) \<and>
     list_all (\<lambda>c. col_Name c = ''delete_height'' \<longrightarrow> col_Nullable c) (tc_Columns cfg)"

lemma main_configs_typed: "tc \<in> set main_schema \<Longrightarrow> config_typed (snd tc)"
proof -
  have "list_all (\<lambda>tc. config_typed (snd tc)) main_schema" by code_simp
  then show "tc \<in> set main_schema \<Longrightarrow> config_typed (snd tc)" by (simp add: list_all_iff)
qed

lemma typed_rows:
  "typed_entry balances_config (EBalance r1)" "typed_entry cw20_balances_config (ECW20Balance r2)"
  "typed_entry cw20_token_info_config (ECW20TokenInfo r3)" "typed_entry delegations_config (EDelegation r4)"
  "typed_entry channels_config (EChannel r5)" "typed_entry connections_config (EConnection r6)"
  "typed_entry denom_traces_config (EDenomTrace r7)" "typed_entry auth_config (EAuth r8)"
  "typed_entry clients_config (EClient r9)" "typed_entry unbonding_delegations_config (EUnbonding r10)"
  "typed_entry validators_config (EValidator r11)"
  by (simp_all add: typed_entry_def inserted_def typed_value_def has_type_def arg_def db_args_def base_args_def
      config_defs)

lemma typed_pending:
  assumes "e \<in># pending m"
  shows "typed_entry (snd (module_table m)) (WithChainName cn e)"
  using assms by (cases m) (auto simp: module_table_def typed_rows)

section \<open>Statements keep rows typed\<close>

lemma InsertColumns_inserted: "InsertColumns cfg = map col_Name (inserted cfg)"
  by (simp add: InsertColumns_def inserted_def)

lemma column_unique:
  "config_typed cfg \<Longrightarrow> c \<in> set (tc_Columns cfg) \<Longrightarrow> d \<in> set (tc_Columns cfg) \<Longrightarrow> col_Name c = col_Name d \<Longrightarrow> c = d"
  by (auto simp: config_typed_def distinct_map inj_on_def)

lemma column_cases:
  assumes "config_ok cfg" "config_typed cfg" "c \<in> set (tc_Columns cfg)" "\<not> col_Primary c"
  shows "c \<in> set (inserted cfg) \<or>
    col_Name c = ''delete_height'' \<and> col_Nullable c \<and> col_Type c = ''integer'' \<and> col_Name c \<notin> set (InsertColumns cfg)"
proof -
  have "col_Name c \<in> set (stored_columns cfg)" using assms(3,4) by (auto simp: stored_columns_def)
  then consider "col_Name c = ''delete_height''" | "col_Name c \<in> set (InsertColumns cfg)"
    using assms(1) unfolding config_ok_def by blast
  then show ?thesis
  proof cases
    case 1
    with assms show ?thesis by (auto simp: config_ok_def config_typed_def list_all_iff)
  next
    case 2
    then obtain d where "d \<in> set (inserted cfg)" "col_Name d = col_Name c"
      by (auto simp: InsertColumns_inserted)
    moreover from this have "d = c" using column_unique [OF assms(2), of d c] assms(3) by (simp add: inserted_def)
    ultimately show ?thesis by simp
  qed
qed

lemma typed_new_row:
  assumes ok: "config_ok cfg" "config_typed cfg" and e: "typed_entry cfg e"
  shows "typed_row cfg (unique_key cfg e) (new_row cfg e)"
  unfolding typed_row_def
proof (intro conjI ballI)
  have "bound e (InsertColumns cfg)"
    using e by (auto simp: bound_def typed_entry_def InsertColumns_inserted list_all_iff typed_value_def)
  then show "dom (new_row cfg e) = set (stored_columns cfg)" by (rule dom_new_row [OF ok(1)])
  show "unique_key cfg e = map (\<lambda>c. the (new_row cfg e c)) (tc_UniqueColumns cfg)"
    using ok(1) by (auto simp: unique_key_def new_row_def config_ok_def)
next
  fix c assume c: "c \<in> set (tc_Columns cfg)"
  show "col_Primary c \<or> typed_value c (new_row cfg e (col_Name c))"
  proof (cases "col_Primary c")
    case False
    from column_cases [OF ok c False] show ?thesis
    proof
      assume "c \<in> set (inserted cfg)"
      with e show ?thesis by (simp add: typed_entry_def list_all_iff new_row_def InsertColumns_inserted)
    next
      assume "col_Name c = ''delete_height'' \<and> col_Nullable c \<and> col_Type c = ''integer'' \<and>
        col_Name c \<notin> set (InsertColumns cfg)"
      with new_row_live [OF ok(1), of e] show ?thesis by (simp add: typed_value_def)
    qed
  qed simp
qed

lemma typed_deleted_row:
  assumes ok: "config_ok cfg" "config_typed cfg" and r: "typed_row cfg k r"
  shows "typed_row cfg k (mark_deleted h r)"
  unfolding typed_row_def
proof (intro conjI ballI)
  show "dom (mark_deleted h r) = set (stored_columns cfg)"
    using ok(1) r by (auto simp: mark_deleted_def config_ok_def typed_row_def)
  have "c \<noteq> ''height'' \<and> c \<noteq> ''delete_height''" if "c \<in> set (tc_UniqueColumns cfg)" for c
    using ok(1) that unfolding config_ok_def by blast
  then show "k = map (\<lambda>c. the (mark_deleted h r c)) (tc_UniqueColumns cfg)"
    using r by (auto simp: typed_row_def mark_deleted_def)
next
  fix c assume c: "c \<in> set (tc_Columns cfg)"
  with ok(2) have "col_Name c \<in> {''height'', ''delete_height''} \<longrightarrow> col_Type c = ''integer''"
    by (simp only: config_typed_def list_all_iff) blast
  with c r show "col_Primary c \<or> typed_value c (mark_deleted h r (col_Name c))"
    by (auto simp: typed_row_def mark_deleted_def typed_value_def has_type_def)
qed

definition typed_table :: "TableConfig \<Rightarrow> table_state \<Rightarrow> bool" where
  "typed_table cfg T \<longleftrightarrow> (\<forall>k r. T k = Some r \<longrightarrow> typed_row cfg k r)"

lemma typed_table_update: "typed_table cfg T \<Longrightarrow> typed_row cfg k r \<Longrightarrow> typed_table cfg (T(k \<mapsto> r))"
  by (simp add: typed_table_def)

lemma typed_upsert_row:
  assumes "config_ok cfg" "config_typed cfg" "typed_entry cfg e" "typed_table cfg T"
  shows "typed_table cfg (upsert_row cfg e T)"
proof -
  have "overwrite cfg e old = new_row cfg e" if "T k = Some old" for k old
    using that assms(4) overwrite_new_row [OF assms(1), of old e] by (auto simp: typed_table_def typed_row_def)
  with typed_table_update [OF assms(4) typed_new_row [OF assms(1-3)]] assms(4) show ?thesis
    by (auto simp: upsert_row_def split: option.split)
qed

lemma typed_delete_row:
  assumes "config_ok cfg" "config_typed cfg" "typed_table cfg T"
  shows "typed_table cfg (delete_row cfg e T)"
proof (cases "T (unique_key cfg e)")
  case (Some r)
  then have "typed_row cfg (unique_key cfg e) r" using assms(3) by (simp add: typed_table_def)
  with typed_table_update [OF assms(3) typed_deleted_row [OF assms(1,2)]] assms(3) Some show ?thesis
    by (simp add: delete_row_eq)
qed (use assms in \<open>simp add: delete_row_eq\<close>)

lemma typed_insert_rows:
  assumes ok: "config_ok cfg" "config_typed cfg"
  shows "\<forall>e \<in> set es. typed_entry cfg e \<Longrightarrow> typed_table cfg T \<Longrightarrow> insert_rows cfg es T = Ok T' \<Longrightarrow> typed_table cfg T'"
proof (induction es arbitrary: T)
  case (Cons e es)
  then obtain T1 where T1: "insert_row cfg e T = Ok T1" "insert_rows cfg es T1 = Ok T'" by (auto simp: and_then_Ok)
  then have "T1 = T(unique_key cfg e \<mapsto> new_row cfg e)" by (auto simp: insert_row_def split: option.splits)
  with typed_table_update [OF Cons.prems(2) typed_new_row [OF ok]] Cons.prems(1) have "typed_table cfg T1" by simp
  with Cons.IH T1(2) Cons.prems(1) show ?case by simp
qed simp

lemma typed_exec_rows:
  assumes ok: "config_ok cfg" "config_typed cfg" and es: "\<forall>e \<in> set es. typed_entry cfg e"
    and T: "typed_table cfg T" "exec_rows k cfg es T = Ok T'"
  shows "typed_table cfg T'"
proof (cases k)
  case KInsert
  with T typed_insert_rows [OF ok es T(1)] show ?thesis by (simp add: exec_rows_def split: if_splits)
next
  case KUpsert
  have "typed_table cfg (fold (upsert_row cfg) es T)" using es T(1)
    by (induction es arbitrary: T) (simp_all add: typed_upsert_row [OF ok])
  with KUpsert T(2) show ?thesis by (simp add: exec_rows_def split: if_splits)
next
  case KDelete
  with T typed_delete_row [OF ok T(1)] show ?thesis by (auto simp: exec_rows_def split: if_splits list.splits)
qed

section \<open>Batches keep the database typed\<close>

definition db_typed :: "database \<Rightarrow> bool" where
  "db_typed db \<longleftrightarrow> (\<forall>tc \<in> set main_schema. typed_table (snd tc) (db (fst tc)))"

text \<open>An operation with the statement of a module's table and rows of that table.\<close>

definition typed_op :: "WritebackOp \<Rightarrow> bool" where
  "typed_op wo \<longleftrightarrow> (\<exists>tc \<in> set main_schema. \<exists>k. wb_Statement wo = stmt k tc \<and>
     (\<forall>e \<in> set (wb_Data wo). typed_entry (snd tc) e \<and> fits (snd tc) e))"

lemma typed_update:
  assumes "db_typed db" "tc \<in> set main_schema" "typed_table (snd tc) T"
  shows "db_typed (db(fst tc := T))"
proof -
  have "tc' = tc" if "tc' \<in> set main_schema" "fst tc' = fst tc" for tc'
    using main_schema_ok that assms(2) by (metis eq_key_imp_eq_value prod.collapse schema_ok_def)
  with assms show ?thesis by (auto simp: db_typed_def)
qed

lemma exec_rows_no_panic: "exec_rows k cfg es T \<noteq> Panic q"
proof -
  have "insert_rows cfg es T \<noteq> Panic q"
    by (induction es arbitrary: T) (auto simp: and_then_Panic insert_row_def split: option.splits)
  then show ?thesis by (auto simp: exec_rows_def split: stmt_kind.splits list.splits)
qed

lemma typed_Add:
  assumes "db_typed db" "tc \<in> set main_schema" "\<forall>e \<in> set es. typed_entry (snd tc) e"
  shows "case Add failure (stmt k tc) es db of Ok db' \<Rightarrow> db_typed db' | Err err \<Rightarrow> True | Panic q \<Rightarrow> False"
proof (cases failure)
  case (Some err)
  then show ?thesis by (simp add: Add_def NamedExec_def)
next
  case none: None
  show ?thesis
  proof (cases "exec_rows k (snd tc) es (db (fst tc))")
    case (Ok T)
    have "typed_table (snd tc) T"
      using typed_exec_rows [OF main_configs_ok [OF assms(2)] main_configs_typed [OF assms(2)] assms(3) _ Ok] assms(1,2)
      by (simp add: db_typed_def)
    with Ok typed_update [OF assms(1,2)] none show ?thesis
      by (simp add: Add_def NamedExec_def lookup_main [OF assms(2)] case_prod_unfold)
  qed (use exec_rows_no_panic none in \<open>simp_all add: Add_def NamedExec_def lookup_main [OF assms(2)] case_prod_unfold\<close>)
qed

lemma typed_write_units:
  assumes "tc \<in> set main_schema"
  shows "\<forall>u \<in> set us. wb_Statement u = stmt k tc \<and> (\<forall>e \<in> set (wb_Data u). typed_entry (snd tc) e) \<Longrightarrow>
    db_typed db \<Longrightarrow> \<exists>db' logs. write_units f us db = Ok (db', logs) \<and> db_typed db'"
proof (induction us arbitrary: f db)
  case (Cons u us)
  have IH: "\<exists>db' logs. write_units f' us db1 = Ok (db', logs) \<and> db_typed db'" if "db_typed db1" for db1 f'
    using Cons.IH [OF _ that] Cons.prems(1) by simp
  have "case Add (f 0) (wb_Statement u) (wb_Data u) db of Ok db' \<Rightarrow> db_typed db' | Err err \<Rightarrow> True | Panic q \<Rightarrow> False"
    using typed_Add [OF Cons.prems(2) assms] Cons.prems(1) by simp
  moreover obtain db1 logs1 where "write_units (\<lambda>i. f (Suc i)) us db = Ok (db1, logs1)" "db_typed db1"
    using IH [OF Cons.prems(2)] by blast
  ultimately show ?case
    using IH by (fastforce simp: InterfaceSlice_Data Let_def split: outcome.splits)
qed simp

lemma typed_write_batch:
  "\<forall>wo \<in> set wb. typed_op wo \<and> length (wb_Data wo) < 2 ^ 40 \<Longrightarrow> db_typed db \<Longrightarrow>
    \<exists>db' logs. write_batch f wb db = Ok (db', logs) \<and> db_typed db'"
proof (induction wb arbitrary: f db)
  case (Cons wo wb)
  then obtain tc k where tc: "tc \<in> set main_schema" "wb_Statement wo = stmt k tc"
    "\<forall>e \<in> set (wb_Data wo). typed_entry (snd tc) e \<and> fits (snd tc) e" by (auto simp: typed_op_def)
  obtain us where us: "SplitStatementToDBLimit wo = Ok us" "concat (map wb_Data us) = wb_Data wo"
    "\<forall>u \<in> set us. wb_Statement u = wb_Statement wo"
    using split_units [of wo "snd tc"] tc(3) Cons.prems(1) by fastforce
  have "set (wb_Data u) \<subseteq> set (wb_Data wo)" if "u \<in> set us" for u
    unfolding us(2) [symmetric] using that by auto
  then have "\<forall>u \<in> set us. wb_Statement u = stmt k tc \<and> (\<forall>e \<in> set (wb_Data u). typed_entry (snd tc) e)"
    using us(3) tc(2,3) by auto
  from typed_write_units [OF tc(1) this Cons.prems(2)] obtain db1 logs where
    db1: "write_units (f 0) us db = Ok (db1, logs)" "db_typed db1" by blast
  from Cons.IH [OF _ db1(2), of "\<lambda>i. f (Suc i)"] Cons.prems(1) obtain db2 logs2 where
    "write_batch (\<lambda>i. f (Suc i)) wb db1 = Ok (db2, logs2)" "db_typed db2" by auto
  with us(1) db1(1) show ?case by simp
qed simp

section \<open>A flush hands over typed operations\<close>

lemma complete_ops_rows:
  "complete_ops p m cd = Ok wb \<Longrightarrow> wo \<in> set wb \<Longrightarrow>
    \<exists>entry \<in> set cd. wb_Data wo = map (WithChainName (p_chainName p)) (wb_Data entry) \<and>
      (\<exists>k. wb_Statement wo = stmt k (module_table m))"
proof (induction cd arbitrary: wb)
  case (Cons entry cd)
  show ?case
  proof (cases "wb_Data entry = []")
    case True
    with Cons show ?thesis by auto
  next
    case False
    with Cons.prems(1) obtain st wb1 where
      st: "statement_for (p_useDBUpsert p) m (wb_Type entry) = Ok st" and wb1: "complete_ops p m cd = Ok wb1"
      and wb: "wb = entry\<lparr>wb_Data := map (WithChainName (p_chainName p)) (wb_Data entry), wb_Statement := st,
        wb_SourceModule := module_SDKModuleName m\<rparr> # wb1"
      by (auto simp: and_then_Ok)
    from Cons.prems(2) wb show ?thesis
      using Cons.IH [OF wb1] statement_for_stmt [OF st] by auto
  qed
qed simp

lemma module_table_flushed [simp]: "module_table (snd (module_FlushCache ord m)) = module_table m"
  by (cases m) (simp_all add: module_table_def)

lemma op_length: "wo \<in> set wb \<Longrightarrow> length (wb_Data wo) \<le> size (op_rows wb)"
  by (induction wb) auto

lemma flush_modules_typed:
  assumes "\<forall>i j. range_order (ords i j)"
  shows "flush_modules p ords i ms = Ok (wb, ms') \<Longrightarrow> wo \<in> set wb \<Longrightarrow>
    typed_op wo \<and> (\<exists>m \<in> set ms. length (wb_Data wo) \<le> size (pending m))"
proof (induction ms arbitrary: i wb ms')
  case (Cons m ms)
  obtain cd m' where cd: "module_FlushCache (ords i) m = (cd, m')" by (rule prod.exhaust)
  have ord: "\<forall>j. range_order (ords i j)" using assms by blast
  from Cons.prems(1) obtain wb1 wb2 ms2 where wb: "complete_ops p m' cd = Ok wb1"
    "flush_modules p ords (Suc i) ms = Ok (wb2, ms2)" "wb = wb1 @ wb2"
    by (auto simp: cd and_then_Ok)
  show ?case
  proof (cases "wo \<in> set wb1")
    case True
    from complete_ops_rows [OF wb(1) True] obtain entry k where entry: "entry \<in> set cd"
      "wb_Data wo = map (WithChainName (p_chainName p)) (wb_Data entry)"
      "wb_Statement wo = stmt k (module_table m')" by blast
    have m': "module_table m' = module_table m" using module_table_flushed [of "ords i" m] cd by simp
    have "e \<in># pending m" if "e \<in> set (wb_Data entry)" for e
      using module_flush.flush_hands_over [OF ord, of m] that entry(1) op_rows_mem [of e cd] by (auto simp: cd)
    with entry(2,3) have "typed_op wo"
      unfolding typed_op_def m'
      by (intro bexI [OF _ module_table_schema [of m]] exI [of _ k]) (auto simp: typed_pending pending_fits)
    moreover have "length (wb_Data wo) \<le> size (pending m)"
      using op_length [OF entry(1)] module_flush.flush_hands_over [OF ord, of m] entry(2) by (simp add: cd)
    ultimately show ?thesis by auto
  next
    case False
    with Cons.prems(2) wb Cons.IH [OF wb(2)] show ?thesis by simp
  qed
qed simp

lemma Flush_typed:
  assumes "\<forall>i j. range_order (ords i j)" "Flush ords p = Ok (wb, p')"
  shows "\<forall>wo \<in> set wb. typed_op wo \<and> (\<exists>m \<in> set (p_moduleProcessors p). length (wb_Data wo) \<le> size (pending m))"
  using assms(2) flush_modules_typed [OF assms(1)] by (auto simp: Flush_def and_then_Ok)

section \<open>Properties\<close>

definition flush_batch :: "WritebackOp list \<Rightarrow> bool" where
  "flush_batch wb \<longleftrightarrow> (\<exists>ords p p'. (\<forall>i j. range_order (ords i j)) \<and> Flush ords p = Ok (wb, p')) \<and>
     (\<forall>wo \<in> set wb. length (wb_Data wo) < 2 ^ 40)"

lemma flush_batchI:
  "\<forall>i j. range_order (ords i j) \<Longrightarrow> Flush ords p = Ok (wb, p') \<Longrightarrow> \<forall>wo \<in> set wb. length (wb_Data wo) < 2 ^ 40 \<Longrightarrow>
    flush_batch wb"
  unfolding flush_batch_def by blast

text \<open>C34. Whatever flushes the batches come from, of whatever processors, in whatever order and between whatever
  errors they arrive, and whichever statements fail, the main loop handles every event without panicking, and keeps
  every row of every table typed: it has the declared columns, each with a value of its type or, where the description allows it,
  \<open>NULL\<close>, and it stands under the values of its unique columns.\<close>

theorem tables_typed:
  assumes "db_typed db" "\<forall>wb. Writebacks wb \<in> set evs \<longrightarrow> flush_batch wb"
  shows "\<exists>db' logs. main_loop f evs db = Ok (db', logs) \<and> db_typed db'"
  using assms
proof (induction evs arbitrary: f db)
  case (Cons ev evs)
  have "\<exists>db1 logs1. main_step (f 0) ev db = Ok (db1, logs1) \<and> db_typed db1"
  proof (cases ev)
    case (Writebacks wb)
    with Cons.prems(2) have "flush_batch wb" by simp
    then have "\<forall>wo \<in> set wb. typed_op wo \<and> length (wb_Data wo) < 2 ^ 40"
      unfolding flush_batch_def using Flush_typed by blast
    from typed_write_batch [OF this Cons.prems(1)] Writebacks show ?thesis by (simp add: main_step_def)
  qed (use Cons.prems(1) in \<open>simp_all add: main_step_def\<close>)
  then obtain db1 logs1 where db1: "main_step (f 0) ev db = Ok (db1, logs1)" "db_typed db1" by blast
  from Cons.IH [OF db1(2), of "\<lambda>n. f (Suc n)"] Cons.prems(2) obtain db2 logs2 where
    "main_loop (\<lambda>n. f (Suc n)) evs db1 = Ok (db2, logs2)" "db_typed db2" by auto
  with db1(1) show ?case by simp
qed simp

text \<open>The connection is lost while the first batch is written.\<close>

definition lost_connection :: "nat \<Rightarrow> nat \<Rightarrow> nat \<Rightarrow> fault" where
  "lost_connection n i u = (if n = 0 \<and> i = 1 then Some ''conn closed'' else None)"

lemma tables_typed_witness:
  "\<exists>wb db' logs. wb \<noteq> [] \<and> main_loop lost_connection [Writebacks wb, WatchingError ''tail'', Writebacks wb] empty_db = Ok (db', logs) \<and>
    db_typed db'"
proof -
  obtain wb p' where wb: "Flush (\<lambda>_ _. forward) sample_processor = Ok (wb, p')"
    "op_rows wb = image_mset (WithChainName (p_chainName sample_processor)) (pending_all sample_processor)"
    using Flush_spec [of "\<lambda>_ _. forward" sample_processor] by auto
  have rows: "size (op_rows wb) = 2" unfolding wb(2) by (simp add: pending_all_def sample_processor_def)
  then have "\<forall>wo \<in> set wb. length (wb_Data wo) < 2 ^ 40" using op_length [of _ wb] by fastforce
  with flush_batchI [OF _ wb(1)] have "flush_batch wb" by simp
  moreover have "db_typed empty_db" by (simp add: db_typed_def typed_table_def empty_db_def)
  ultimately have "\<exists>db' logs. main_loop lost_connection [Writebacks wb, WatchingError ''tail'', Writebacks wb] empty_db = Ok (db', logs) \<and>
      db_typed db'"
    by (intro tables_typed) auto
  moreover have "wb \<noteq> []" using rows by auto
  ultimately show ?thesis by blast
qed

end
