(* ===== verification/Watcher.thy ===== *)
theory Watcher
  imports Trace
begin

text \<open>
  The trace watcher (\<open>TraceWatcher\<close> in \<open>tracelistener/tracelistener.go\<close>): which lines and which
  operations it considers, what it does with one line of the trace file, the reading loop with its
  restarts, and the goroutines that hand operations to the processor. The tail library is an
  argument: the lines of each tailing session, or the error it fails to open with. Log output and
  the pause before a restart are left out. \<open>parse\<close> is the JSON scanner.
\<close>

section \<open>What is considered\<close>

fun contains_any :: "bytes list \<Rightarrow> bytes \<Rightarrow> bool" where
  "contains_any [] b = False"
| "contains_any (op # ops) b = (if sublist op b then True else contains_any ops b)"

definition mustConsiderData :: "bytes list \<Rightarrow> bytes \<Rightarrow> bool" where
  "mustConsiderData WatchedOps b = (if WatchedOps = [] then True else contains_any WatchedOps b)"

fun matches_any :: "bytes list \<Rightarrow> string \<Rightarrow> bool" where
  "matches_any [] op = False"
| "matches_any (w # ws) op = (if Operation_String w = op then True else matches_any ws op)"

definition mustConsiderOperation :: "bytes list \<Rightarrow> TraceOperation \<Rightarrow> bool" where
  "mustConsiderOperation WatchedOps op =
     (if WatchedOps = [] then True else matches_any WatchedOps (top_Operation op))"

text \<open>The operations sent on the data channel: none, or the one given, each by a goroutine of its own.\<close>

definition ParseOperation :: "bytes list \<Rightarrow> TraceOperation \<Rightarrow> TraceOperation list" where
  "ParseOperation WatchedOps data =
     (if \<not> mustConsiderOperation WatchedOps data then []
      else if top_Operation data = Operation_String WriteOp \<and> length (top_Value data) = 0 then []
      else [data])"

section \<open>The reading loop\<close>

text \<open>What the loop sends: an error, an operation, or a line to the exporter.\<close>

datatype watch_event = SendError string | Send TraceOperation | Export bytes

definition watch_line ::
    "(bytes \<Rightarrow> json outcome) \<Rightarrow> (f64 \<Rightarrow> u64) \<Rightarrow> bytes list \<Rightarrow> string \<Rightarrow> watch_event list outcome" where
  "watch_line parse wild WatchedOps text =
     (let lineBytes = bytes_of_string text
      in if \<not> mustConsiderData WatchedOps lineBytes then Ok []
         else case and_then (parse lineBytes) (\<lambda>v. UnmarshalJSON wild v zero_trace) of
             Err e \<Rightarrow> Ok [SendError (''failed unmarshaling, '' @ e @ '', data: '' @ text)]
           | Panic p \<Rightarrow> Panic p
           | Ok to \<Rightarrow> Ok (map Send (ParseOperation WatchedOps to)))"

datatype tail_line = Line string | Broken string

text \<open>
  The lines of one tailing session; a broken line ends it. The exporter is fed while it accepts data:
  \<open>accepting\<close> says so for each line in turn.
\<close>

fun watch_session ::
    "(string \<Rightarrow> watch_event list outcome) \<Rightarrow> (nat \<Rightarrow> bool) \<Rightarrow> nat \<Rightarrow> tail_line list \<Rightarrow>
     watch_event list outcome" where
  "watch_session step accepting i [] = Ok []"
| "watch_session step accepting i (Broken e # ls) = Ok [SendError (''line reading error, '' @ e)]"
| "watch_session step accepting i (Line text # ls) =
     and_then (step text) (\<lambda>evs.
     and_then (watch_session step accepting (Suc i) ls) (\<lambda>rest.
       Ok ((if accepting i then [Export (bytes_of_string text)] else []) @ evs @ rest)))"

text \<open>\<open>Watch\<close> over the sessions of the tail library; a session that cannot be opened ends the loop.\<close>

fun Watch ::
    "(string \<Rightarrow> watch_event list outcome) \<Rightarrow> (nat \<Rightarrow> nat \<Rightarrow> bool) \<Rightarrow> nat \<Rightarrow>
     (string + tail_line list) list \<Rightarrow> watch_event list outcome" where
  "Watch step accepting k [] = Ok []"
| "Watch step accepting k (Inl e # ss) = Ok [SendError (''tail creation error, '' @ e)]"
| "Watch step accepting k (Inr ls # ss) =
     and_then (watch_session step (accepting k) 0 ls) (\<lambda>evs.
     and_then (Watch step accepting (Suc k) ss) (\<lambda>rest. Ok (evs @ rest)))"

section \<open>Facts about the filters\<close>

lemma contains_any_iff: "contains_any ops b \<longleftrightarrow> (\<exists>op \<in> set ops. sublist op b)"
  by (induction ops) auto

lemma matches_any_iff: "matches_any ops op \<longleftrightarrow> (\<exists>w \<in> set ops. Operation_String w = op)"
  by (induction ops) auto

definition sent_ops :: "watch_event list \<Rightarrow> TraceOperation list" where
  "sent_ops evs = concat (map (\<lambda>e. case e of Send t \<Rightarrow> [t] | _ \<Rightarrow> []) evs)"

lemma sent_ops_simps [simp]:
  "sent_ops [] = []" "sent_ops (Send t # evs) = t # sent_ops evs"
  "sent_ops (SendError e # evs) = sent_ops evs" "sent_ops (Export b # evs) = sent_ops evs"
  "sent_ops (xs @ ys) = sent_ops xs @ sent_ops ys"
  by (simp_all add: sent_ops_def)

lemma sent_ops_map_Send [simp]: "sent_ops (map Send ts) = ts"
  by (induction ts) simp_all

text \<open>The operations the main program watches.\<close>

definition main_WatchedOps :: "bytes list" where
  "main_WatchedOps = [WriteOp, DeleteOp]"

lemma ParseOperation_watched:
  "ParseOperation main_WatchedOps t =
    (if is_delete t \<or> is_write t \<and> top_Value t \<noteq> [] then [t] else [])"
  by (simp add: ParseOperation_def mustConsiderOperation_def matches_any_iff main_WatchedOps_def
      is_delete_def is_write_def)

text \<open>C25. With the operations the program watches, an operation is passed on exactly when it is a
  delete, or a write with a value; it is passed on unchanged and once.\<close>

theorem ParseOperation_keeps:
  "ParseOperation main_WatchedOps t =
    (if is_delete t \<or> is_write t \<and> top_Value t \<noteq> [] then [t] else [])"
  by (rule ParseOperation_watched)

section \<open>Delivery\<close>

text \<open>
  Each operation travels in a goroutine: between reading a line and the processor's receive it is
  pending, and the scheduler picks any pending operation next.
\<close>

record delivery =
  dl_todo :: "TraceOperation list"
  dl_pending :: "TraceOperation list"
  dl_received :: "TraceOperation list"

definition deliver_start :: "TraceOperation list \<Rightarrow> delivery" where
  "deliver_start ts = \<lparr>dl_todo = ts, dl_pending = [], dl_received = []\<rparr>"

inductive deliver_step :: "delivery \<Rightarrow> delivery \<Rightarrow> bool" where
  spawn: "dl_todo d = t # ts \<Longrightarrow>
    deliver_step d (d\<lparr>dl_todo := ts, dl_pending := dl_pending d @ [t]\<rparr>)"
| receive: "dl_pending d = xs @ t # ys \<Longrightarrow>
    deliver_step d (d\<lparr>dl_pending := xs @ ys, dl_received := dl_received d @ [t]\<rparr>)"

inductive_cases deliver_stepE: "deliver_step d d'"

definition all_ops :: "delivery \<Rightarrow> TraceOperation multiset" where
  "all_ops d = mset (dl_todo d) + mset (dl_pending d) + mset (dl_received d)"

lemma deliver_step_all_ops: "deliver_step d d' \<Longrightarrow> all_ops d' = all_ops d"
  by (erule deliver_stepE) (simp_all add: all_ops_def)

lemma deliver_all_ops: "deliver_step\<^sup>*\<^sup>* d d' \<Longrightarrow> all_ops d' = all_ops d"
  by (induction rule: rtranclp_induct) (simp_all add: deliver_step_all_ops)

lemma deliver_spawn_all:
  "deliver_step\<^sup>*\<^sup>* d (d\<lparr>dl_todo := [], dl_pending := dl_pending d @ dl_todo d\<rparr>)"
proof (induction "dl_todo d" arbitrary: d)
  case Nil
  then have "d\<lparr>dl_todo := [], dl_pending := dl_pending d @ dl_todo d\<rparr> = d" by (cases d) simp
  then show ?case by simp
next
  case (Cons t ts)
  let ?d = "d\<lparr>dl_todo := ts, dl_pending := dl_pending d @ [t]\<rparr>"
  have "deliver_step d ?d" using Cons(2) by (intro spawn) simp
  moreover have "deliver_step\<^sup>*\<^sup>* ?d (?d\<lparr>dl_todo := [], dl_pending := dl_pending ?d @ dl_todo ?d\<rparr>)"
    by (rule Cons(1)) simp
  ultimately show ?case
    by (simp add: Cons(2)[symmetric] converse_rtranclp_into_rtranclp)
qed

lemma deliver_receive_all:
  assumes "dl_todo d = []" "mset us = mset (dl_pending d)"
  shows "deliver_step\<^sup>*\<^sup>* d (d\<lparr>dl_pending := [], dl_received := dl_received d @ us\<rparr>)"
  using assms
proof (induction us arbitrary: d)
  case Nil
  then have "d\<lparr>dl_pending := [], dl_received := dl_received d @ []\<rparr> = d" by (cases d) simp
  then show ?case by simp
next
  case (Cons u us)
  then have "u \<in> set (dl_pending d)" by (metis list.set_intros(1) mset_eq_setD)
  then obtain xs ys where p: "dl_pending d = xs @ u # ys" by (meson split_list)
  let ?d = "d\<lparr>dl_pending := xs @ ys, dl_received := dl_received d @ [u]\<rparr>"
  have "deliver_step d ?d" using p by (rule receive)
  moreover have "deliver_step\<^sup>*\<^sup>* ?d (?d\<lparr>dl_pending := [], dl_received := dl_received ?d @ us\<rparr>)"
    by (rule Cons.IH) (use Cons.prems p in simp_all)
  ultimately show ?case by (simp add: converse_rtranclp_into_rtranclp)
qed

lemma deliver_any_order:
  assumes "mset us = mset ts"
  shows "deliver_step\<^sup>*\<^sup>* (deliver_start ts) \<lparr>dl_todo = [], dl_pending = [], dl_received = us\<rparr>"
proof -
  have "deliver_step\<^sup>*\<^sup>* (deliver_start ts) \<lparr>dl_todo = [], dl_pending = ts, dl_received = []\<rparr>"
    using deliver_spawn_all [of "deliver_start ts"] by (simp add: deliver_start_def)
  moreover have "deliver_step\<^sup>*\<^sup>* \<lparr>dl_todo = [], dl_pending = ts, dl_received = []\<rparr>
      \<lparr>dl_todo = [], dl_pending = [], dl_received = us\<rparr>"
    using deliver_receive_all [of "\<lparr>dl_todo = [], dl_pending = ts, dl_received = []\<rparr>" us] assms by simp
  ultimately show ?thesis by simp
qed

text \<open>Of the operations passed on none is lost or repeated, but their order is not kept: the
  complete deliveries are exactly the permutations of what was read.\<close>

theorem delivery_orders:
  "{us. deliver_step\<^sup>*\<^sup>* (deliver_start ts) \<lparr>dl_todo = [], dl_pending = [], dl_received = us\<rparr>} =
   {us. mset us = mset ts}"
proof (intro set_eqI iffI)
  fix us
  assume "us \<in> {us. deliver_step\<^sup>*\<^sup>* (deliver_start ts) \<lparr>dl_todo = [], dl_pending = [], dl_received = us\<rparr>}"
  then show "us \<in> {us. mset us = mset ts}"
    using deliver_all_ops by (force simp: all_ops_def deliver_start_def)
qed (simp add: deliver_any_order)

section \<open>One line of the trace file\<close>

text \<open>C26. A line the JSON scanner reads as the store's record of an access is passed on as that
  access: nothing for the operations that are not watched and for writes of an empty value.\<close>

theorem watch_line_trace:
  assumes "parse (bytes_of_string text) = Ok (trace_line op key val height hash)"
    and "sublist (bytes_of_string op) (bytes_of_string text)" and "height \<le> 2 ^ 53"
  shows "watch_line parse wild main_WatchedOps text =
    Ok (if op = ''delete'' \<or> op = ''write'' \<and> val \<noteq> []
        then [Send \<lparr>top_Operation = op, top_Key = Slice key (padding (length key)), top_Value = val,
                top_BlockHeight = of_nat height, top_TxHash = hash, top_SuggestedProcessor = []\<rparr>]
        else [])"
proof -
  have read: "UnmarshalJSON wild (trace_line op key val height hash) zero_trace =
      Ok \<lparr>top_Operation = op, top_Key = Slice key (padding (length key)), top_Value = val,
        top_BlockHeight = of_nat height, top_TxHash = hash, top_SuggestedProcessor = []\<rparr>"
    using UnmarshalJSON_trace_line [OF ParseFloat_int [OF assms(3)]] f64_to_uint64_int [OF assms(3)]
    by simp
  show ?thesis
  proof (cases "op = ''delete'' \<or> op = ''write''")
    case True
    then have "mustConsiderData main_WatchedOps (bytes_of_string text)"
      using assms(2) by (auto simp: mustConsiderData_def main_WatchedOps_def WriteOp_def DeleteOp_def)
    with True assms(1) read show ?thesis
      by (auto simp: watch_line_def Let_def ParseOperation_watched is_delete_def is_write_def)
  next
    case False
    with assms(1) read show ?thesis
      by (auto simp: watch_line_def Let_def ParseOperation_watched is_delete_def is_write_def)
  qed
qed

definition sample_text :: string where
  "sample_text = ''{operation:write,key:AgE=,value:CA==,metadata:{blockHeight:7,txHash:AB}}''"

theorem watch_line_trace_witness:
  "watch_line (\<lambda>_. Ok (trace_line ''write'' [2, 1] [8] 7 ''AB'')) (\<lambda>_. 0) main_WatchedOps sample_text =
    Ok [Send \<lparr>top_Operation = ''write'', top_Key = Slice [2, 1] [0], top_Value = [8],
          top_BlockHeight = of_nat 7, top_TxHash = ''AB'', top_SuggestedProcessor = []\<rparr>]"
proof -
  have "sublist (bytes_of_string ''write'') (bytes_of_string sample_text)" by code_simp
  then show ?thesis
    using watch_line_trace [of "\<lambda>_. Ok (trace_line ''write'' [2, 1] [8] 7 ''AB'')" sample_text
        "''write''" "[2, 1]" "[8]" 7 "''AB''"] by (simp add: padding_def)
qed

end
