(* ===== verification/Pipeline.thy ===== *)
theory Pipeline
  imports Ledger Typed_Tables Watcher
begin

text \<open>
  The goroutines of the main program together: the watcher, a goroutine for each trace on its way to the processor,
  the processor, a goroutine for each batch on its way to the main loop, and the main loop. They
  meet on unbuffered channels, so a message is taken in the same step as it is sent. The scheduler picks any
  goroutine that can move. A trace is handled in one step, then the processor sends its errors one by one:
  nobody sees the modules in between.
\<close>

section \<open>The system\<close>

record pipeline =
  pl_todo :: "watch_event list"
  pl_pending :: "TraceOperation list"
  pl_received :: "TraceOperation list"
  pl_processor :: Processor
  pl_sending :: "tracing_error list"
  pl_batches :: "WritebackOp list list"
  pl_db :: database
  pl_taken :: nat
  pl_logs :: "log_entry list"

definition pipeline_start :: "watch_event list \<Rightarrow> Processor \<Rightarrow> database \<Rightarrow> pipeline" where
  "pipeline_start evs p db =
     \<lparr>pl_todo = evs, pl_pending = [], pl_received = [], pl_processor = p, pl_sending = [], pl_batches = [],
      pl_db = db, pl_taken = 0, pl_logs = []\<rparr>"

text \<open>The main loop has taken an event; \<open>pl_taken\<close> counts them.\<close>

definition main_took :: "database \<Rightarrow> log_entry list \<Rightarrow> pipeline \<Rightarrow> pipeline" where
  "main_took db logs s = s\<lparr>pl_db := db, pl_taken := Suc (pl_taken s), pl_logs := pl_logs s @ logs\<rparr>"

text \<open>The steps: the watcher starts the goroutine of a trace, feeds the exporter, or tells the main loop an error; the
  processor takes a pending trace; the main loop takes an error of the processor; the main loop takes a batch. \<open>f\<close> says
  which statements of the main loop fail.\<close>

inductive pipeline_step ::
    "env \<Rightarrow> (nat \<Rightarrow> nat \<Rightarrow> orders) \<Rightarrow> (nat \<Rightarrow> nat \<Rightarrow> nat \<Rightarrow> fault) \<Rightarrow> pipeline \<Rightarrow> pipeline \<Rightarrow> bool"
  for e ords f where
  pass_on: "pl_todo s = Send t # evs \<Longrightarrow>
    pipeline_step e ords f s (s\<lparr>pl_todo := evs, pl_pending := pl_pending s @ [t]\<rparr>)"
| export_line: "pl_todo s = Export b # evs \<Longrightarrow> pipeline_step e ords f s (s\<lparr>pl_todo := evs\<rparr>)"
| complain: "pl_todo s = SendError err # evs \<Longrightarrow> main_step (f (pl_taken s)) (WatchingError err) (pl_db s) = Ok (db, logs) \<Longrightarrow>
    pipeline_step e ords f s (main_took db logs (s\<lparr>pl_todo := evs\<rparr>))"
| handle: "pl_sending s = [] \<Longrightarrow> pl_pending s = xs @ t # ys \<Longrightarrow>
    lifecycle_step e (ords (length (pl_received s))) t (pl_processor s) = Ok (out, p) \<Longrightarrow>
    pipeline_step e ords f s (s\<lparr>pl_pending := xs @ ys, pl_received := pl_received s @ [t], pl_processor := p,
      pl_sending := so_errors out, pl_batches := pl_batches s @ so_writebacks out\<rparr>)"
| report: "pl_sending s = te # tes \<Longrightarrow> main_step (f (pl_taken s)) (ProcessingError te) (pl_db s) = Ok (db, logs) \<Longrightarrow>
    pipeline_step e ords f s (main_took db logs (s\<lparr>pl_sending := tes\<rparr>))"
| store: "pl_batches s = xs @ b # ys \<Longrightarrow> main_step (f (pl_taken s)) (Writebacks b) (pl_db s) = Ok (db, logs) \<Longrightarrow>
    pipeline_step e ords f s (main_took db logs (s\<lparr>pl_batches := xs @ ys\<rparr>))"

inductive_cases pipeline_stepE: "pipeline_step e ords f s s'"

definition idle :: "pipeline \<Rightarrow> bool" where
  "idle s \<longleftrightarrow> pl_todo s = [] \<and> pl_pending s = [] \<and> pl_sending s = [] \<and> pl_batches s = []"

section \<open>Every run is a run of the parts in sequence\<close>

lemma lifecycle_snoc:
  "lifecycle e ords n (ds @ [d]) p =
    and_then (lifecycle e ords n ds p) (\<lambda>(outs, p').
    and_then (lifecycle_step e (ords (n + length ds)) d p') (\<lambda>(out, p''). Ok (outs @ [out], p'')))"
proof (induction ds arbitrary: n p)
  case Nil
  show ?case by (cases "lifecycle_step e (ords n) d p") (auto simp: case_prod_unfold)
next
  case (Cons x ds)
  show ?case
    by (cases "lifecycle_step e (ords n) x p")
      (auto simp: Cons and_then_assoc case_prod_unfold)
qed

lemma main_loop_snoc:
  "main_loop f (evs @ [ev]) db =
    and_then (main_loop f evs db) (\<lambda>(db', logs).
    and_then (main_step (f (length evs)) ev db') (\<lambda>(db'', logs'). Ok (db'', logs @ logs')))"
proof (induction evs arbitrary: f db)
  case Nil
  show ?case by (cases "main_step (f 0) ev db") (auto simp: case_prod_unfold)
next
  case (Cons x evs)
  show ?case by (cases "main_step (f 0) x db") (auto simp: Cons and_then_assoc case_prod_unfold)
qed

definition batches_of :: "main_event list \<Rightarrow> WritebackOp list list" where
  "batches_of evs = concat (map (\<lambda>ev. case ev of Writebacks b \<Rightarrow> [b] | _ \<Rightarrow> []) evs)"

definition errors_of :: "main_event list \<Rightarrow> tracing_error list" where
  "errors_of evs = concat (map (\<lambda>ev. case ev of ProcessingError te \<Rightarrow> [te] | _ \<Rightarrow> []) evs)"

definition complaints_of :: "main_event list \<Rightarrow> string list" where
  "complaints_of evs = concat (map (\<lambda>ev. case ev of WatchingError err \<Rightarrow> [err] | _ \<Rightarrow> []) evs)"

definition complaints :: "watch_event list \<Rightarrow> string list" where
  "complaints evs = concat (map (\<lambda>ev. case ev of SendError err \<Rightarrow> [err] | _ \<Rightarrow> []) evs)"

lemma events_of_simps [simp]:
  "batches_of [] = []" "errors_of [] = []" "complaints_of [] = []"
  "batches_of (evs @ [ev]) = batches_of evs @ (case ev of Writebacks b \<Rightarrow> [b] | _ \<Rightarrow> [])"
  "errors_of (evs @ [ev]) = errors_of evs @ (case ev of ProcessingError te \<Rightarrow> [te] | _ \<Rightarrow> [])"
  "complaints_of (evs @ [ev]) = complaints_of evs @ (case ev of WatchingError err \<Rightarrow> [err] | _ \<Rightarrow> [])"
  by (simp_all add: batches_of_def errors_of_def complaints_of_def)

lemma complaints_simps [simp]:
  "complaints [] = []" "complaints (SendError err # ws) = err # complaints ws"
  "complaints (Send t # ws) = complaints ws" "complaints (Export b # ws) = complaints ws"
  by (simp_all add: complaints_def)

text \<open>What has been read, handled and stored so far, with \<open>outs\<close> the results of the processor's steps and \<open>evs\<close> the
  events the main loop has taken.\<close>

definition accounts ::
    "env \<Rightarrow> (nat \<Rightarrow> nat \<Rightarrow> orders) \<Rightarrow> (nat \<Rightarrow> nat \<Rightarrow> nat \<Rightarrow> fault) \<Rightarrow> watch_event list \<Rightarrow> Processor \<Rightarrow> database \<Rightarrow> pipeline \<Rightarrow>
     step_output list \<Rightarrow> main_event list \<Rightarrow> bool" where
  "accounts e ords f todo p db s outs evs \<longleftrightarrow>
     lifecycle e ords 0 (pl_received s) p = Ok (outs, pl_processor s) \<and>
     main_loop f evs db = Ok (pl_db s, pl_logs s) \<and> length evs = pl_taken s \<and>
     mset (sent_ops todo) = mset (pl_received s) + mset (pl_pending s) + mset (sent_ops (pl_todo s)) \<and>
     mset (concat (map so_writebacks outs)) = mset (batches_of evs) + mset (pl_batches s) \<and>
     concat (map so_errors outs) = errors_of evs @ pl_sending s \<and>
     complaints todo = complaints_of evs @ complaints (pl_todo s)"

lemma accounts_start: "accounts e ords f todo p db (pipeline_start todo p db) [] []"
  by (simp add: accounts_def pipeline_start_def)

lemma accounts_step:
  assumes "accounts e ords f todo p db s outs evs" "pipeline_step e ords f s s'"
  shows "\<exists>outs' evs'. accounts e ords f todo p db s' outs' evs'"
  using assms(2)
proof cases
  case (pass_on t ws)
  with assms(1) have "accounts e ords f todo p db s' outs evs" by (simp add: accounts_def)
  then show ?thesis by blast
next
  case (export_line b ws)
  with assms(1) have "accounts e ords f todo p db s' outs evs" by (simp add: accounts_def)
  then show ?thesis by blast
next
  case (complain err ws db' logs)
  with assms(1) have "accounts e ords f todo p db s' outs (evs @ [WatchingError err])"
    by (simp add: accounts_def main_took_def main_loop_snoc)
  then show ?thesis by blast
next
  case (handle xs t ys out q)
  with assms(1) have "accounts e ords f todo p db s' (outs @ [out]) evs"
    by (simp add: accounts_def lifecycle_snoc)
  then show ?thesis by blast
next
  case (report te tes db' logs)
  with assms(1) have "accounts e ords f todo p db s' outs (evs @ [ProcessingError te])"
    by (simp add: accounts_def main_took_def main_loop_snoc)
  then show ?thesis by blast
next
  case (store xs b ys db' logs)
  with assms(1) have "accounts e ords f todo p db s' outs (evs @ [Writebacks b])"
    by (simp add: accounts_def main_took_def main_loop_snoc)
  then show ?thesis by blast
qed

lemma accounts_run:
  "(pipeline_step e ords f)\<^sup>*\<^sup>* (pipeline_start todo p db) s \<Longrightarrow> \<exists>outs evs. accounts e ords f todo p db s outs evs"
proof (induction rule: rtranclp_induct)
  case base
  show ?case using accounts_start by blast
next
  case (step s s')
  then show ?case using accounts_step by blast
qed


section \<open>Nothing gets stuck\<close>

text \<open>A processor whose modules hold at most \<open>n\<close> rows each.\<close>

definition ready :: "nat \<Rightarrow> Processor \<Rightarrow> bool" where
  "ready n p \<longleftrightarrow> mapping_ok (p_moduleProcessors p) (p_sdkModuleMapping p) \<and>
     (\<forall>m \<in> set (p_moduleProcessors p). size (pending m) \<le> n)"

text \<open>Whatever a module holds, the trace does not make it panic.\<close>

definition harmless :: "env \<Rightarrow> TraceOperation \<Rightarrow> bool" where
  "harmless e d \<longleftrightarrow> (\<forall>m. survives e d m)"

lemma length_trace_errors: "length (concat (map (trace_errors e d) ms)) \<le> length ms"
proof (induction ms)
  case (Cons m ms)
  have "length (trace_errors e d m) \<le> 1" by (auto simp: trace_errors_def split: outcome.split)
  with Cons show ?case by simp
qed simp

lemma ProcessData_ready:
  assumes "ready n p" "harmless e d"
  shows "\<exists>errs p'. ProcessData e d p = Ok (errs, p') \<and> ready (Suc n) p' \<and>
    length errs \<le> length (p_moduleProcessors p) \<and> length (p_moduleProcessors p') = length (p_moduleProcessors p)"
proof -
  let ?ms = "p_moduleProcessors p"
  define ms' where "ms' = map (\<lambda>m. if concerned p d m then after_trace e d m else m) ?ms"
  have run: "ProcessData e d p =
      Ok (concat (map (trace_errors e d) (filter (concerned p d) ?ms)), p\<lparr>p_moduleProcessors := ms'\<rparr>)"
    using ProcessData_spec assms unfolding ms'_def ready_def harmless_def by blast
  have "module_SDKModuleName (after_trace e d m) = module_SDKModuleName m" for m
    using module_process_same(2) [of e m d] by (auto simp: after_trace_def split: outcome.split)
  then have "map module_SDKModuleName ms' = map module_SDKModuleName ?ms" by (simp add: ms'_def)
  from mapping_ok_names [OF this] assms(1) have "mapping_ok ms' (p_sdkModuleMapping p)" by (simp add: ready_def)
  moreover have "\<forall>m \<in> set ms'. size (pending m) \<le> Suc n"
  proof
    fix m' assume "m' \<in> set ms'"
    then obtain m where "m \<in> set ?ms" "m' = after_trace e d m \<or> m' = m" by (auto simp: ms'_def split: if_splits)
    moreover from this have "size (pending m) \<le> n" using assms(1) by (simp add: ready_def)
    ultimately show "size (pending m') \<le> Suc n" using after_trace_size [of e d m] by auto
  qed
  moreover have "length (concat (map (trace_errors e d) (filter (concerned p d) ?ms))) \<le> length ?ms"
    using length_trace_errors [of e d "filter (concerned p d) ?ms"] length_filter_le [of "concerned p d" ?ms] by linarith
  ultimately show ?thesis using run by (simp add: ready_def ms'_def)
qed

definition storable :: "nat \<Rightarrow> WritebackOp list \<Rightarrow> bool" where
  "storable n wb \<longleftrightarrow> (\<forall>wo \<in> set wb. typed_op wo \<and> length (wb_Data wo) \<le> n)"

lemma Flush_ready:
  assumes "\<forall>i j. range_order (ords i j)" "ready n p"
  shows "\<exists>wb p'. Flush ords p = Ok (wb, p') \<and> ready n p' \<and> storable n wb \<and>
    length (p_moduleProcessors p') = length (p_moduleProcessors p)"
proof -
  let ?ms = "p_moduleProcessors p"
  obtain wb where wb: "Flush ords p = Ok (wb, p\<lparr>p_moduleProcessors := flushed ords 0 ?ms\<rparr>)"
    using Flush_spec [OF assms(1)] by blast
  have "pending m = {#}" if "m \<in> set (flushed ords i ms)" for m i ms
    using that by (induction ords i ms rule: flushed.induct) (auto simp: module_flush.flush_clears)
  then have "\<forall>m \<in> set (flushed ords 0 ?ms). size (pending m) \<le> n" by simp
  moreover have "mapping_ok (flushed ords 0 ?ms) (p_sdkModuleMapping p)"
    using mapping_ok_names [OF flushed_keeps(1)] assms(2) by (simp add: ready_def)
  moreover have "storable n wb"
    using Flush_typed [OF assms(1) wb] assms(2) unfolding storable_def ready_def by (meson order_trans)
  ultimately show ?thesis using wb by (simp add: ready_def)
qed

lemma lifecycle_step_ready:
  assumes "\<forall>i j. range_order (ords i j)" "ready n p" "harmless e d"
  shows "\<exists>out p'. lifecycle_step e ords d p = Ok (out, p') \<and> ready (Suc n) p' \<and>
    length (so_errors out) \<le> length (p_moduleProcessors p) \<and> length (so_writebacks out) \<le> 1 \<and>
    (\<forall>wb \<in> set (so_writebacks out). storable n wb) \<and> length (p_moduleProcessors p') = length (p_moduleProcessors p)"
proof (cases "top_BlockHeight d \<noteq> p_lastHeight p \<and> top_BlockHeight d \<noteq> 0")
  case True
  obtain wb q where wb: "Flush ords p = Ok (wb, q)" "ready n q" "storable n wb"
    "length (p_moduleProcessors q) = length (p_moduleProcessors p)" using Flush_ready [OF assms(1,2)] by blast
  define q' where "q' = q\<lparr>p_lastHeight := top_BlockHeight d\<rparr>"
  have "ready n q'" using wb(2) by (simp add: ready_def q'_def)
  from ProcessData_ready [OF this assms(3)] obtain errs p' where p': "ProcessData e d q' = Ok (errs, p')"
    "ready (Suc n) p'" "length errs \<le> length (p_moduleProcessors q')"
    "length (p_moduleProcessors p') = length (p_moduleProcessors q')" by blast
  with True wb show ?thesis by (simp add: lifecycle_step_def q'_def)
next
  case False
  obtain errs p' where "ProcessData e d p = Ok (errs, p')" "ready (Suc n) p'"
    "length errs \<le> length (p_moduleProcessors p)" "length (p_moduleProcessors p') = length (p_moduleProcessors p)"
    using ProcessData_ready [OF assms(2,3)] by blast
  with False show ?thesis by (auto simp: lifecycle_step_def)
qed

text \<open>The invariant: a bound for the rows held, which leaves room for one row for each trace to come.\<close>

definition flowing :: "env \<Rightarrow> pipeline \<Rightarrow> bool" where
  "flowing e s \<longleftrightarrow> db_typed (pl_db s) \<and>
     (\<forall>d \<in> set (pl_pending s) \<union> set (sent_ops (pl_todo s)). harmless e d) \<and>
     (\<exists>n. ready n (pl_processor s) \<and> (\<forall>wb \<in> set (pl_batches s). storable n wb) \<and>
       n + length (pl_pending s) + length (sent_ops (pl_todo s)) < 2 ^ 40)"

text \<open>The steps left: at most one for each message, and for each trace one to pass it on, one to handle it, one for
  its batch and one for each module's error.\<close>

definition work :: "pipeline \<Rightarrow> nat" where
  "work s = (let k = length (p_moduleProcessors (pl_processor s))
     in (k + 3) * length (pl_todo s) + (k + 2) * length (pl_pending s) + length (pl_sending s) + length (pl_batches s))"

lemma storable_mono: "storable n wb \<Longrightarrow> n \<le> n' \<Longrightarrow> storable n' wb"
  by (auto simp: storable_def)

lemma main_step_stores:
  assumes "db_typed db" "storable n wb" "n < 2 ^ 40"
  shows "\<exists>db' logs. main_step f (Writebacks wb) db = Ok (db', logs) \<and> db_typed db'"
  using typed_write_batch [of wb db f] assms by (fastforce simp: main_step_def storable_def)

lemma flowing_step:
  assumes ords: "\<forall>n i j. range_order (ords n i j)" and flow: "flowing e s" and step: "pipeline_step e ords f s s'"
  shows "flowing e s' \<and> work s' < work s"
proof -
  obtain n where n: "ready n (pl_processor s)" "\<forall>wb \<in> set (pl_batches s). storable n wb"
    "n + length (pl_pending s) + length (sent_ops (pl_todo s)) < 2 ^ 40" using flow by (auto simp: flowing_def)
  from step show ?thesis
  proof cases
    case (pass_on t ws)
    with flow n show ?thesis by (auto simp: flowing_def work_def Let_def algebra_simps)
  next
    case (export_line b ws)
    with flow n show ?thesis by (auto simp: flowing_def work_def Let_def)
  next
    case (complain err ws db' logs)
    with flow n show ?thesis by (auto simp: flowing_def work_def Let_def main_took_def main_step_def)
  next
    case (handle xs t ys out q)
    have safe: "harmless e t" using flow handle by (simp add: flowing_def)
    have ord: "\<forall>i j. range_order (ords (length (pl_received s)) i j)" using ords by blast
    have q: "ready (Suc n) q" "length (so_errors out) \<le> length (p_moduleProcessors (pl_processor s))"
      "length (so_writebacks out) \<le> 1" "\<forall>wb \<in> set (so_writebacks out). storable n wb"
      "length (p_moduleProcessors q) = length (p_moduleProcessors (pl_processor s))"
      using lifecycle_step_ready [where ords = "ords (length (pl_received s))", OF ord n(1) safe] handle(4) by auto
    have "flowing e s'"
      unfolding flowing_def
    proof (intro conjI exI [of _ "Suc n"])
      show "\<forall>wb \<in> set (pl_batches s'). storable (Suc n) wb"
        using handle n(2) q(4) storable_mono [of n _ "Suc n"] by auto
    qed (use handle flow n q in \<open>auto simp: flowing_def\<close>)
    moreover have "work s' < work s" using handle q by (simp add: work_def Let_def)
    ultimately show ?thesis ..
  next
    case (report te tes db' logs)
    with flow n show ?thesis by (auto simp: flowing_def work_def Let_def main_took_def main_step_def)
  next
    case (store xs b ys db' logs)
    have "db_typed db'" using main_step_stores [of "pl_db s" n b "f (pl_taken s)"] flow n store by (auto simp: flowing_def)
    with flow n store show ?thesis by (auto simp: flowing_def work_def Let_def main_took_def)
  qed
qed

lemma flowing_moves:
  assumes ords: "\<forall>n i j. range_order (ords n i j)" and flow: "flowing e s" and busy: "\<not> idle s"
  shows "\<exists>s'. pipeline_step e ords f s s'"
proof -
  obtain n where n: "ready n (pl_processor s)" "\<forall>wb \<in> set (pl_batches s). storable n wb"
    "n + length (pl_pending s) + length (sent_ops (pl_todo s)) < 2 ^ 40" using flow by (auto simp: flowing_def)
  consider te tes where "pl_sending s = te # tes" | b bs where "pl_batches s = b # bs"
    | t ts where "pl_sending s = []" "pl_pending s = t # ts" | ev evs where "pl_todo s = ev # evs"
    using busy unfolding idle_def by (metis list.exhaust)
  then show ?thesis
  proof cases
    case (1 te tes)
    then show ?thesis using report [OF 1, of f] by (auto simp: main_step_def)
  next
    case (2 b bs)
    then obtain db logs where "main_step (f (pl_taken s)) (Writebacks b) (pl_db s) = Ok (db, logs)"
      using main_step_stores [of "pl_db s" n b "f (pl_taken s)"] flow n by (auto simp: flowing_def)
    then show ?thesis using store [of s "[]" b bs f] 2 by auto
  next
    case (3 t ts)
    have "harmless e t" using flow 3 by (simp add: flowing_def)
    moreover have ord: "\<forall>i j. range_order (ords (length (pl_received s)) i j)" using ords by blast
    ultimately obtain out p where "lifecycle_step e (ords (length (pl_received s))) t (pl_processor s) = Ok (out, p)"
      using lifecycle_step_ready [where ords = "ords (length (pl_received s))", OF ord n(1)] by blast
    from handle [where xs = "[]" and e = e and ords = ords and f = f, OF 3(1) _ this] 3(2) show ?thesis by auto
  next
    case (4 ev evs)
    then show ?thesis
      using pass_on [of s _ evs e ords f] export_line [of s _ evs e ords f] complain [of s _ evs f]
      by (cases ev) (fastforce simp: main_step_def)+
  qed
qed

lemma flowing_run:
  assumes "\<forall>n i j. range_order (ords n i j)" "flowing e s" "(pipeline_step e ords f ^^ n) s s'"
  shows "flowing e s' \<and> n + work s' \<le> work s"
  using assms(3)
proof (induction n arbitrary: s')
  case 0
  with assms(2) show ?case by simp
next
  case (Suc n)
  then obtain s1 where "(pipeline_step e ords f ^^ n) s s1" "pipeline_step e ords f s1 s'" by auto
  with Suc.IH [of s1] flowing_step [OF assms(1), of e s1 f s'] show ?case by auto
qed

section \<open>A run that takes the traces in order\<close>

text \<open>The main loop has taken all errors of the processor.\<close>

definition reported :: "pipeline \<Rightarrow> pipeline" where
  "reported s = s\<lparr>pl_sending := [], pl_taken := pl_taken s + length (pl_sending s),
     pl_logs := pl_logs s @ map LogProcessing (pl_sending s)\<rparr>"

lemma report_all: "(pipeline_step e ords f)\<^sup>*\<^sup>* s (reported s)"
proof (induction "pl_sending s" arbitrary: s)
  case Nil
  then have "reported s = s" by (cases s) (simp add: reported_def)
  then show ?case by simp
next
  case (Cons te tes)
  let ?s = "main_took (pl_db s) [LogProcessing te] (s\<lparr>pl_sending := tes\<rparr>)"
  have "pipeline_step e ords f s ?s"
    by (rule report [OF Cons(2) [symmetric]]) (simp add: main_step_def)
  moreover have "(pipeline_step e ords f)\<^sup>*\<^sup>* ?s (reported ?s)"
    by (rule Cons(1)) (simp add: main_took_def)
  moreover have "reported ?s = reported s"
    by (simp add: main_took_def reported_def Cons(2) [symmetric])
  ultimately show ?case by (metis converse_rtranclp_into_rtranclp)
qed

definition resting :: "TraceOperation list \<Rightarrow> TraceOperation list \<Rightarrow> pipeline \<Rightarrow> bool" where
  "resting us ds s \<longleftrightarrow> pl_todo s = map Send ds \<and> pl_received s = us \<and> pl_pending s = [] \<and> pl_sending s = [] \<and>
     pl_batches s = []"

lemma one_in_order:
  assumes ords: "\<forall>n i j. range_order (ords n i j)" and flow: "flowing e s" and rest: "resting us (d # ds) s"
  shows "\<exists>s'. (pipeline_step e ords f)\<^sup>*\<^sup>* s s' \<and> flowing e s' \<and> resting (us @ [d]) ds s'"
proof -
  have keeps: "flowing e s'" if "(pipeline_step e ords f)\<^sup>*\<^sup>* s s'" for s'
    using that by (induction rule: rtranclp_induct) (use flow flowing_step [OF ords] in blast)+
  define s1 where "s1 = s\<lparr>pl_todo := map Send ds, pl_pending := pl_pending s @ [d]\<rparr>"
  have step1: "pipeline_step e ords f s s1"
    unfolding s1_def by (rule pass_on) (use rest in \<open>simp add: resting_def\<close>)
  then have "flowing e s1" using flowing_step [OF ords flow] by blast
  then obtain n where n: "ready n (pl_processor s1)" "harmless e d" by (auto simp: flowing_def s1_def)
  have ord: "\<forall>i j. range_order (ords (length (pl_received s1)) i j)" using ords by blast
  obtain out p where out: "lifecycle_step e (ords (length (pl_received s1))) d (pl_processor s1) = Ok (out, p)"
    "length (so_writebacks out) \<le> 1"
    using lifecycle_step_ready [where ords = "ords (length (pl_received s1))", OF ord n] by blast
  define s2 where "s2 = s1\<lparr>pl_pending := [] @ [], pl_received := pl_received s1 @ [d], pl_processor := p,
    pl_sending := so_errors out, pl_batches := pl_batches s1 @ so_writebacks out\<rparr>"
  have step2: "pipeline_step e ords f s1 s2"
    unfolding s2_def by (rule handle [where e = e and ords = ords and f = f, OF _ _ out(1)]) (use rest in \<open>simp_all add: resting_def s1_def\<close>)
  define s3 where "s3 = reported s2"
  have run: "(pipeline_step e ords f)\<^sup>*\<^sup>* s s3"
    using step1 step2 report_all [of e ords f s2] unfolding s3_def by (meson converse_rtranclp_into_rtranclp)
  have s3: "pl_todo s3 = map Send ds" "pl_received s3 = us @ [d]" "pl_pending s3 = []" "pl_sending s3 = []"
    "pl_batches s3 = so_writebacks out"
    using rest by (simp_all add: s3_def s2_def s1_def reported_def resting_def)
  show ?thesis
  proof (cases "so_writebacks out")
    case Nil
    with run keeps s3 show ?thesis by (auto simp: resting_def)
  next
    case (Cons b bs)
    with out(2) have b: "so_writebacks out = [b]" by simp
    from keeps [OF run] obtain n where "db_typed (pl_db s3)" "storable n b" "n < 2 ^ 40"
      by (auto simp: flowing_def s3 b)
    then obtain db logs where db: "main_step (f (pl_taken s3)) (Writebacks b) (pl_db s3) = Ok (db, logs)"
      using main_step_stores by blast
    define s4 where "s4 = main_took db logs (s3\<lparr>pl_batches := [] @ []\<rparr>)"
    have "pipeline_step e ords f s3 s4"
      unfolding s4_def by (rule store [where s = s3 and f = f, OF _ db]) (simp add: s3 b)
    with run have "(pipeline_step e ords f)\<^sup>*\<^sup>* s s4" by simp
    moreover have "resting (us @ [d]) ds s4" using s3 by (simp add: s4_def main_took_def resting_def)
    ultimately show ?thesis using keeps by blast
  qed
qed

lemma run_in_order:
  assumes "\<forall>n i j. range_order (ords n i j)"
  shows "flowing e s \<Longrightarrow> resting us ds s \<Longrightarrow>
    \<exists>s'. (pipeline_step e ords f)\<^sup>*\<^sup>* s s' \<and> idle s' \<and> pl_received s' = us @ ds"
proof (induction ds arbitrary: s us)
  case Nil
  then show ?case by (intro exI [of _ s]) (simp add: idle_def resting_def)
next
  case (Cons d ds)
  obtain s1 where s1: "(pipeline_step e ords f)\<^sup>*\<^sup>* s s1" "flowing e s1" "resting (us @ [d]) ds s1"
    using one_in_order [OF assms Cons.prems] by blast
  from Cons.IH [OF s1(2,3)] s1(1) show ?case by (auto intro: rtranclp_trans)
qed

section \<open>The tables at the end of a run\<close>

lemma main_loop_batches:
  assumes "main_loop never evs db = Ok (db', logs)"
  shows "\<exists>logs'. main_loop never (map Writebacks (batches_of evs)) db = Ok (db', logs')"
  using assms
proof (induction evs arbitrary: db' logs rule: rev_induct)
  case (snoc ev evs)
  then obtain db1 logs1 logs2 where 1: "main_loop never evs db = Ok (db1, logs1)" "main_step no_faults ev db1 = Ok (db', logs2)"
    by (auto simp: main_loop_snoc and_then_Ok)
  from snoc.IH [OF 1(1)] obtain logs' where "main_loop never (map Writebacks (batches_of evs)) db = Ok (db1, logs')" ..
  with 1(2) show ?case
    by (cases ev) (auto simp: main_step_def main_loop_snoc simp del: main_loop.simps)
qed simp

section \<open>Properties\<close>

text \<open>A run of three traces, for the examples.\<close>

abbreviation sample_start :: pipeline where
  "sample_start \<equiv> pipeline_start (map Send sample_run_traces) fresh_processor empty_db"

lemma sample_traces: "d \<in> set sample_run_traces \<Longrightarrow> vis (top_Key d) = [2, 1, 7] \<and> top_Operation d = ''write''"
  by (auto simp: sample_run_traces_def next_trace_def sample_trace_def)

lemma sample_harmless: "d \<in> set sample_run_traces \<Longrightarrow> harmless sample_env d"
  unfolding harmless_def
proof
  fix m assume "d \<in> set sample_run_traces"
  moreover have "\<not> is_ok (SplitCW20BalanceKey dec [2, 1, 7])" "\<not> is_ok (SplitCW20TokenInfoKey [2, 1, 7])" for dec
    by (auto simp: is_ok_iff dest: SplitCW20BalanceKey_length SplitCW20TokenInfoKey_length)
  ultimately show "survives sample_env d m"
    using sample_traces [of d]
    by (cases m) (auto simp: survives_def owns_def sample_env_def sample_handler_def process_defs and_then_Panic Let_def
        cw20_balances_OwnsKey_def cw20_token_infos_OwnsKey_def)
qed

lemma empty_db_typed: "db_typed empty_db"
  by (simp add: db_typed_def typed_table_def empty_db_def)

lemma fresh_mapping: "mapping_ok (p_moduleProcessors fresh_processor) (p_sdkModuleMapping fresh_processor)"
  using fresh_ready by (simp add: ledger_ready_def)

lemma fresh_pending: "m \<in> set (p_moduleProcessors fresh_processor) \<Longrightarrow> pending m = {#}"
  by (auto simp: fresh_processor_def)

lemma sample_flowing: "flowing sample_env sample_start"
  unfolding flowing_def pipeline_start_def
proof (intro conjI exI [of _ 0])
  show "ready 0 (pl_processor \<lparr>pl_todo = map Send sample_run_traces, pl_pending = [], pl_received = [],
      pl_processor = fresh_processor, pl_sending = [], pl_batches = [], pl_db = empty_db, pl_taken = 0, pl_logs = []\<rparr>)"
    using fresh_mapping fresh_pending by (simp add: ready_def)
qed (use sample_harmless empty_db_typed in \<open>auto simp: sample_run_traces_def\<close>)

lemma sample_pipeline:
  "\<exists>s. (pipeline_step sample_env (\<lambda>_ _ _. forward) never)\<^sup>*\<^sup>* sample_start s \<and> idle s \<and> pl_received s = sample_run_traces"
  using run_in_order [OF _ sample_flowing, of "\<lambda>_ _ _. forward" "[]" sample_run_traces]
  by (simp add: resting_def pipeline_start_def)

text \<open>C2. Every run of the goroutines together, however they are scheduled, does what its parts do in
  sequence. There is an order of the traces in which the processor alone would be in the state it is in, and an
  order of its batches and of the errors in which the main loop alone would have made the database and the log
  what they are. No trace, batch, error or complaint of the watcher is lost or taken twice: each has been taken
  or is still on its way, errors and complaints in the order in which they came up.\<close>

theorem pipeline_refined:
  assumes "(pipeline_step e ords f)\<^sup>*\<^sup>* (pipeline_start todo p db) s"
  shows "\<exists>outs evs.
    lifecycle e ords 0 (pl_received s) p = Ok (outs, pl_processor s) \<and>
    main_loop f evs db = Ok (pl_db s, pl_logs s) \<and>
    mset (sent_ops todo) = mset (pl_received s) + mset (pl_pending s) + mset (sent_ops (pl_todo s)) \<and>
    mset (concat (map so_writebacks outs)) = mset (batches_of evs) + mset (pl_batches s) \<and>
    concat (map so_errors outs) = errors_of evs @ pl_sending s \<and>
    complaints todo = complaints_of evs @ complaints (pl_todo s)"
  using accounts_run [OF assms] unfolding accounts_def by blast

lemma pipeline_refined_witness:
  "\<exists>s outs evs. idle s \<and> pl_received s = sample_run_traces \<and>
    lifecycle sample_env (\<lambda>_ _ _. forward) 0 sample_run_traces fresh_processor = Ok (outs, pl_processor s) \<and>
    main_loop never evs empty_db = Ok (pl_db s, pl_logs s) \<and>
    mset (concat (map so_writebacks outs)) = mset (batches_of evs)"
proof -
  obtain s where s: "(pipeline_step sample_env (\<lambda>_ _ _. forward) never)\<^sup>*\<^sup>* sample_start s" "idle s"
    "pl_received s = sample_run_traces" using sample_pipeline by blast
  from pipeline_refined [OF s(1)] s(2,3) show ?thesis by (auto simp: idle_def)
qed

text \<open>C3. The program never gets stuck: as long as no module panics on a trace, from any state that can be reached
  something can move until every trace is handled and every batch stored, and this happens after at
  most as many steps as there is work at the start, whatever the scheduler does.\<close>

theorem pipeline_drains:
  assumes "\<forall>n i j. range_order (ords n i j)" "db_typed db"
    and "mapping_ok (p_moduleProcessors p) (p_sdkModuleMapping p)"
    and "\<forall>m \<in> set (p_moduleProcessors p). size (pending m) + length (sent_ops todo) < 2 ^ 40"
    and "length (sent_ops todo) < 2 ^ 40" "\<forall>d \<in> set (sent_ops todo). harmless e d"
    and "(pipeline_step e ords f ^^ n) (pipeline_start todo p db) s"
  shows "n + work s \<le> (length (p_moduleProcessors p) + 3) * length todo \<and>
    (idle s \<or> (\<exists>s'. pipeline_step e ords f s s'))"
proof -
  define k where "k = Max (insert 0 (set (map (\<lambda>m. size (pending m)) (p_moduleProcessors p))))"
  have "ready k p" using assms(3) unfolding ready_def k_def by (auto intro: Max_ge)
  moreover have "k \<in> insert 0 (set (map (\<lambda>m. size (pending m)) (p_moduleProcessors p)))"
    unfolding k_def by (rule Max_in) simp_all
  then have "k + length (sent_ops todo) < 2 ^ 40" using assms(4,5) by auto
  ultimately have "flowing e (pipeline_start todo p db)"
    using assms(2,6) unfolding flowing_def pipeline_start_def by auto
  from flowing_run [OF assms(1) this assms(7)] have "flowing e s" "n + work s \<le> work (pipeline_start todo p db)" by simp_all
  with flowing_moves [OF assms(1)] show ?thesis by (auto simp: work_def pipeline_start_def)
qed

lemma pipeline_drains_witness:
  "\<exists>n s. (pipeline_step sample_env (\<lambda>_ _ _. forward) never ^^ n) sample_start s \<and> idle s \<and> n \<le> 15"
proof -
  obtain s n where s: "(pipeline_step sample_env (\<lambda>_ _ _. forward) never ^^ n) sample_start s" "idle s"
    using sample_pipeline rtranclp_imp_relpowp by metis
  have "n + work s \<le> (length (p_moduleProcessors fresh_processor) + 3) * length (map Send sample_run_traces) \<and>
      (idle s \<or> (\<exists>s'. pipeline_step sample_env (\<lambda>_ _ _. forward) never s s'))"
    by (rule pipeline_drains [OF _ empty_db_typed fresh_mapping _ _ _ s(1)])
      (auto simp: fresh_pending sample_harmless, simp_all add: sample_run_traces_def)
  then have "n \<le> 15" by (simp add: fresh_processor_def sample_run_traces_def)
  with s show ?thesis by blast
qed

text \<open>C1. End to end: when everything is handled and stored, no statement failed for a reason outside the program and the
  scheduler let the traces reach the processor with non-falling heights, the table of a module that keeps a ledger (it
  only writes, and is not the one of token infos) shows under a key the row of the last trace of a complete block that
  carried the key, and nothing else. At first (\<open>ledger_ready\<close>) upserts are enabled, the modules are distinct and correctly
  mapped, the table and the cache of the module are empty, and the rows pending in a module and the traces to come are
  fewer than \<open>2 ^ 40\<close>; all rows of the key carry the height of their trace.\<close>

theorem pipeline_ledger:
  assumes "\<forall>n i j. range_order (ords n i j)"
    and "(pipeline_step e ords never)\<^sup>*\<^sup>* (pipeline_start todo p db) s" "idle s"
    and "ledger_ready j (length (sent_ops todo)) p" "pending (p_moduleProcessors p ! j) = {#}"
    and "rising (p_lastHeight p) (pl_received s)"
    and "\<forall>d \<in> set (sent_ops todo). \<forall>r. ledger_entry e p j d = Some (k, r) \<longrightarrow> entry_height r = top_BlockHeight d"
    and "module_table (p_moduleProcessors p ! j) = (t, cfg)" "db t = Map.empty"
  shows "mset (pl_received s) = mset (sent_ops todo) \<and>
    pl_db s t k = map_option (new_row cfg) (latest (ledger_entry e p j)
      (filter (\<lambda>d. top_BlockHeight d < p_lastHeight (pl_processor s)) (pl_received s)) Map.empty k)"
proof -
  obtain outs evs where acc: "accounts e ords never todo p db s outs evs" using accounts_run [OF assms(2)] by blast
  then have all: "mset (pl_received s) = mset (sent_ops todo)"
    and run: "lifecycle e ords 0 (pl_received s) p = Ok (outs, pl_processor s)"
    and arrival: "mset (batches_of evs) = mset (concat (map so_writebacks outs))"
    and main: "main_loop never evs db = Ok (pl_db s, pl_logs s)"
    using assms(3) by (simp_all add: accounts_def idle_def)
  have ready: "ledger_ready j (length (pl_received s)) p" using assms(4) mset_eq_length [OF all] by simp
  have faithful: "\<forall>d \<in> set (pl_received s). \<forall>r. ledger_entry e p j d = Some (k, r) \<longrightarrow> entry_height r = top_BlockHeight d"
    using assms(7) mset_eq_setD [OF all] by simp
  obtain db' logs where "main_loop never (map Writebacks (batches_of evs)) db = Ok (db', logs)"
    "db' t k = map_option (new_row cfg) (latest (ledger_entry e p j)
      (filter (\<lambda>d. top_BlockHeight d < p_lastHeight (pl_processor s)) (pl_received s)) Map.empty k)"
    using ledger_database [where ords = ords and db = db, OF assms(1) run ready assms(5,6) faithful arrival assms(8,9)] by blast
  with main_loop_batches [OF main] all show ?thesis by auto
qed

lemma pipeline_ledger_witness:
  "\<exists>s. idle s \<and> pl_db s ''tracelistener.balances'' [Text ''cosmos-hub'', Text ''aa'', Text ''uatom''] =
     map_option (new_row balances_config) (latest (ledger_entry sample_env fresh_processor 0)
       (filter (\<lambda>d. top_BlockHeight d < p_lastHeight (pl_processor s)) sample_run_traces) Map.empty
       [Text ''cosmos-hub'', Text ''aa'', Text ''uatom''])"
proof -
  obtain s where s: "(pipeline_step sample_env (\<lambda>_ _ _. forward) never)\<^sup>*\<^sup>* sample_start s" "idle s"
    "pl_received s = sample_run_traces" using sample_pipeline by blast
  have "ledger_ready 0 (length (sent_ops (map Send sample_run_traces))) fresh_processor"
    using fresh_ready by (simp add: sample_run_traces_def eval_nat_numeral)
  moreover have "pending (p_moduleProcessors fresh_processor ! 0) = {#}" by (simp add: fresh_processor_def)
  moreover have "rising (p_lastHeight fresh_processor) (pl_received s)"
    by (simp add: s(3) rising_def fresh_processor_def sample_run_traces_def next_trace_def sample_trace_def)
  moreover have "module_table (p_moduleProcessors fresh_processor ! 0) = (''tracelistener.balances'', balances_config)"
    by (simp add: fresh_processor_def module_table_def)
  moreover have "empty_db ''tracelistener.balances'' = Map.empty" by (simp add: empty_db_def)
  moreover have "\<forall>n i j. range_order ((\<lambda>_ _ _. forward) (n :: nat) (i :: nat) (j :: nat))" by simp
  ultimately show ?thesis
    using pipeline_ledger [OF _ s(1,2), of 0 "[Text ''cosmos-hub'', Text ''aa'', Text ''uatom'']"
        "''tracelistener.balances''" balances_config] sample_faithful s(2,3) by auto
qed

end
