(* ===== verification/Staking_Tables.thy ===== *)
theory Staking_Tables
  imports Ledger
begin

text \<open>
  What the batches of the three staking modules do to their tables: deletions come after the writes of
  their block and are not guarded by a height; rows of unbonding delegations carry no height; the
  deletion of a validator names it by another encoding of its address than its row.
\<close>

section \<open>Deletions\<close>

definition live :: "table_state \<Rightarrow> sqlval list \<Rightarrow> bool" where
  "live T k \<longleftrightarrow> (\<exists>r. T k = Some r \<and> r ''delete_height'' = Some Null)"

lemma live_delete: "live (delete_row cfg e T) k \<longleftrightarrow> live T k \<and> k \<noteq> unique_key cfg e"
  by (auto simp: live_def delete_row_eq split: option.splits if_splits)

lemma live_deletes: "live (fold (delete_row cfg) es T) k \<longleftrightarrow> live T k \<and> k \<notin> unique_key cfg ` set es"
  by (induction es arbitrary: T) (auto simp: live_delete)

lemma effect_table:
  "module_effect cn m db (fst (module_table m)) =
    fold (delete_row (snd (module_table m))) (map (WithChainName cn) (removals m))
      (fold (upsert_row (snd (module_table m))) (map (WithChainName cn) (upserts m)) (db (fst (module_table m))))"
  by (simp add: module_effect_def Let_def)

text \<open>A deletion applies whatever the height of the row: one that arrives late deletes a younger row.\<close>

lemma late_deletion:
  assumes "T (unique_key cfg e) = Some r" "r ''delete_height'' = Some Null"
  shows "delete_row cfg e T (unique_key cfg e) = Some (mark_deleted (entry_height e) r)"
  using assms by (simp add: delete_row_eq)

section \<open>Delegations\<close>

text \<open>A delegation removed and made again within one block.\<close>

lemma delegation_remade:
  assumes "h_Delegations h d1 = Ok r1" "is_delete d1" "h_Delegations h d2 = Ok r2" "\<not> is_delete d2"
    and "del_Validator r2 = del_Validator r1" "del_Delegator r2 = del_Delegator r1"
  shows "\<exists>b. run_traces (delegations_Process h) \<lparr>dep_insertHeightCache = [], dep_deleteHeightCache = []\<rparr> [d1, d2] = Ok b \<and>
    \<not> live (module_effect cn (MDelegations b) db ''tracelistener.delegations'')
        [Text cn, Text (del_Delegator r2), Text (del_Validator r2)]"
proof -
  define b where "b = \<lparr>dep_insertHeightCache = [((del_Validator r2, del_Delegator r2), r2)],
    dep_deleteHeightCache = [((del_Validator r1, del_Delegator r1), r1)]\<rparr>"
  have "run_traces (delegations_Process h) \<lparr>dep_insertHeightCache = [], dep_deleteHeightCache = []\<rparr> [d1, d2] = Ok b"
    using assms by (simp add: delegations_Process_def Let_def gomap_set_def b_def)
  moreover have "\<not> live (module_effect cn (MDelegations b) db ''tracelistener.delegations'')
        [Text cn, Text (del_Delegator r2), Text (del_Validator r2)]"
    using effect_table [of cn "MDelegations b" db] assms(5,6)
    by (simp add: module_table_def live_delete b_def unique_keys)
  ultimately show ?thesis by blast
qed

section \<open>Unbonding delegations\<close>

definition heightless :: "unbondingDelegationsProcessor \<Rightarrow> bool" where
  "heightless b \<longleftrightarrow> cache_of 0 (udp_insertHeightCache b) \<and> cache_of 0 (udp_deleteHeightCache b)"

lemma heightless_process:
  assumes "unbonding_delegations_Process h b d = Ok b'" "heightless b"
  shows "heightless b'"
  using assms
  by (auto simp: unbonding_delegations_Process_def and_then_Ok Let_def heightless_def row_of_def
      UnbondingDelegationRow_at_def intro!: cache_of_set split: if_splits)

lemma heightless_run:
  "run_traces (unbonding_delegations_Process h) b ds = Ok b' \<Longrightarrow> heightless b \<Longrightarrow> heightless b'"
  by (induction ds arbitrary: b) (auto split: outcome.splits dest: heightless_process)

lemma upsert_heightless:
  assumes "table_ok cfg T" "entry_height e = 0" "T k = Some r"
  shows "upsert_row cfg e T k = Some r"
  using assms(2,3) unfolding upsert_row_eq [OF assms(1)] by (auto split: option.splits)

lemma upserts_heightless:
  "table_ok cfg T \<Longrightarrow> \<forall>e \<in> set es. entry_height e = 0 \<and> bound e (InsertColumns cfg) \<Longrightarrow> T k = Some r \<Longrightarrow>
    fold (upsert_row cfg) es T k = Some r"
  by (induction es arbitrary: T) (simp_all add: upsert_heightless upsert_store.invar_put)

lemma delete_heightless:
  "T k \<in> {Some r, Some (mark_deleted 0 r)} \<Longrightarrow> entry_height e = 0 \<Longrightarrow>
    delete_row cfg e T k \<in> {Some r, Some (mark_deleted 0 r)}"
  by (auto simp: delete_row_eq split: option.splits)

lemma deletes_heightless:
  "T k \<in> {Some r, Some (mark_deleted 0 r)} \<Longrightarrow> \<forall>e \<in> set es. entry_height e = 0 \<Longrightarrow>
    fold (delete_row cfg) es T k \<in> {Some r, Some (mark_deleted 0 r)}"
proof (induction es arbitrary: T)
  case (Cons e es)
  show ?case unfolding fold.simps comp_apply
    by (rule Cons.IH) (use Cons.prems delete_heightless in auto)
qed simp

section \<open>Validators\<close>

lemma hex_encode_no_v: "CHR ''v'' \<notin> set (hex_encode bs)"
  using hex_encode_chars [of bs] by (auto simp: hextable_def)

lemma validator_delete_key:
  assumes "Validators44 s d = Ok r" "is_delete d"
  shows "\<exists>bs. val_OperatorAddress r = hex_encode bs"
  using assms by (auto simp: Validators44_def and_then_Ok)

section \<open>Properties\<close>

text \<open>C9. Deletions win over the writes of their block. Let the batch of a flush with upserts enabled reach the main
  loop, all statements arriving at the database. In the table of a module whose cached rows stand under their own
  keys and whose name no other module has, a row is live afterwards exactly when the module's
  writes alone leave it live and the module did not hold it for deletion, whatever the
  other modules and their statements do. So a row that is deleted and written again in one block ends up
  deleted, in whichever order the two traces came.\<close>

theorem flush_deletes:
  assumes "p_useDBUpsert p" "\<forall>i j. range_order (ords i j)" "\<forall>m \<in> set (p_moduleProcessors p). small m"
    and "distinct (map module_ModuleName (p_moduleProcessors p))" "m \<in> set (p_moduleProcessors p)" "well_keyed m"
    and "module_table m = (t, cfg)"
  shows "\<exists>wb p' db' logs. Flush ords p = Ok (wb, p') \<and> main_step no_faults (Writebacks wb) db = Ok (db', logs) \<and>
    (live (db' t) k \<longleftrightarrow>
      live (fold (upsert_row cfg) (map (WithChainName (p_chainName p)) (upserts m)) (db t)) k \<and>
      k \<notin> unique_key cfg ` WithChainName (p_chainName p) ` set (removals m))"
proof -
  have "fst (module_table m') = t \<longrightarrow> m' = m" if "m' \<in> set (p_moduleProcessors p)" for m'
    using assms(4,5,7) that tables_apart [of m' m] by (auto simp: same_kind_def distinct_map inj_on_def)
  then have "\<forall>m' \<in> set (p_moduleProcessors p). small m' \<and> (fst (module_table m') = t \<longrightarrow> well_keyed m')"
    using assms(3,6) by blast
  from flush_modules_affects [OF assms(1,2) this, of 0] obtain wb where
    wb: "Flush ords p = Ok (wb, p\<lparr>p_moduleProcessors := flushed ords 0 (p_moduleProcessors p)\<rparr>)"
    and "affects t (fold (table_effect (p_chainName p) t) (p_moduleProcessors p)) wb"
    by (auto simp: Flush_def)
  then obtain db' logs where main: "write_batch no_faults wb db = Ok (db', logs)"
    "db' t = fold (table_effect (p_chainName p) t) (p_moduleProcessors p) (db t)"
    unfolding affects_def by blast
  have "db' t = fold (delete_row cfg) (map (WithChainName (p_chainName p)) (removals m))
      (fold (upsert_row cfg) (map (WithChainName (p_chainName p)) (upserts m)) (db t))"
    using main(2) fold_table_effect_one [OF assms(4,5), of t] assms(7)
    by (simp add: table_effect_def module_effect_def)
  then have "live (db' t) k \<longleftrightarrow>
      live (fold (upsert_row cfg) (map (WithChainName (p_chainName p)) (upserts m)) (db t)) k \<and>
      k \<notin> unique_key cfg ` WithChainName (p_chainName p) ` set (removals m)"
    by (simp add: live_deletes)
  with wb main(1) show ?thesis by (auto simp: main_step_def)
qed

text \<open>A delegation that is in both caches.\<close>

definition remade :: module where
  "remade = MDelegations
     \<lparr>dep_insertHeightCache = [((''bb'', ''aa''), DelegationRow_at 4 ''aa'' ''bb'' ''1'')],
      dep_deleteHeightCache = [((''bb'', ''aa''), DelegationRow_at 4 ''aa'' ''bb'' [])]\<rparr>"

definition remaking_processor :: Processor where
  "remaking_processor = sample_processor\<lparr>p_moduleProcessors := [remade]\<rparr>"

theorem flush_deletes_witness:
  "\<exists>wb p' db' logs. Flush (\<lambda>_ _. forward) remaking_processor = Ok (wb, p') \<and>
    main_step no_faults (Writebacks wb) empty_db = Ok (db', logs) \<and>
    \<not> live (db' ''tracelistener.delegations'') [Text ''cosmos-hub'', Text ''aa'', Text ''bb'']"
proof -
  have p: "p_useDBUpsert remaking_processor" "p_moduleProcessors remaking_processor = [remade]"
    "p_chainName remaking_processor = ''cosmos-hub''"
    by (simp_all add: remaking_processor_def sample_processor_def)
  have "\<forall>m \<in> set (p_moduleProcessors remaking_processor). small m" by (simp add: p small_def remade_def)
  moreover have "distinct (map module_ModuleName (p_moduleProcessors remaking_processor))"
    "remade \<in> set (p_moduleProcessors remaking_processor)" by (simp_all add: p)
  moreover have "well_keyed remade" by (simp add: remade_def keyed_def gomap_ok_def row_at_defs)
  moreover have table: "module_table remade = (''tracelistener.delegations'', delegations_config)"
    by (simp add: remade_def module_table_def)
  ultimately have "\<exists>wb p' db' logs. Flush (\<lambda>_ _. forward) remaking_processor = Ok (wb, p') \<and>
      main_step no_faults (Writebacks wb) empty_db = Ok (db', logs) \<and>
      (live (db' ''tracelistener.delegations'') [Text ''cosmos-hub'', Text ''aa'', Text ''bb''] \<longleftrightarrow>
        live (fold (upsert_row delegations_config) (map (WithChainName (p_chainName remaking_processor)) (upserts remade))
          (empty_db ''tracelistener.delegations'')) [Text ''cosmos-hub'', Text ''aa'', Text ''bb''] \<and>
        [Text ''cosmos-hub'', Text ''aa'', Text ''bb''] \<notin>
          unique_key delegations_config ` WithChainName (p_chainName remaking_processor) ` set (removals remade))"
    using p(1) by (intro flush_deletes) simp_all
  moreover have "[Text ''cosmos-hub'', Text ''aa'', Text ''bb''] \<in>
      unique_key delegations_config ` WithChainName (p_chainName remaking_processor) ` set (removals remade)"
    by (simp add: p remade_def unique_keys row_at_defs)
  ultimately show ?thesis by blast
qed

text \<open>C10. A row of an unbonding delegation never changes once it is in the table, except for being marked
  as deleted at height 0: the module caches its rows without a height, so that the guard of the upsert
  drops every later write, the new entries of the delegation included.\<close>

theorem unbonding_rows_stuck:
  assumes "run_traces (unbonding_delegations_Process h)
      \<lparr>udp_insertHeightCache = [], udp_deleteHeightCache = []\<rparr> ds = Ok b"
    and "table_ok unbonding_delegations_config (db ''tracelistener.unbonding_delegations'')"
    and "db ''tracelistener.unbonding_delegations'' k = Some r"
  shows "module_effect cn (MUnbonding b) db ''tracelistener.unbonding_delegations'' k
    \<in> {Some r, Some (mark_deleted 0 r)}"
proof -
  have "heightless b" using heightless_run [OF assms(1)] by (simp add: heightless_def)
  then have heights: "\<forall>e \<in> set (upserts (MUnbonding b)) \<union> set (removals (MUnbonding b)). entry_height e = 0"
    by (auto simp: heightless_def cache_of_def row_of_def)
  let ?up = "fold (upsert_row unbonding_delegations_config) (map (WithChainName cn) (upserts (MUnbonding b)))
      (db ''tracelistener.unbonding_delegations'')"
  have "\<forall>e \<in> set (map (WithChainName cn) (upserts (MUnbonding b))).
      entry_height e = 0 \<and> bound e (InsertColumns unbonding_delegations_config)"
  proof
    fix e assume "e \<in> set (map (WithChainName cn) (upserts (MUnbonding b)))"
    then obtain y where y: "y \<in> set (upserts (MUnbonding b))" "e = WithChainName cn y"
      by (auto simp del: upserts.simps)
    then have "fits unbonding_delegations_config e"
      using pending_fits [of y "MUnbonding b"] by (simp add: pending_rows module_table_def del: upserts.simps)
    then show "entry_height e = 0 \<and> bound e (InsertColumns unbonding_delegations_config)"
      using heights y by (simp add: fits_def del: upserts.simps)
  qed
  from upserts_heightless [OF assms(2) this assms(3)] have "?up k = Some r" .
  moreover have "\<forall>e \<in> set (map (WithChainName cn) (removals (MUnbonding b))). entry_height e = 0"
    using heights by (auto simp: ball_Un)
  ultimately have "fold (delete_row unbonding_delegations_config) (map (WithChainName cn) (removals (MUnbonding b))) ?up k
      \<in> {Some r, Some (mark_deleted 0 r)}"
    by (intro deletes_heightless) simp_all
  with effect_table [of cn "MUnbonding b" db] show ?thesis by (simp add: module_table_def)
qed

definition demo_unbonding :: UnbondingDelegationRow where
  "demo_unbonding = UnbondingDelegationRow_at 7 ''aa'' ''bb'' []"

definition demo_unbonding_handler :: Handler where
  "demo_unbonding_handler = sample_handler\<lparr>h_UnbondingDelegations := (\<lambda>d. Ok demo_unbonding)\<rparr>"

definition demo_db :: database where
  "demo_db = (\<lambda>t k. if k = [Text ''cosmos-hub'', Text ''aa'', Text ''bb'']
     then Some (new_row unbonding_delegations_config (EUnbonding demo_unbonding)) else None)"

lemma demo_db_ok: "table_ok unbonding_delegations_config (demo_db t)"
proof -
  have "config_ok unbonding_delegations_config" by code_simp
  moreover have "bound (EUnbonding demo_unbonding) (InsertColumns unbonding_delegations_config)"
    using fits_rows(10) by (simp add: fits_def)
  ultimately show ?thesis
    using dom_new_row [of unbonding_delegations_config "EUnbonding demo_unbonding"]
    by (auto simp: table_ok_def demo_db_def)
qed

theorem unbonding_rows_stuck_witness:
  "\<exists>b. run_traces (unbonding_delegations_Process demo_unbonding_handler)
      \<lparr>udp_insertHeightCache = [], udp_deleteHeightCache = []\<rparr> [sample_trace] = Ok b \<and>
    module_effect ''cosmos-hub'' (MUnbonding b) demo_db ''tracelistener.unbonding_delegations''
        [Text ''cosmos-hub'', Text ''aa'', Text ''bb'']
      \<in> {Some (new_row unbonding_delegations_config (EUnbonding demo_unbonding)),
         Some (mark_deleted 0 (new_row unbonding_delegations_config (EUnbonding demo_unbonding)))}"
proof -
  have "is_ok (run_traces (unbonding_delegations_Process demo_unbonding_handler)
      \<lparr>udp_insertHeightCache = [], udp_deleteHeightCache = []\<rparr> [sample_trace])"
    by (simp add: unbonding_delegations_Process_def demo_unbonding_handler_def Let_def is_delete_def sample_trace_def
        demo_unbonding_def UnbondingDelegationRow_at_def)
  then obtain b where b: "run_traces (unbonding_delegations_Process demo_unbonding_handler)
      \<lparr>udp_insertHeightCache = [], udp_deleteHeightCache = []\<rparr> [sample_trace] = Ok b"
    by (auto simp: is_ok_iff simp del: run_traces.simps)
  from unbonding_rows_stuck [where k = "[Text ''cosmos-hub'', Text ''aa'', Text ''bb'']", OF b demo_db_ok] b
  show ?thesis by (auto simp: demo_db_def simp del: run_traces.simps)
qed

text \<open>C11. The deletion of a validator misses its row. With SDK 0.44 the marshaler names a deleted
  validator by the hexadecimal form of its address, while the row is kept under the bech32 form, which
  has the letter v in its prefix; the statement matches no row and the validator stays live.\<close>

theorem validator_delete_misses:
  assumes "Validators44 s d = Ok r" "is_delete d" "CHR ''v'' \<in> set a"
  shows "delete_row validators_config (WithChainName cn (EValidator r)) T [Text cn, Text a] = T [Text cn, Text a]"
proof -
  obtain bs where "val_OperatorAddress r = hex_encode bs" using validator_delete_key [OF assms(1,2)] by blast
  then have "val_OperatorAddress r \<noteq> a" using assms(3) hex_encode_no_v by metis
  then have "unique_key validators_config (WithChainName cn (EValidator r)) \<noteq> [Text cn, Text a]"
    by (simp add: unique_keys)
  then show ?thesis by (auto simp: delete_row_eq split: option.split)
qed

definition delete_validator :: TraceOperation where
  "delete_validator = sample_trace\<lparr>top_Operation := ''delete'', top_Key := Slice [0x21, 1, 7] []\<rparr>"

theorem validator_delete_misses_witness:
  "\<forall>s. \<exists>r. Validators44 s delete_validator = Ok r \<and>
    delete_row validators_config (WithChainName ''cosmos-hub'' (EValidator r)) Map.empty
      [Text ''cosmos-hub'', Text ''cosmosvaloper1'']
    = Map.empty [Text ''cosmos-hub'', Text ''cosmosvaloper1'']"
proof
  fix s
  have del: "is_delete delete_validator" by (simp add: is_delete_def delete_validator_def)
  then obtain r where r: "Validators44 s delete_validator = Ok r"
    by (simp add: Validators44_def delete_validator_def from_index_def FromLengthPrefix_def)
  from validator_delete_misses [OF r del, of "''cosmosvaloper1''" "''cosmos-hub''" Map.empty] r
  show "\<exists>r. Validators44 s delete_validator = Ok r \<and>
    delete_row validators_config (WithChainName ''cosmos-hub'' (EValidator r)) Map.empty
      [Text ''cosmos-hub'', Text ''cosmosvaloper1'']
    = Map.empty [Text ''cosmos-hub'', Text ''cosmosvaloper1'']" by auto
qed

end
