(* ===== verification/Parsing.thy ===== *)
theory Parsing
  imports Go_Lib Float64
begin

text \<open>
  The parsing functions of Go's standard library that the exporter applies to query parameters:
  \<open>strconv.ParseInt(s, 10, 32)\<close>, \<open>strconv.ParseBool\<close> and \<open>time.ParseDuration\<close>, and the text of a
  duration. \<open>quote\<close> is \<open>strconv.Quote\<close>, which only error messages use. A duration is an \<open>int64\<close>
  number of nanoseconds.
\<close>

section \<open>strconv\<close>

definition digit_value :: "char \<Rightarrow> nat option" where
  "digit_value c = (let n = of_char c in if 48 \<le> n \<and> n \<le> 57 then Some (n - 48) else None)"

fun parse_uint32 :: "nat \<Rightarrow> string \<Rightarrow> nat outcome" where
  "parse_uint32 n [] = Ok n"
| "parse_uint32 n (c # cs) =
     (case digit_value c of
        None \<Rightarrow> Err ''invalid syntax''
      | Some d \<Rightarrow> if n * 10 + d \<ge> 2 ^ 32 then Err ''value out of range'' else parse_uint32 (n * 10 + d) cs)"

definition num_error :: "(string \<Rightarrow> string) \<Rightarrow> string \<Rightarrow> string \<Rightarrow> string \<Rightarrow> string" where
  "num_error quote fn num err = ''strconv.'' @ fn @ '': parsing '' @ quote num @ '': '' @ err"

definition ParseInt32 :: "(string \<Rightarrow> string) \<Rightarrow> string \<Rightarrow> int outcome" where
  "ParseInt32 quote s =
     (let neg = (s \<noteq> [] \<and> hd s = CHR ''-'');
          t = (if s \<noteq> [] \<and> hd s \<in> {CHR ''+'', CHR ''-''} then tl s else s)
      in case (if t = [] then Err ''invalid syntax'' else parse_uint32 0 t) of
           Panic q \<Rightarrow> Panic q
         | Err e \<Rightarrow> Err (num_error quote ''ParseInt'' s e)
         | Ok un \<Rightarrow>
             if \<not> neg \<and> un \<ge> 2 ^ 31 \<or> neg \<and> un > 2 ^ 31
             then Err (num_error quote ''ParseInt'' s ''value out of range'')
             else Ok (if neg then - int un else int un))"

definition ParseBool :: "(string \<Rightarrow> string) \<Rightarrow> string \<Rightarrow> bool outcome" where
  "ParseBool quote s =
     (if s \<in> {''1'', ''t'', ''T'', ''true'', ''TRUE'', ''True''} then Ok True
      else if s \<in> {''0'', ''f'', ''F'', ''false'', ''FALSE'', ''False''} then Ok False
      else Err (num_error quote ''ParseBool'' s ''invalid syntax''))"

section \<open>time.ParseDuration\<close>

definition Nanosecond :: int where "Nanosecond = 1"
definition Microsecond :: int where "Microsecond = 1000 * Nanosecond"
definition Millisecond :: int where "Millisecond = 1000 * Microsecond"
definition Second :: int where "Second = 1000 * Millisecond"
definition Minute :: int where "Minute = 60 * Second"
definition Hour :: int where "Hour = 60 * Minute"

text \<open>The two spellings of micro are \<open>U+00B5\<close> and \<open>U+03BC\<close>.\<close>

definition unitMap :: "string \<rightharpoonup> nat" where
  "unitMap = map_of
     [(''ns'', nat Nanosecond), (''us'', nat Microsecond),
      ([CHR 0xC2, CHR 0xB5, CHR ''s''], nat Microsecond), ([CHR 0xCE, CHR 0xBC, CHR ''s''], nat Microsecond),
      (''ms'', nat Millisecond), (''s'', nat Second), (''m'', nat Minute), (''h'', nat Hour)]"

text \<open>Leading digits, with the rest; too large a number is an error.\<close>

fun leadingInt :: "nat \<Rightarrow> string \<Rightarrow> (nat \<times> string) option" where
  "leadingInt x [] = Some (x, [])"
| "leadingInt x (c # cs) =
     (case digit_value c of
        None \<Rightarrow> Some (x, c # cs)
      | Some d \<Rightarrow>
          if x > 2 ^ 63 div 10 then None
          else if x * 10 + d > 2 ^ 63 then None
          else leadingInt (x * 10 + d) cs)"

text \<open>Digits after the point: their value, how many count, the rest. Digits beyond the range are
  dropped.\<close>

fun leadingFraction :: "bool \<Rightarrow> nat \<Rightarrow> nat \<Rightarrow> string \<Rightarrow> nat \<times> nat \<times> string" where
  "leadingFraction overflow x k [] = (x, k, [])"
| "leadingFraction overflow x k (c # cs) =
     (case digit_value c of
        None \<Rightarrow> (x, k, c # cs)
      | Some d \<Rightarrow>
          if overflow then leadingFraction True x k cs
          else if x > (2 ^ 63 - 1) div 10 then leadingFraction True x k cs
          else if x * 10 + d > 2 ^ 63 then leadingFraction True x k cs
          else leadingFraction False (x * 10 + d) (Suc k) cs)"

definition is_unit_char :: "char \<Rightarrow> bool" where
  "is_unit_char c \<longleftrightarrow> c \<noteq> CHR ''.'' \<and> digit_value c = None"

text \<open>\<open>uint64(float64(f) * (float64(unit) / scale))\<close>\<close>

definition fraction_of :: "nat \<Rightarrow> nat \<Rightarrow> nat \<Rightarrow> nat" where
  "fraction_of f unit k =
     nat \<lfloor>f64_round (f64_round (of_nat f) * f64_round (of_nat unit / 10 ^ k))\<rfloor>"

text \<open>One number with its unit, and the rest; the length of the rest shrinks.\<close>

definition duration_part :: "(string \<Rightarrow> string) \<Rightarrow> string \<Rightarrow> string \<Rightarrow> (nat \<times> string) outcome" where
  "duration_part quote orig s =
     (let invalid = Err (''time: invalid duration '' @ quote orig) in
      if s = [] \<or> \<not> (hd s = CHR ''.'' \<or> digit_value (hd s) \<noteq> None) then invalid
      else case leadingInt 0 s of
        None \<Rightarrow> invalid
      | Some (v, s1) \<Rightarrow>
          let pre = length s1 \<noteq> length s;
              dot = (s1 \<noteq> [] \<and> hd s1 = CHR ''.'');
              (f, k, s2) = (if dot then leadingFraction False 0 0 (tl s1) else (0, 0, s1));
              post = (dot \<and> length s2 \<noteq> length (tl s1))
          in if \<not> pre \<and> \<not> post then invalid
             else
               let u = takeWhile is_unit_char s2; s3 = dropWhile is_unit_char s2
               in if u = [] then Err (''time: missing unit in duration '' @ quote orig)
                  else case unitMap u of
                    None \<Rightarrow> Err (''time: unknown unit '' @ quote u @ '' in duration '' @ quote orig)
                  | Some unit \<Rightarrow>
                      if v > 2 ^ 63 div unit then invalid
                      else if f > 0 then
                        let v' = v * unit + fraction_of f unit k
                        in if v' > 2 ^ 63 then invalid else Ok (v', s3)
                      else Ok (v * unit, s3))"

lemma length_leadingInt: "leadingInt x s = Some (v, s') \<Longrightarrow> length s' \<le> length s"
  by (induction x s rule: leadingInt.induct) (auto split: option.splits if_splits)

lemma length_leadingFraction: "leadingFraction ov x k s = (f, k', s') \<Longrightarrow> length s' \<le> length s"
  by (induction ov x k s rule: leadingFraction.induct) (auto split: option.splits if_splits)

lemma length_duration_part:
  assumes "duration_part quote orig s = Ok (v, s')"
  shows "length s' < length s"
proof -
  obtain w s1 where s1: "leadingInt 0 s = Some (w, s1)"
    using assms by (auto simp: duration_part_def Let_def split: if_splits option.splits)
  define s2 where "s2 = (if s1 \<noteq> [] \<and> hd s1 = CHR ''.'' then snd (snd (leadingFraction False 0 0 (tl s1))) else s1)"
  have "length s2 \<le> length s1"
    using length_leadingFraction [of False 0 0 "tl s1"] unfolding s2_def
    by (cases "leadingFraction False 0 0 (tl s1)") (auto intro: order_trans)
  moreover have "takeWhile is_unit_char s2 \<noteq> [] \<and> s' = dropWhile is_unit_char s2"
    using assms s1 by (auto simp: duration_part_def Let_def s2_def case_prod_unfold split: if_splits option.splits)
  then have "length s' < length s2"
    by (metis length_append length_greater_0_conv less_add_same_cancel2 takeWhile_dropWhile_id)
  ultimately show ?thesis using length_leadingInt [OF s1] by simp
qed

function duration_parts :: "(string \<Rightarrow> string) \<Rightarrow> string \<Rightarrow> nat \<Rightarrow> string \<Rightarrow> nat outcome" where
  "duration_parts quote orig d s =
     (if s = [] then Ok d
      else case duration_part quote orig s of
        Panic q \<Rightarrow> Panic q
      | Err e \<Rightarrow> Err e
      | Ok (v, s') \<Rightarrow>
          if d + v > 2 ^ 63 then Err (''time: invalid duration '' @ quote orig)
          else duration_parts quote orig (d + v) s')"
  by pat_completeness auto
termination
  by (relation "measure (\<lambda>(quote, orig, d, s). length s)") (auto dest: length_duration_part)

declare duration_parts.simps [simp del]

definition ParseDuration :: "(string \<Rightarrow> string) \<Rightarrow> string \<Rightarrow> int outcome" where
  "ParseDuration quote orig =
     (let neg = (orig \<noteq> [] \<and> hd orig = CHR ''-'');
          s = (if orig \<noteq> [] \<and> hd orig \<in> {CHR ''-'', CHR ''+''} then tl orig else orig)
      in if s = ''0'' then Ok 0
         else if s = [] then Err (''time: invalid duration '' @ quote orig)
         else and_then (duration_parts quote orig 0 s) (\<lambda>d.
           if neg then Ok (- int d)
           else if d > 2 ^ 63 - 1 then Err (''time: invalid duration '' @ quote orig)
           else Ok (int d)))"

section \<open>The text of a duration\<close>

definition pad_digits :: "nat \<Rightarrow> nat \<Rightarrow> string" where
  "pad_digits prec v = (let s = itoa v in replicate (prec - length s) (CHR ''0'') @ s)"

definition fmtFrac :: "nat \<Rightarrow> nat \<Rightarrow> string" where
  "fmtFrac v prec =
     (let ds = rev (dropWhile (\<lambda>c. c = CHR ''0'') (rev (pad_digits prec (v mod 10 ^ prec))))
      in if v mod 10 ^ prec = 0 then [] else ''.'' @ ds)"

definition duration_text :: "nat \<Rightarrow> string" where
  "duration_text u =
     (if u = 0 then ''0s''
      else if u < nat Microsecond then itoa u @ ''ns''
      else if u < nat Millisecond
        then itoa (u div 10 ^ 3) @ fmtFrac u 3 @ [CHR 0xC2, CHR 0xB5, CHR ''s'']
      else if u < nat Second then itoa (u div 10 ^ 6) @ fmtFrac u 6 @ ''ms''
      else
        let secs = u div 10 ^ 9; mins = secs div 60; hours = mins div 60
        in (if hours > 0 then itoa hours @ ''h'' else []) @
           (if mins > 0 then itoa (mins mod 60) @ ''m'' else []) @
           itoa (secs mod 60) @ fmtFrac u 9 @ ''s'')"

definition Duration_String :: "int \<Rightarrow> string" where
  "Duration_String d = (if d < 0 then ''-'' @ duration_text (nat (- d)) else duration_text (nat d))"

section \<open>Facts\<close>

lemma ParseDuration_range:
  assumes "ParseDuration quote s = Ok d"
  shows "- (2 ^ 63) \<le> d \<and> d < 2 ^ 63"
proof -
  have "n \<le> 2 ^ 63" if "duration_parts quote orig d s = Ok n" "d \<le> 2 ^ 63" for orig d s n
    using that
  proof (induction quote orig d s rule: duration_parts.induct)
    case (1 quote orig d s)
    then show ?case
      by (auto simp: duration_parts.simps [of quote orig d s] split: if_splits outcome.splits prod.splits)
  qed
  then have "n \<le> 2 ^ 63" if "duration_parts quote s 0 t = Ok n" for n t using that by simp
  with assms show ?thesis
    by (force simp: ParseDuration_def Let_def and_then_Ok split: if_splits)
qed

end
