(* ===== verification/Exporter_Params.thy ===== *)
theory Exporter_Params
  imports Parsing "HOL-Library.Sublist" "HOL-Library.Word"
begin

text \<open>
  The parameters of an export (\<open>exporter/exporter.go\<close>, \<open>validator.go\<close>, \<open>http.go\<close>): their validation,
  the query parameters they are read from, and the name pattern of the file.
\<close>

section \<open>Errors and parameters\<close>

text \<open>An error is told apart only by being a \<open>ValidationError\<close> or not.\<close>

datatype export_error = ValidationError string | PlainError string

primrec Error :: "export_error \<Rightarrow> string" where
  "Error (ValidationError err) = ''validation error: '' @ err"
| "Error (PlainError msg) = msg"

type_synonym int32 = "32 word"

record Params =
  NumTraces :: int32
  SizeLim :: int32
  Duration :: int
  Upload :: bool
  Clean :: bool
  FileId :: string

definition Million :: int where "Million = 1000000"
definition MaxSizeLim :: int where "MaxSizeLim = 1024"
definition MaxTraceCount :: int where "MaxTraceCount = Million"
definition MaxDuration :: int where "MaxDuration = 24 * Hour"

section \<open>Validation\<close>

text \<open>\<open>None\<close> is a nil error.\<close>

type_synonym paramValFunc = "Params \<Rightarrow> export_error option"

fun runParamValidators :: "Params \<Rightarrow> paramValFunc list \<Rightarrow> export_error option" where
  "runParamValidators p [] = None"
| "runParamValidators p (fn # fns) =
     (case fn p of Some err \<Rightarrow> Some err | None \<Rightarrow> runParamValidators p fns)"

definition validateSizeLim :: paramValFunc where
  "validateSizeLim p =
     (if sint (SizeLim p) < 0 \<or> sint (SizeLim p) \<ge> MaxSizeLim
      then Some (ValidationError (''accepted record file size 1-'' @ itoa_int MaxSizeLim @
             ''MB received '' @ itoa_int (sint (SizeLim p))))
      else None)"

definition validateNumTrace :: paramValFunc where
  "validateNumTrace p =
     (if sint (NumTraces p) < 0 \<or> sint (NumTraces p) > MaxTraceCount
      then Some (ValidationError (''accepted trace count 1-'' @ itoa_int MaxTraceCount @
             '' received '' @ itoa_int (sint (NumTraces p))))
      else None)"

definition validateDuration :: paramValFunc where
  "validateDuration p =
     (if Duration p < 0 \<or> Duration p > MaxDuration
      then Some (ValidationError (''accepted duration 1s-'' @ Duration_String MaxDuration @
             '' received '' @ Duration_String (Duration p)))
      else None)"

definition is_alnum :: "char \<Rightarrow> bool" where
  "is_alnum c \<longleftrightarrow> (let n = of_char c :: nat in
     48 \<le> n \<and> n \<le> 57 \<or> 65 \<le> n \<and> n \<le> 90 \<or> 97 \<le> n \<and> n \<le> 122)"

definition IsAlphaNumeric :: "string \<Rightarrow> bool" where
  "IsAlphaNumeric s = list_all is_alnum s"

definition validateFileId :: paramValFunc where
  "validateFileId p =
     (if length (FileId p) > 10
      then Some (ValidationError (''accepted max id len 10 received '' @ itoa (length (FileId p))))
      else if \<not> IsAlphaNumeric (FileId p)
      then Some (ValidationError (''accepted characters a-z, A-Z and 0-9, received '' @ FileId p))
      else None)"

definition ValidateParamCombination :: paramValFunc where
  "ValidateParamCombination p =
     (if SizeLim p = 0 \<and> Duration p < 1 * Second \<and> NumTraces p = 0
      then Some (ValidationError ''invalid param combination'')
      else None)"

definition Init_validators :: "paramValFunc list" where
  "Init_validators = [validateSizeLim, validateNumTrace, validateDuration, validateFileId, ValidateParamCombination]"

text \<open>What \<open>Init\<close> makes of valid parameters: limits that are not given are the largest ones, the size
  is in bytes.\<close>

definition normalized :: "Params \<Rightarrow> Params" where
  "normalized p =
     (let p = (if NumTraces p = 0 then p\<lparr>NumTraces := word_of_int MaxTraceCount\<rparr> else p);
          p = p\<lparr>SizeLim := SizeLim p * word_of_int Million\<rparr>;
          p = (if SizeLim p = 0 then p\<lparr>SizeLim := word_of_int (MaxSizeLim * Million)\<rparr> else p)
      in if Duration p = 0 then p\<lparr>Duration := MaxDuration\<rparr> else p)"

section \<open>The name of the file\<close>

text \<open>\<open>t\<close> is the formatted time; the star of the pattern is replaced by \<open>ioutil.TempFile\<close>.\<close>

definition createFile_pattern :: "string \<Rightarrow> int32 \<Rightarrow> int32 \<Rightarrow> int \<Rightarrow> string \<Rightarrow> string" where
  "createFile_pattern t n s d fid =
     join ''-'' ([t] @ (if sint n > 0 then [itoa_int (sint n) @ ''N''] else []) @
       (if sint s > 0 then [itoa_int (sint s) @ ''MB''] else []) @
       (if d > 0 then [Duration_String d] else []) @
       (if fid \<noteq> [] then [fid] else []) @ [''-*.txt''])"

section \<open>Query parameters\<close>

definition validateMustBool :: "(string \<Rightarrow> string) \<Rightarrow> string \<Rightarrow> bool outcome" where
  "validateMustBool quote p =
     (case ParseBool quote p of
        Ok b \<Rightarrow> Ok b
      | _ \<Rightarrow> Err (''invalid query param, want either t, true, True, f, false, False, got '' @ p))"

definition validateMustDuration :: "(string \<Rightarrow> string) \<Rightarrow> string \<Rightarrow> int outcome" where
  "validateMustDuration quote d = wrap_err ''invalid query param D, '' (ParseDuration quote d)"

definition TrimSuffix :: "string \<Rightarrow> string \<Rightarrow> string" where
  "TrimSuffix s suf = (if suffix suf s then take (length s - length suf) s else s)"

definition validateMustIntMustSuffix ::
    "(string \<Rightarrow> string) \<Rightarrow> string \<Rightarrow> string \<Rightarrow> string \<Rightarrow> int32 outcome" where
  "validateMustIntMustSuffix quote s suf pName =
     (if \<not> suffix suf s
      then Err (''invalid query param '' @ pName @ '', want format 20'' @ suf @ '' got '' @ s)
      else and_then (wrap_err (''invalid query param '' @ pName @ '', '') (ParseInt32 quote (TrimSuffix s suf)))
             (\<lambda>val. Ok (word_of_int val)))"

text \<open>A query maps names to lists of values; \<open>Get\<close> takes the first.\<close>

type_synonym query = "(string, string list) gomap"

definition Get :: "query \<Rightarrow> string \<Rightarrow> string" where
  "Get qp k = (case map_of qp k of Some (v # vs) \<Rightarrow> v | _ \<Rightarrow> [])"

definition unknown_param :: "string list \<Rightarrow> string list \<Rightarrow> unit outcome" where
  "unknown_param valid keys =
     (case filter (\<lambda>p. p \<notin> set valid) keys of
        [] \<Rightarrow> Ok ()
      | p # ps \<Rightarrow> Err (''validation error: unknown param '' @ p))"

definition optional :: "string \<Rightarrow> 'a \<Rightarrow> (string \<Rightarrow> 'a outcome) \<Rightarrow> 'a outcome" where
  "optional s none parse = (if length s > 0 then parse s else Ok none)"

text \<open>The first part of \<open>startHandler\<close>: the parameters of an export. \<open>keys\<close> are the names in the order
  in which the range loop meets them.\<close>

definition startParams :: "(string \<Rightarrow> string) \<Rightarrow> string list \<Rightarrow> query \<Rightarrow> Params outcome" where
  "startParams quote keys qp =
     and_then (unknown_param [''count'', ''size'', ''persist'', ''duration'', ''id''] keys) (\<lambda>_.
     and_then (optional (Get qp ''count'') 0 (\<lambda>s. validateMustIntMustSuffix quote s ''N'' ''count'')) (\<lambda>numTraces.
     and_then (optional (Get qp ''size'') 0 (\<lambda>s. validateMustIntMustSuffix quote s ''MB'' ''size'')) (\<lambda>sizeLim.
     and_then (optional (Get qp ''duration'') 0 (validateMustDuration quote)) (\<lambda>duration.
     and_then (optional (Get qp ''persist'') False (validateMustBool quote)) (\<lambda>persist.
       Ok \<lparr>NumTraces = numTraces, SizeLim = sizeLim, Duration = duration, Upload = persist,
          Clean = False, FileId = Get qp ''id''\<rparr>)))))"

section \<open>Facts\<close>

definition valid_params :: "Params \<Rightarrow> bool" where
  "valid_params p \<longleftrightarrow> 0 \<le> sint (SizeLim p) \<and> sint (SizeLim p) < 1024 \<and>
     0 \<le> sint (NumTraces p) \<and> sint (NumTraces p) \<le> 1000000 \<and>
     0 \<le> Duration p \<and> Duration p \<le> 24 * Hour \<and>
     length (FileId p) \<le> 10 \<and> list_all is_alnum (FileId p) \<and>
     (SizeLim p \<noteq> 0 \<or> NumTraces p \<noteq> 0 \<or> Second \<le> Duration p)"

lemma validators_valid: "runParamValidators p Init_validators = None \<longleftrightarrow> valid_params p"
  by (auto simp: Init_validators_def validateSizeLim_def validateNumTrace_def validateDuration_def
      validateFileId_def ValidateParamCombination_def IsAlphaNumeric_def valid_params_def
      MaxSizeLim_def MaxTraceCount_def Million_def MaxDuration_def not_le not_less)

lemma sint_small: "0 \<le> i \<Longrightarrow> i < 2 ^ 31 \<Longrightarrow> sint (word_of_int i :: int32) = i"
  by (simp add: signed_of_int signed_take_bit_int_eq_self)

lemma sint_0_iff: "sint (w :: int32) = 0 \<longleftrightarrow> w = 0"
  by (metis signed_0 signed_word_eqI)

text \<open>The product with a million does not leave the range of an \<open>int32\<close>.\<close>

lemma size_in_bytes:
  assumes "valid_params p"
  shows "sint (SizeLim p * word_of_int Million) = sint (SizeLim p) * 1000000"
proof -
  define i where "i = sint (SizeLim p)"
  have i: "0 \<le> i" "i < 1024" using assms by (simp_all add: valid_params_def i_def)
  have "SizeLim p = word_of_int i" unfolding i_def by simp
  then have "SizeLim p * word_of_int Million = word_of_int (i * 1000000)"
    by (simp only: Million_def wi_hom_mult)
  moreover have "sint (word_of_int (i * 1000000) :: int32) = i * 1000000"
    using i by (intro sint_small) simp_all
  ultimately show ?thesis by (simp only: i_def)
qed

lemma default_limits:
  "sint (word_of_int MaxTraceCount :: int32) = 1000000"
  "sint (word_of_int (MaxSizeLim * Million) :: int32) = 1024000000"
  using sint_small [of 1000000] sint_small [of 1024000000]
  unfolding MaxTraceCount_def MaxSizeLim_def Million_def by simp_all

lemma normalized_fields:
  "NumTraces (normalized p) = (if NumTraces p = 0 then word_of_int MaxTraceCount else NumTraces p)"
  "SizeLim (normalized p) = (if SizeLim p * word_of_int Million = 0 then word_of_int (MaxSizeLim * Million)
     else SizeLim p * word_of_int Million)"
  "Duration (normalized p) = (if Duration p = 0 then MaxDuration else Duration p)"
  by (simp_all add: normalized_def Let_def)

lemma normalized_NumTraces:
  assumes "valid_params p"
  shows "0 < sint (NumTraces (normalized p)) \<and> sint (NumTraces (normalized p)) \<le> 1000000"
proof (cases "NumTraces p = 0")
  case True
  then show ?thesis unfolding normalized_fields if_P [OF True] default_limits by simp
next
  case False
  with assms sint_0_iff [of "NumTraces p"] show ?thesis
    unfolding normalized_fields if_not_P [OF False] by (simp add: valid_params_def order_less_le)
qed

lemma normalized_SizeLim:
  assumes "valid_params p"
  shows "0 < sint (SizeLim (normalized p)) \<and> sint (SizeLim (normalized p)) \<le> 1024000000"
proof (cases "SizeLim p * word_of_int Million = 0")
  case True
  then show ?thesis unfolding normalized_fields if_P [OF True] default_limits by simp
next
  case False
  then have "sint (SizeLim p * word_of_int Million) \<noteq> 0" by (simp only: sint_0_iff not_False_eq_True)
  with assms show ?thesis
    unfolding normalized_fields if_not_P [OF False] size_in_bytes [OF assms]
    by (simp add: valid_params_def order_less_le)
qed

lemma normalized_Duration:
  assumes "valid_params p"
  shows "0 < Duration (normalized p) \<and> Duration (normalized p) \<le> MaxDuration"
  using assms unfolding normalized_fields by (auto simp: valid_params_def MaxDuration_def Hour_def Minute_def
      Second_def Millisecond_def Microsecond_def Nanosecond_def)

section \<open>Numbers with a suffix\<close>

lemma digit_value_digit: "d < 10 \<Longrightarrow> digit_value (''0123456789'' ! d) = Some d"
proof -
  assume "d < 10"
  then have "d \<in> {0, 1, 2, 3, 4, 5, 6, 7, 8, 9}" by auto
  then show ?thesis by (auto simp: digit_value_def Let_def)
qed

lemma parse_uint32_append:
  "parse_uint32 n (s @ t) = and_then (parse_uint32 n s) (\<lambda>m. parse_uint32 m t)"
  by (induction n s rule: parse_uint32.induct) (auto split: option.splits)

lemma parse_itoa: "n < 4294967296 \<Longrightarrow> parse_uint32 0 (itoa n) = Ok n"
proof (induction n rule: itoa.induct)
  case (1 n)
  show ?case
  proof (cases "n < 10")
    case True
    then have "itoa n = [''0123456789'' ! n]" by (subst itoa.simps) simp
    with True show ?thesis by (simp add: digit_value_digit)
  next
    case False
    then have itoa: "itoa n = itoa (n div 10) @ [''0123456789'' ! (n mod 10)]" by (subst itoa.simps) simp
    have "parse_uint32 0 (itoa (n div 10)) = Ok (n div 10)"
      using False "1.prems" by (intro "1.IH") simp_all
    then have "parse_uint32 0 (itoa n) = parse_uint32 (n div 10) [''0123456789'' ! (n mod 10)]"
      unfolding itoa parse_uint32_append by simp
    also have "\<dots> = Ok n" using "1.prems" by (simp add: digit_value_digit)
    finally show ?thesis .
  qed
qed

lemma itoa_hd: "hd (itoa n) \<notin> {CHR ''+'', CHR ''-''}"
proof -
  have "hd (itoa n) \<in> set ''0123456789''" by (rule subsetD [OF itoa_digits hd_in_set [OF itoa_not_Nil]])
  then show ?thesis by (simp only: list.set insert_iff empty_iff) (elim disjE; simp)
qed

lemma ParseInt32_itoa:
  assumes "- (2 ^ 31) \<le> i" "i < 2 ^ 31"
  shows "ParseInt32 quote (itoa_int i) = Ok i"
proof (cases "i < 0")
  case True
  then have shape: "itoa_int i = CHR ''-'' # itoa (nat (- i))" by (simp add: itoa_int_def)
  have "nat (- i) < 4294967296" "nat (- i) \<le> 2147483648" using assms by simp_all
  with True show ?thesis
    by (simp add: ParseInt32_def shape itoa_not_Nil parse_itoa)
next
  case False
  then have shape: "itoa_int i = itoa (nat i)" by (simp add: itoa_int_def)
  have "nat i < 4294967296" "nat i < 2147483648" using assms by simp_all
  with False itoa_hd [of "nat i"] show ?thesis
    by (simp add: ParseInt32_def shape itoa_not_Nil parse_itoa)
qed

lemma TrimSuffix_append [simp]: "TrimSuffix (s @ suf) suf = s"
  by (simp add: TrimSuffix_def suffixI [OF refl])

section \<open>Properties\<close>

text \<open>C33. \<open>Init\<close> accepts exactly the parameters whose size is 0 to 1023 megabytes, whose count is at most a
  million, whose duration is at most a day, whose identifier has at most ten letters and digits, and of
  which one is given; the limits it derives are positive and no product leaves the range of an
  \<open>int32\<close>. A size of 1024 is refused, although the comment at \<open>Init\<close> admits it.\<close>

theorem params_accepted_iff:
  "(runParamValidators p Init_validators = None \<longleftrightarrow> valid_params p) \<and>
   (valid_params p \<longrightarrow>
     0 < sint (NumTraces (normalized p)) \<and> sint (NumTraces (normalized p)) \<le> 1000000 \<and>
     0 < sint (SizeLim (normalized p)) \<and> sint (SizeLim (normalized p)) \<le> 1024000000 \<and>
     0 < Duration (normalized p) \<and> Duration (normalized p) \<le> MaxDuration)"
  using validators_valid normalized_NumTraces normalized_SizeLim normalized_Duration by blast

lemma params_accepted_iff_witness:
  "runParamValidators \<lparr>NumTraces = 10, SizeLim = 0, Duration = 0, Upload = False, Clean = False, FileId = ''atom''\<rparr>
     Init_validators = None"
  using params_accepted_iff [of "\<lparr>NumTraces = 10, SizeLim = 0, Duration = 0, Upload = False, Clean = False,
      FileId = ''atom''\<rparr>"]
  by (simp add: valid_params_def is_alnum_def Hour_def Minute_def Second_def Millisecond_def Microsecond_def
      Nanosecond_def)

text \<open>A count or a size is read back from its text: every \<open>int32\<close> written in decimal and followed by the
  suffix is accepted and returned.\<close>

theorem suffixed_number_roundtrip:
  "validateMustIntMustSuffix quote (itoa_int (sint w) @ suf) suf pName = Ok w"
proof -
  have "- (2 ^ 31) \<le> sint w" "sint w < 2 ^ 31"
    using sint_ge [of w] sint_less [of w] by simp_all
  then show ?thesis by (simp add: validateMustIntMustSuffix_def ParseInt32_itoa suffix_def)
qed

end
