(* ===== verification/Exporter.thy ===== *)
theory Exporter
  imports Exporter_Params
begin

text \<open>
  The exporter (\<open>exporter/exporter.go\<close>): its state, its methods, and the goroutine of an export. A method is
  a sequence of steps, between which other calls may come; what it does when none comes is proved beside it. What
  the operating system answers (the clock, files) is an argument. The goroutine
  of \<open>HandleTrace\<close> takes one step per \<open>select\<close>, with the choice of a ready case and the outcome of a write
  as arguments.
\<close>

section \<open>State\<close>

text \<open>A file descriptor, with what was written to the file.\<close>

record os_file =
  file_name :: string
  file_open :: bool
  file_text :: bytes

record Stat =
  StartTime :: int
  RunningTime :: int
  TotalSize :: int32
  TraceCount :: int32
  LocalFile :: "os_file option"
  RunningStatus :: string
  Errors :: "export_error option list"

record trace_chan =
  chan_cap :: nat
  buffered :: "bytes list"

datatype logger = Nop | Sugared nat

text \<open>\<open>doneChan\<close> is nil, open (\<open>Some False\<close>) or closed (\<open>Some True\<close>); \<open>once\<close> tells whether the \<open>sync.Once\<close> has
  run.\<close>

record Exporter =
  running :: bool
  params :: "Params option"
  Stat :: "Stat option"
  logger :: logger
  traceChan :: "trace_chan option"
  doneChan :: "bool option"
  once :: bool

definition ErrExporterRunning :: export_error where
  "ErrExporterRunning = PlainError ''exporter: already running''"

definition ErrExporterNotRunning :: export_error where
  "ErrExporterNotRunning = PlainError ''exporter: not running''"

definition ErrNotAcceptingData :: export_error where
  "ErrNotAcceptingData = PlainError ''exporter: not accepting data''"

definition ErrShouldNotAcceptData :: export_error where
  "ErrShouldNotAcceptData = PlainError ''exporter: should not accepting data''"

definition nil_dereference :: string where
  "nil_dereference = ''runtime error: invalid memory address or nil pointer dereference''"

section \<open>Calls\<close>

text \<open>
  A call of a method in progress: it has returned, it has panicked, or it makes a next step on the shared
  state. No lock of the exporter covers a whole method, so each read and each write of a shared field is a step of its
  own (a statement like \<open>e.Stat.TraceCount++\<close>, which reads and writes one field, is one, and so is a use of a channel, which
  reads the field and acts on the channel). Steps of other calls may come
  between any two; the memory is taken to be sequentially consistent. \<open>alone\<close> is a call that nothing else
  comes between.
\<close>

datatype 'a call =
    Return 'a
  | Panics string
  | Atomic "Exporter \<Rightarrow> 'a call \<times> Exporter"

type_synonym 'a exporter_method = "Exporter \<Rightarrow> 'a outcome \<times> Exporter"

primrec alone :: "'a call \<Rightarrow> 'a exporter_method" where
  "alone (Return x) = (\<lambda>e. (Ok x, e))"
| "alone (Panics msg) = (\<lambda>e. (Panic msg, e))"
| "alone (Atomic f) = (\<lambda>e. (\<lambda>(rest, e'). rest e') ((map_prod alone id \<circ> f) e))"

text \<open>A statement and what comes after it.\<close>

primrec call_then :: "'a call \<Rightarrow> ('a \<Rightarrow> 'b call) \<Rightarrow> 'b call" where
  "call_then (Return x) = (\<lambda>k. k x)"
| "call_then (Panics msg) = (\<lambda>k. Panics msg)"
| "call_then (Atomic f) = (\<lambda>k. Atomic (map_prod (\<lambda>rest. rest k) id \<circ> (map_prod call_then id \<circ> f)))"

fun step_call :: "'a call \<Rightarrow> Exporter \<Rightarrow> 'a call \<times> Exporter" where
  "step_call (Atomic f) e = f e"
| "step_call c e = (c, e)"

text \<open>The steps: a field is read, the exporter is changed, or a pointer is followed, which may be nil.\<close>

definition reading :: "(Exporter \<Rightarrow> 'a) \<Rightarrow> 'a call" where
  "reading f = Atomic (\<lambda>e. (Return (f e), e))"

definition writing :: "(Exporter \<Rightarrow> Exporter) \<Rightarrow> unit call" where
  "writing g = Atomic (\<lambda>e. (Return (), g e))"

definition the_stat :: "Stat call" where
  "the_stat = Atomic (\<lambda>e. ((case Stat e of None \<Rightarrow> Panics nil_dereference | Some st \<Rightarrow> Return st), e))"

definition the_params :: "Params call" where
  "the_params = Atomic (\<lambda>e. ((case params e of None \<Rightarrow> Panics nil_dereference | Some p \<Rightarrow> Return p), e))"

definition set_stat :: "(Stat \<Rightarrow> Stat) \<Rightarrow> unit call" where
  "set_stat g = Atomic (\<lambda>e. case Stat e of
     None \<Rightarrow> (Panics nil_dereference, e) | Some st \<Rightarrow> (Return (), e\<lparr>Stat := Some (g st)\<rparr>))"

definition set_params :: "(Params \<Rightarrow> Params) \<Rightarrow> unit call" where
  "set_params g = Atomic (\<lambda>e. case params e of
     None \<Rightarrow> (Panics nil_dereference, e) | Some p \<Rightarrow> (Return (), e\<lparr>params := Some (g p)\<rparr>))"

lemma alone_call_then [simp]:
  "alone (call_then c k) e =
     (case alone c e of (Ok x, e') \<Rightarrow> alone (k x) e' | (Err msg, e') \<Rightarrow> (Err msg, e') | (Panic msg, e') \<Rightarrow> (Panic msg, e'))"
proof (induction c arbitrary: e)
  case (Atomic f)
  obtain c e1 where f: "f e = (c, e1)" by fastforce
  have "alone (call_then c k) e1 =
      (case alone c e1 of (Ok x, e') \<Rightarrow> alone (k x) e' | (Err msg, e') \<Rightarrow> (Err msg, e') | (Panic msg, e') \<Rightarrow> (Panic msg, e'))"
    by (rule Atomic.IH [OF rangeI [of f e]]) (simp add: f)
  then show ?case by (simp add: f)
qed simp_all

lemma alone_steps [simp]:
  "alone (reading f) e = (Ok (f e), e)"
  "alone (writing g) e = (Ok (), g e)"
  "alone the_stat e = ((case Stat e of None \<Rightarrow> Panic nil_dereference | Some st \<Rightarrow> Ok st), e)"
  "alone the_params e = ((case params e of None \<Rightarrow> Panic nil_dereference | Some p \<Rightarrow> Ok p), e)"
  "alone (set_stat h) e = (case Stat e of
     None \<Rightarrow> (Panic nil_dereference, e) | Some st \<Rightarrow> (Ok (), e\<lparr>Stat := Some (h st)\<rparr>))"
  "alone (set_params i) e = (case params e of
     None \<Rightarrow> (Panic nil_dereference, e) | Some p \<Rightarrow> (Ok (), e\<lparr>params := Some (i p)\<rparr>))"
  by (simp_all add: reading_def writing_def the_stat_def the_params_def set_stat_def set_params_def split: option.split)

text \<open>What a method does that fails or succeeds without a change.\<close>

definition succeeds :: "export_error option exporter_method" where
  "succeeds e = (Ok None, e)"

definition fails :: "export_error \<Rightarrow> export_error option exporter_method" where
  "fails err e = (Ok (Some err), e)"

section \<open>Construction\<close>

type_synonym Option = "Exporter \<Rightarrow> Exporter outcome"

definition WithLogger :: "logger option \<Rightarrow> Option" where
  "WithLogger l e =
     (case l of None \<Rightarrow> Err ''logger can not be nil'' | Some l \<Rightarrow> Ok (e\<lparr>logger := l\<rparr>))"

fun apply_options :: "Option list \<Rightarrow> Exporter \<Rightarrow> Exporter outcome" where
  "apply_options [] e = Ok e"
| "apply_options (opt # opts) e = and_then (opt e) (apply_options opts)"

definition new_exporter :: Exporter where
  "new_exporter = \<lparr>running = False, params = None, Stat = None, logger = Nop, traceChan = None,
     doneChan = None, once = False\<rparr>"

definition New_exporter :: "Option list \<Rightarrow> Exporter outcome" where
  "New_exporter opts = apply_options opts new_exporter"

section \<open>The operating system\<close>

text \<open>What it answers during one call: the time in nanoseconds and as text, the name of a new temporary
  file, the errors of closing and opening it, and whether it is gone when it is to be removed.\<close>

record os_answers =
  os_now :: int
  os_date :: string
  TempFile :: "string \<Rightarrow> export_error + string"
  CloseFile :: "export_error option"
  OpenFile :: "export_error option"
  NotExist :: bool

definition createFile ::
    "os_answers \<Rightarrow> int32 \<Rightarrow> int32 \<Rightarrow> int \<Rightarrow> string \<Rightarrow> export_error + string" where
  "createFile os n s d fid = TempFile os (createFile_pattern (os_date os) n s d fid)"

section \<open>Methods\<close>

definition Init_stat :: "int \<Rightarrow> string \<Rightarrow> Stat" where
  "Init_stat now name =
     \<lparr>StartTime = now, RunningTime = 0, TotalSize = 0, TraceCount = 0,
      LocalFile = Some \<lparr>file_name = name, file_open = True, file_text = []\<rparr>,
      RunningStatus = ''Init'', Errors = []\<rparr>"

definition Init_call :: "os_answers \<Rightarrow> Params \<Rightarrow> export_error option call" where
  "Init_call os p =
     call_then (reading running) (\<lambda>r.
     if r then Return (Some ErrExporterRunning)
     else case runParamValidators p Init_validators of
       Some err \<Rightarrow> Return (Some err)
     | None \<Rightarrow> (case createFile os (NumTraces p) (SizeLim p) (Duration p) (FileId p) of
         Inl err \<Rightarrow> Return (Some err)
       | Inr name \<Rightarrow> (case CloseFile os of
           Some err \<Rightarrow> Return (Some err)
         | None \<Rightarrow> (case OpenFile os of
             Some err \<Rightarrow> Return (Some err)
           | None \<Rightarrow>
               call_then (writing (\<lambda>e. e\<lparr>Stat := Some (Init_stat (os_now os) name)\<rparr>)) (\<lambda>_.
               call_then (writing (\<lambda>e. e\<lparr>params := Some p\<rparr>)) (\<lambda>_.
               call_then (call_then the_params (\<lambda>p. if NumTraces p = 0
                   then set_params (\<lambda>p. p\<lparr>NumTraces := word_of_int MaxTraceCount\<rparr>) else Return ())) (\<lambda>_.
               call_then (set_params (\<lambda>p. p\<lparr>SizeLim := SizeLim p * word_of_int Million\<rparr>)) (\<lambda>_.
               call_then (call_then the_params (\<lambda>p. if SizeLim p = 0
                   then set_params (\<lambda>p. p\<lparr>SizeLim := word_of_int (MaxSizeLim * Million)\<rparr>) else Return ())) (\<lambda>_.
               call_then (call_then the_params (\<lambda>p. if Duration p = 0
                   then set_params (\<lambda>p. p\<lparr>Duration := MaxDuration\<rparr>) else Return ())) (\<lambda>_.
               call_then (writing (\<lambda>e. e\<lparr>once := False\<rparr>)) (\<lambda>_.
               call_then (writing (\<lambda>e. e\<lparr>doneChan := None\<rparr>)) (\<lambda>_.
               call_then (writing (\<lambda>e. e\<lparr>traceChan := None\<rparr>)) (\<lambda>_.
               Return None)))))))))))))"

definition setRunning_call :: "bool \<Rightarrow> export_error option call" where
  "setRunning_call newStatus =
     call_then (reading running) (\<lambda>curStatus.
     if curStatus = newStatus
     then Return (Some (if curStatus then ErrExporterRunning else ErrExporterNotRunning))
     else call_then (writing (\<lambda>e. e\<lparr>running := newStatus\<rparr>)) (\<lambda>_. Return None))"

text \<open>\<open>StartReceiving\<close> yields what is in the error channel it returns, and whether a goroutine was
  started.\<close>

definition StartReceiving_call :: "(export_error option list \<times> bool) call" where
  "StartReceiving_call =
     call_then (reading running) (\<lambda>r.
     if r then Return ([Some ErrExporterRunning], False)
     else call_then (setRunning_call True) (\<lambda>err. case err of
       Some err \<Rightarrow> Return ([Some err], False)
     | None \<Rightarrow>
         call_then (set_stat (\<lambda>st. st\<lparr>RunningStatus := ''Receiving traces''\<rparr>)) (\<lambda>_.
         call_then the_params (\<lambda>p.
         if sint (NumTraces p) < 0 then Panics ''makechan: size out of range''
         else
           call_then (writing (\<lambda>e. e\<lparr>traceChan := Some \<lparr>chan_cap = nat (sint (NumTraces p)), buffered = []\<rparr>\<rparr>)) (\<lambda>_.
           call_then (writing (\<lambda>e. e\<lparr>doneChan := Some False\<rparr>)) (\<lambda>_. Return ([], True)))))))"

text \<open>The call of \<open>once.Do\<close> that runs its function claims the \<open>sync.Once\<close> first. (Another one that arrives while the
  function runs goes on here; in Go it waits for the function. So calls have more interleavings than in Go; the runs of
  \<open>Exporter_Ends\<close> that go wrong have one such call only.)\<close>

definition claim_once :: "bool call" where
  "claim_once = Atomic (\<lambda>e. (Return (\<not> once e), e\<lparr>once := True\<rparr>))"

definition close_doneChan :: "unit call" where
  "close_doneChan = Atomic (\<lambda>e. case doneChan e of
     None \<Rightarrow> (Panics ''close of nil channel'', e)
   | Some True \<Rightarrow> (Panics ''close of closed channel'', e)
   | Some False \<Rightarrow> (Return (), e\<lparr>doneChan := Some True\<rparr>))"

definition StopReceiving_call :: "export_error option call" where
  "StopReceiving_call =
     call_then (reading running) (\<lambda>r.
     if \<not> r then Return (Some ErrExporterNotRunning)
     else call_then claim_once (\<lambda>claimed.
       if \<not> claimed then Return None
       else
         call_then close_doneChan (\<lambda>_.
         call_then (set_stat (\<lambda>st. st\<lparr>RunningStatus := ''Stopped receiving traces, processing remaining traces''\<rparr>)) (\<lambda>_.
         Return None))))"

definition IsAcceptingData :: "Exporter \<Rightarrow> bool" where
  "IsAcceptingData e =
     (case (traceChan e, doneChan e) of (Some ch, Some shut) \<Rightarrow> \<not> shut | _ \<Rightarrow> False)"

text \<open>A receive from a nil channel is never ready, so the last \<open>select\<close> then takes its default.\<close>

definition IsAcceptingData_call :: "bool call" where
  "IsAcceptingData_call =
     call_then (reading (\<lambda>e. traceChan e = None)) (\<lambda>none.
     if none then Return False
     else call_then (reading (\<lambda>e. doneChan e = None)) (\<lambda>none.
       if none then Return False else reading (\<lambda>e. doneChan e \<noteq> Some True)))"

definition reachedTraceCount :: "Params \<Rightarrow> Stat \<Rightarrow> bool" where
  "reachedTraceCount p st =
     (if sint (NumTraces p) \<le> 0 then False else sint (TraceCount st) \<ge> sint (NumTraces p))"

definition reachedSizeLimit :: "Params \<Rightarrow> Stat \<Rightarrow> bool" where
  "reachedSizeLimit p st =
     (if sint (SizeLim p) \<le> 0 then False else sint (TotalSize st) \<ge> sint (SizeLim p))"

text \<open>A condition on the parameters and the statistics reads both.\<close>

definition stat_reached :: "(Params \<Rightarrow> Stat \<Rightarrow> bool) \<Rightarrow> bool call" where
  "stat_reached cond = call_then the_params (\<lambda>p. call_then the_stat (\<lambda>st. Return (cond p st)))"

text \<open>The send of the \<open>select\<close> with a default. Nothing is sent to a nil channel.\<close>

definition try_send :: "bytes \<Rightarrow> bool call" where
  "try_send trace = Atomic (\<lambda>e. case traceChan e of
     None \<Rightarrow> (Return False, e)
   | Some ch \<Rightarrow>
       if length (buffered ch) < chan_cap ch
       then (Return True, e\<lparr>traceChan := Some (ch\<lparr>buffered := buffered ch @ [trace]\<rparr>)\<rparr>)
       else (Return False, e))"

definition NonblockingReceive_call :: "int \<Rightarrow> bytes \<Rightarrow> export_error option call" where
  "NonblockingReceive_call now trace =
     call_then IsAcceptingData_call (\<lambda>accepting.
     if \<not> accepting then Return (Some ErrNotAcceptingData)
     else call_then (try_send trace) (\<lambda>sent.
       if \<not> sent then Return (Some (PlainError ''blocked on sending data to trace channel''))
       else
         call_then (set_stat (\<lambda>st. st\<lparr>TraceCount := TraceCount st + 1\<rparr>)) (\<lambda>_.
         call_then (set_stat (\<lambda>st. st\<lparr>TotalSize := TotalSize st + word_of_int (int (length trace))\<rparr>)) (\<lambda>_.
         call_then (stat_reached reachedTraceCount) (\<lambda>full.
         if full then StopReceiving_call
         else call_then (stat_reached reachedSizeLimit) (\<lambda>full.
           if full then StopReceiving_call
           else call_then (stat_reached (\<lambda>p st. now - StartTime st \<ge> Duration p)) (\<lambda>late.
             if late then StopReceiving_call else Return None)))))))"

subsection \<open>Methods that nothing comes between\<close>

definition Init :: "os_answers \<Rightarrow> Params \<Rightarrow> export_error option exporter_method" where
  "Init os p = alone (Init_call os p)"

definition StartReceiving :: "(export_error option list \<times> bool) exporter_method" where
  "StartReceiving = alone StartReceiving_call"

definition StopReceiving :: "export_error option exporter_method" where
  "StopReceiving = alone StopReceiving_call"

definition NonblockingReceive :: "int \<Rightarrow> bytes \<Rightarrow> export_error option exporter_method" where
  "NonblockingReceive now trace = alone (NonblockingReceive_call now trace)"

text \<open>The counters after a trace was sent.\<close>

definition counted :: "bytes \<Rightarrow> Stat \<Rightarrow> Stat" where
  "counted trace st = st\<lparr>TraceCount := TraceCount st + 1,
     TotalSize := TotalSize st + word_of_int (int (length trace))\<rparr>"

lemma Init_alone:
  "Init os p e =
     (if running e then fails ErrExporterRunning e
      else case runParamValidators p Init_validators of
        Some err \<Rightarrow> fails err e
      | None \<Rightarrow> (case createFile os (NumTraces p) (SizeLim p) (Duration p) (FileId p) of
          Inl err \<Rightarrow> fails err e
        | Inr name \<Rightarrow> (case CloseFile os of
            Some err \<Rightarrow> fails err e
          | None \<Rightarrow> (case OpenFile os of
              Some err \<Rightarrow> fails err e
            | None \<Rightarrow> succeeds
                (e\<lparr>Stat := Some (Init_stat (os_now os) name), params := Some (normalized p),
                   once := False, doneChan := None, traceChan := None\<rparr>)))))"
  by (simp add: Init_def Init_call_def fails_def succeeds_def normalized_def Let_def split: option.split sum.split)

lemma setRunning_alone [simp]:
  "alone (setRunning_call b) e =
     (if running e = b then fails (if running e then ErrExporterRunning else ErrExporterNotRunning) e
      else succeeds (e\<lparr>running := b\<rparr>))"
  by (simp add: setRunning_call_def fails_def succeeds_def)

lemma StartReceiving_alone:
  "StartReceiving e =
     (if running e then (Ok ([Some ErrExporterRunning], False), e)
      else case Stat e of
        None \<Rightarrow> (Panic nil_dereference, e\<lparr>running := True\<rparr>)
      | Some st \<Rightarrow>
          (let e = e\<lparr>running := True, Stat := Some (st\<lparr>RunningStatus := ''Receiving traces''\<rparr>)\<rparr>
           in case params e of
             None \<Rightarrow> (Panic nil_dereference, e)
           | Some p \<Rightarrow>
               if sint (NumTraces p) < 0 then (Panic ''makechan: size out of range'', e)
               else (Ok ([], True),
                 e\<lparr>traceChan := Some \<lparr>chan_cap = nat (sint (NumTraces p)), buffered = []\<rparr>, doneChan := Some False\<rparr>)))"
  by (simp add: StartReceiving_def StartReceiving_call_def succeeds_def Let_def split: option.split)

lemma StopReceiving_alone:
  "StopReceiving e =
     (if \<not> running e then fails ErrExporterNotRunning e
      else if once e then succeeds e
      else let e = e\<lparr>once := True\<rparr> in (case doneChan e of
        None \<Rightarrow> (Panic ''close of nil channel'', e)
      | Some True \<Rightarrow> (Panic ''close of closed channel'', e)
      | Some False \<Rightarrow> (let e = e\<lparr>doneChan := Some True\<rparr> in (case Stat e of
          None \<Rightarrow> (Panic nil_dereference, e)
        | Some st \<Rightarrow> succeeds (e\<lparr>Stat := Some (st\<lparr>RunningStatus :=
            ''Stopped receiving traces, processing remaining traces''\<rparr>)\<rparr>)))))"
  by (cases e) (simp add: StopReceiving_def StopReceiving_call_def claim_once_def close_doneChan_def fails_def succeeds_def
      Let_def split: option.split bool.split)

lemma IsAcceptingData_alone [simp]: "alone IsAcceptingData_call e = (Ok (IsAcceptingData e), e)"
  by (auto simp: IsAcceptingData_call_def IsAcceptingData_def split: option.split)

lemma stat_reached_alone [simp]:
  "alone (stat_reached cond) e = ((case params e of None \<Rightarrow> Panic nil_dereference
     | Some p \<Rightarrow> (case Stat e of None \<Rightarrow> Panic nil_dereference | Some st \<Rightarrow> Ok (cond p st))), e)"
  by (simp add: stat_reached_def split: option.split)

lemma NonblockingReceive_alone:
  "NonblockingReceive now trace e =
     (if \<not> IsAcceptingData e then fails ErrNotAcceptingData e
      else case traceChan e of
        None \<Rightarrow> fails (PlainError ''blocked on sending data to trace channel'') e
      | Some ch \<Rightarrow>
          if length (buffered ch) < chan_cap ch then
            (let e = e\<lparr>traceChan := Some (ch\<lparr>buffered := buffered ch @ [trace]\<rparr>)\<rparr>
             in case Stat e of
               None \<Rightarrow> (Panic nil_dereference, e)
             | Some st \<Rightarrow>
                 (let st = counted trace st; e = e\<lparr>Stat := Some st\<rparr>
                  in case params e of
                    None \<Rightarrow> (Panic nil_dereference, e)
                  | Some p \<Rightarrow>
                      if reachedTraceCount p st \<or> reachedSizeLimit p st \<or> now - StartTime st \<ge> Duration p
                      then StopReceiving e else succeeds e))
          else fails (PlainError ''blocked on sending data to trace channel'') e)"
  by (simp add: NonblockingReceive_def NonblockingReceive_call_def try_send_def fails_def succeeds_def counted_def
      StopReceiving_def Let_def split: option.split)

definition GetTraceChan :: "Exporter \<Rightarrow> export_error + trace_chan option" where
  "GetTraceChan e = (if \<not> running e then Inl ErrExporterNotRunning else Inr (traceChan e))"

definition GetDoneChan :: "Exporter \<Rightarrow> export_error + bool option" where
  "GetDoneChan e = (if \<not> running e then Inl ErrExporterNotRunning else Inr (doneChan e))"

definition GetStat :: "int \<Rightarrow> Exporter \<Rightarrow> (export_error + Stat) \<times> Exporter" where
  "GetStat now e =
     (case Stat e of
        None \<Rightarrow> (Inl ErrExporterNotRunning, e)
      | Some st \<Rightarrow>
          (let st = (if running e then st\<lparr>RunningTime := now - StartTime st\<rparr> else st)
           in (Inr st, e\<lparr>Stat := Some st\<rparr>)))"

section \<open>The end of an export\<close>

text \<open>\<open>Close\<close> of a nil file or of one that is closed is an error.\<close>

definition close_file :: "os_answers \<Rightarrow> os_file option \<Rightarrow> export_error option \<times> os_file option" where
  "close_file os f =
     (case f of
        None \<Rightarrow> (Some (PlainError ''invalid argument''), None)
      | Some fl \<Rightarrow>
          if \<not> file_open fl
          then (Some (PlainError (''close '' @ file_name fl @ '': file already closed'')), f)
          else (CloseFile os, Some (fl\<lparr>file_open := False\<rparr>)))"

text \<open>With \<open>Clean\<close> the file is removed (an error is only logged) and forgotten.\<close>

definition clean_file :: "os_answers \<Rightarrow> os_file option \<Rightarrow> os_file option" where
  "clean_file os f = (if \<not> NotExist os then None else f)"

definition close_LocalFile :: "os_answers \<Rightarrow> export_error option call" where
  "close_LocalFile os = Atomic (\<lambda>e. case Stat e of
     None \<Rightarrow> (Panics nil_dereference, e)
   | Some st \<Rightarrow> (case close_file os (LocalFile st) of (err, f) \<Rightarrow>
       (Return err, e\<lparr>Stat := Some (st\<lparr>LocalFile := f\<rparr>)\<rparr>)))"

definition finish_call :: "os_answers \<Rightarrow> export_error option call" where
  "finish_call os =
     call_then (reading running) (\<lambda>r.
     if \<not> r then Return (Some ErrExporterNotRunning)
     else call_then IsAcceptingData_call (\<lambda>accepting.
       if accepting then Return (Some ErrShouldNotAcceptData)
       else
         call_then the_params (\<lambda>_.
         call_then (close_LocalFile os) (\<lambda>err. case err of
           Some err \<Rightarrow> Return (Some err)
         | None \<Rightarrow>
             call_then the_params (\<lambda>p.
             call_then (if Clean p then set_stat (\<lambda>st. st\<lparr>LocalFile := clean_file os (LocalFile st)\<rparr>) else Return ()) (\<lambda>_.
             call_then (setRunning_call False) (\<lambda>err. case err of
               Some err \<Rightarrow> Return (Some err)
             | None \<Rightarrow>
                 call_then (set_stat (\<lambda>st. st\<lparr>RunningStatus := ''Finished''\<rparr>)) (\<lambda>_.
                 call_then (set_stat (\<lambda>st. st\<lparr>RunningTime := os_now os - StartTime st\<rparr>)) (\<lambda>_.
                 Return None)))))))))"

definition finish :: "os_answers \<Rightarrow> export_error option exporter_method" where
  "finish os = alone (finish_call os)"

lemma finish_alone:
  "finish os e =
     (if \<not> running e then fails ErrExporterNotRunning e
      else if IsAcceptingData e then fails ErrShouldNotAcceptData e
      else case (params e, Stat e) of
        (Some p, Some st) \<Rightarrow> (case close_file os (LocalFile st) of
            (Some err, f) \<Rightarrow> fails err (e\<lparr>Stat := Some (st\<lparr>LocalFile := f\<rparr>)\<rparr>)
          | (None, f) \<Rightarrow> succeeds (e\<lparr>running := False,
              Stat := Some (st\<lparr>LocalFile := (if Clean p then clean_file os f else f),
                RunningStatus := ''Finished'', RunningTime := os_now os - StartTime st\<rparr>)\<rparr>))
      | _ \<Rightarrow> (Panic nil_dereference, e))"
  by (simp add: finish_def finish_call_def close_LocalFile_def fails_def succeeds_def split: option.split prod.split)

section \<open>The goroutine of an export\<close>

text \<open>Where it is: in the outer \<open>select\<close>, in the inner one, back from \<open>HandleTrace\<close>, or dead of a panic.\<close>

datatype worker =
    NoWorker
  | Selecting
  | Draining
  | Handled "export_error option"
  | Crashed string

text \<open>A write stores the whole line, or a part of it and fails.\<close>

datatype write_result = Written | Short nat string

fun write_file :: "write_result \<Rightarrow> bytes \<Rightarrow> os_file option \<Rightarrow> string option \<times> os_file option" where
  "write_file res b None = (Some ''invalid argument'', None)"
| "write_file res b (Some f) =
     (if \<not> file_open f then (Some (''write '' @ file_name f @ '': file already closed''), Some f)
      else case res of
        Written \<Rightarrow> (None, Some (f\<lparr>file_text := file_text f @ b\<rparr>))
      | Short n err \<Rightarrow> (Some err, Some (f\<lparr>file_text := file_text f @ take n b\<rparr>)))"

definition newline :: byte where "newline = 10"

text \<open>A receive from the channel: the trace and the channel after it, unless it would wait.\<close>

definition receives :: "trace_chan option \<Rightarrow> (bytes \<times> trace_chan) option" where
  "receives ch =
     (case ch of
        None \<Rightarrow> None
      | Some c \<Rightarrow> (case buffered c of [] \<Rightarrow> None | r # rs \<Rightarrow> Some (r, c\<lparr>buffered := rs\<rparr>)))"

text \<open>The case of a \<open>select\<close> for a trace: \<open>w\<close> is where the loop goes on.\<close>

definition take_trace ::
    "write_result \<Rightarrow> worker \<Rightarrow> bytes \<Rightarrow> trace_chan \<Rightarrow> Exporter \<Rightarrow> worker \<times> Exporter" where
  "take_trace res w r ch e =
     (let e = e\<lparr>traceChan := Some ch\<rparr>
      in case Stat e of
        None \<Rightarrow> (Crashed nil_dereference, e)
      | Some st \<Rightarrow> (case write_file res (r @ [newline]) (LocalFile st) of
          (err, f) \<Rightarrow>
            ((case err of
                None \<Rightarrow> w
              | Some msg \<Rightarrow>
                  Handled (Some (PlainError (''handleTrace: could not write to file, error: '' @ msg)))),
             e\<lparr>Stat := Some (st\<lparr>LocalFile := f\<rparr>)\<rparr>)))"

text \<open>One pass of a loop of \<open>HandleTrace\<close>, its receive and its write, is one step. A \<open>select\<close> with no ready case and no default waits: \<open>None\<close>. When both
  cases are ready, \<open>prefer_done\<close> tells which is picked.\<close>

fun HandleTrace_step ::
    "bool \<Rightarrow> write_result \<Rightarrow> worker \<Rightarrow> Exporter \<Rightarrow> (worker \<times> Exporter) option" where
  "HandleTrace_step prefer_done res Selecting e =
     (case receives (traceChan e) of
        None \<Rightarrow> if doneChan e = Some True then Some (Draining, e) else None
      | Some (r, ch) \<Rightarrow>
          if doneChan e = Some True \<and> prefer_done then Some (Draining, e)
          else Some (take_trace res Selecting r ch e))"
| "HandleTrace_step prefer_done res Draining e =
     (case receives (traceChan e) of
        None \<Rightarrow> Some (Handled None, e)
      | Some (r, ch) \<Rightarrow> Some (take_trace res Draining r ch e))"
| "HandleTrace_step prefer_done res w e = None"

text \<open>What \<open>Orchestrate\<close> makes of the two errors.\<close>

fun orchestrated :: "export_error option \<Rightarrow> export_error option \<Rightarrow> export_error option" where
  "orchestrated (Some errHandler) (Some errFinish) =
     Some (PlainError (''handler error: '' @ Error errHandler @ '', finish error '' @ Error errFinish))"
| "orchestrated (Some errHandler) None = Some errHandler"
| "orchestrated None errFinish = errFinish"

text \<open>A step of \<open>Orchestrate\<close>: a pass of \<open>HandleTrace\<close>, or \<open>finish\<close> after it. The list holds what is sent on the
  error channel.\<close>

definition Orchestrate_step ::
    "bool \<Rightarrow> write_result \<Rightarrow> os_answers \<Rightarrow> worker \<Rightarrow> Exporter \<Rightarrow>
     (worker \<times> export_error option list \<times> Exporter) option" where
  "Orchestrate_step prefer_done res os w e =
     (case w of
        Handled errHandler \<Rightarrow> (case finish os e of
            (Ok errFinish, e) \<Rightarrow> Some (NoWorker, [orchestrated errHandler errFinish], e)
          | (Err err, e) \<Rightarrow> Some (NoWorker, [Some (PlainError err)], e)
          | (Panic msg, e) \<Rightarrow> Some (Crashed msg, [], e))
      | _ \<Rightarrow> (case HandleTrace_step prefer_done res w e of
            None \<Rightarrow> None
          | Some (w, e) \<Rightarrow> Some (w, [], e)))"

end
