(* ===== verification/Exporter_Http.thy ===== *)
theory Exporter_Http
  imports Exporter Float64
begin

text \<open>
  The HTTP interface of the exporter (\<open>exporter/http.go\<close>) and the public form of its statistics. A response
  is built by the handler; the router and the socket are the standard library's.
\<close>

section \<open>Sizes in megabytes\<close>

text \<open>\<open>float32\<close> keeps 24 bits of significand; the numbers here are far from the limits of its exponent.\<close>

definition f32_round_pos :: "rat \<Rightarrow> rat" where
  "f32_round_pos r = (let u = 2 powi (f64_exponent r - 23) in of_int (round_even (r / u)) * u)"

definition f32_round :: "rat \<Rightarrow> rat" where
  "f32_round r = (if r = 0 then 0 else if r < 0 then - f32_round_pos (- r) else f32_round_pos r)"

text \<open>The verb \<open>%0.8f\<close>: the exact decimal value, rounded to eight places.\<close>

definition fixed_8 :: "rat \<Rightarrow> string" where
  "fixed_8 r =
     (let n = nat (round_even (\<bar>r\<bar> * 100000000))
      in (if r < 0 then ''-'' else '''') @ itoa (n div 100000000) @ ''.'' @ pad_digits 8 (n mod 100000000))"

definition size_text :: "int32 \<Rightarrow> string" where
  "size_text n = fixed_8 (f32_round (f32_round (of_int (sint n)) / f32_round (of_int Million))) @ '' MB''"

section \<open>Public statistics\<close>

record public_stat =
  pub_start_time :: int
  pub_runtime :: string
  pub_total_size :: string
  pub_trace_count :: int32
  pub_file_name :: string
  pub_status :: string
  pub_errors :: "string list"

fun public_error :: "export_error option \<Rightarrow> string" where
  "public_error None = ''no error''"
| "public_error (Some err) = Error err"

definition Public :: "Stat \<Rightarrow> public_stat" where
  "Public s =
     \<lparr>pub_start_time = StartTime s,
      pub_runtime = Duration_String (RunningTime s),
      pub_total_size = size_text (TotalSize s),
      pub_trace_count = TraceCount s,
      pub_file_name = (case LocalFile s of None \<Rightarrow> ''-- Removed --'' | Some f \<Rightarrow> file_name f),
      pub_status = RunningStatus s,
      pub_errors = map public_error (Errors s)\<rparr>"

section \<open>Responses\<close>

datatype content = ErrorBody string | StatBody public_stat

record Response =
  Content_Type :: "string list"
  status :: "nat option"
  body :: "content list"

definition empty_response :: Response where
  "empty_response = \<lparr>Content_Type = [], status = None, body = []\<rparr>"

text \<open>The first status of a response stays.\<close>

definition WriteHeader :: "nat \<Rightarrow> Response \<Rightarrow> Response" where
  "WriteHeader code w = (if status w = None then w\<lparr>status := Some code\<rparr> else w)"

definition writeContentType :: "string list \<Rightarrow> Response \<Rightarrow> Response" where
  "writeContentType val w = (if length (Content_Type w) = 0 then w\<lparr>Content_Type := val\<rparr> else w)"

definition json_content :: "string list" where
  "json_content = [''application/json; charset=utf-8'']"

definition StatusOK :: nat where "StatusOK = 200"
definition StatusBadRequest :: nat where "StatusBadRequest = 400"
definition StatusInternalServerError :: nat where "StatusInternalServerError = 500"

definition writeError :: "string option \<Rightarrow> nat \<Rightarrow> Response \<Rightarrow> Response" where
  "writeError err code w =
     (let w = WriteHeader code (writeContentType json_content w)
      in w\<lparr>body := body w @ [ErrorBody (case err of None \<Rightarrow> ''no error'' | Some msg \<Rightarrow> msg)]\<rparr>)"

text \<open>\<open>sent\<close> is the error of writing the body, if there is one.\<close>

definition writeStat :: "string option \<Rightarrow> Stat \<Rightarrow> nat \<Rightarrow> Response \<Rightarrow> string option \<times> Response" where
  "writeStat sent stat code w =
     (let w = WriteHeader code (writeContentType json_content w)
      in case sent of
        None \<Rightarrow> (None, w\<lparr>body := body w @ [StatBody (Public stat)]\<rparr>)
      | Some err \<Rightarrow> (Some err, w))"

section \<open>Handlers\<close>

text \<open>The exporter with the goroutine of an export and the errors that were sent on error channels and
  wait to be recorded.\<close>

record system =
  exporter :: Exporter
  worker :: worker
  pending :: "export_error option list"

definition statHandler :: "int \<Rightarrow> string option \<Rightarrow> system \<Rightarrow> Response \<times> system" where
  "statHandler now sent s =
     (case GetStat now (exporter s) of
        (Inl err, e) \<Rightarrow>
          (writeError (Some (Error err)) StatusInternalServerError empty_response, s\<lparr>exporter := e\<rparr>)
      | (Inr stat, e) \<Rightarrow> (case writeStat sent stat StatusOK empty_response of
            (None, w) \<Rightarrow> (w, s\<lparr>exporter := e\<rparr>)
          | (Some err, w) \<Rightarrow>
              (writeError (Some err) StatusInternalServerError w, s\<lparr>exporter := e\<rparr>)))"

definition init_error_status :: "export_error \<Rightarrow> nat" where
  "init_error_status err =
     (case err of ValidationError _ \<Rightarrow> StatusBadRequest | PlainError _ \<Rightarrow> StatusInternalServerError)"

text \<open>\<open>quote\<close> is \<open>strconv.Quote\<close>, \<open>keys\<close> the order in which the range loop meets the names of the query.\<close>

definition startHandler ::
    "(string \<Rightarrow> string) \<Rightarrow> string list \<Rightarrow> query \<Rightarrow> os_answers \<Rightarrow> string option \<Rightarrow> system \<Rightarrow>
     Response outcome \<times> system" where
  "startHandler quote keys qp os sent s =
     (case startParams quote keys qp of
        Err msg \<Rightarrow> (Ok (writeError (Some msg) StatusBadRequest empty_response), s)
      | Panic m \<Rightarrow> (Panic m, s)
      | Ok p \<Rightarrow> (case Init os p (exporter s) of
          (Ok (Some err), e) \<Rightarrow>
            (Ok (writeError (Some (Error err)) (init_error_status err) empty_response), s\<lparr>exporter := e\<rparr>)
        | (Ok None, e) \<Rightarrow> (case StartReceiving e of
            (Ok (errs, started), e) \<Rightarrow>
              (let s = s\<lparr>exporter := e, worker := if started then Selecting else worker s,
                   pending := pending s @ errs\<rparr>
               in apfst Ok (statHandler (os_now os) sent s))
          | (Err m, e) \<Rightarrow> (Err m, s\<lparr>exporter := e\<rparr>)
          | (Panic m, e) \<Rightarrow> (Panic m, s\<lparr>exporter := e\<rparr>))
        | (Err m, e) \<Rightarrow> (Err m, s\<lparr>exporter := e\<rparr>)
        | (Panic m, e) \<Rightarrow> (Panic m, s\<lparr>exporter := e\<rparr>)))"

text \<open>\<open>e.params.Clean, err = validateMustBool(clean)\<close> assigns both: an invalid text sets \<open>Clean\<close> to false.\<close>

definition stop_clean ::
    "(string \<Rightarrow> string) \<Rightarrow> string \<Rightarrow> Exporter \<Rightarrow> unit outcome \<times> Exporter" where
  "stop_clean quote clean e =
     (if length clean > 0 \<and> running e
      then case params e of
          None \<Rightarrow> (Panic nil_dereference, e)
        | Some p \<Rightarrow> (case validateMustBool quote clean of
            Ok b \<Rightarrow> (Ok (), e\<lparr>params := Some (p\<lparr>Clean := b\<rparr>)\<rparr>)
          | Err msg \<Rightarrow> (Err msg, e\<lparr>params := Some (p\<lparr>Clean := False\<rparr>)\<rparr>)
          | Panic m \<Rightarrow> (Panic m, e))
      else (Ok (), e))"

definition stopHandler ::
    "(string \<Rightarrow> string) \<Rightarrow> string list \<Rightarrow> query \<Rightarrow> int \<Rightarrow> string option \<Rightarrow> system \<Rightarrow>
     Response outcome \<times> system" where
  "stopHandler quote keys qp now sent s =
     (case unknown_param [''clean''] keys of
        Err msg \<Rightarrow> (Ok (writeError (Some msg) StatusBadRequest empty_response), s)
      | Panic m \<Rightarrow> (Panic m, s)
      | Ok _ \<Rightarrow> (case stop_clean quote (Get qp ''clean'') (exporter s) of
          (Err msg, e) \<Rightarrow> (Ok (writeError (Some msg) StatusBadRequest empty_response), s\<lparr>exporter := e\<rparr>)
        | (Panic m, e) \<Rightarrow> (Panic m, s\<lparr>exporter := e\<rparr>)
        | (Ok _, e) \<Rightarrow> (case StopReceiving e of
            (Ok (Some err), e) \<Rightarrow>
              (Ok (writeError (Some (Error err)) StatusInternalServerError empty_response), s\<lparr>exporter := e\<rparr>)
          | (Ok None, e) \<Rightarrow> apfst Ok (statHandler now sent (s\<lparr>exporter := e\<rparr>))
          | (Err m, e) \<Rightarrow> (Err m, s\<lparr>exporter := e\<rparr>)
          | (Panic m, e) \<Rightarrow> (Panic m, s\<lparr>exporter := e\<rparr>))))"

text \<open>The goroutine that waits for the error of an export records the \<open>i\<close>th of the pending ones.\<close>

definition record_error :: "nat \<Rightarrow> system \<Rightarrow> unit outcome \<times> system" where
  "record_error i s =
     (if i < length (pending s)
      then case Stat (exporter s) of
          None \<Rightarrow> (Panic nil_dereference, s)
        | Some st \<Rightarrow> (Ok (), s\<lparr>pending := take i (pending s) @ drop (Suc i) (pending s),
            exporter := (exporter s)\<lparr>Stat := Some (st\<lparr>Errors := Errors st @ [pending s ! i]\<rparr>)\<rparr>\<rparr>)
      else (Ok (), s))"

section \<open>The server\<close>

text \<open>The address \<open>ListenAndServeHTTP\<close> listens on.\<close>

definition listen_address :: "string \<Rightarrow> string" where
  "listen_address port =
     (let port = (if port = '''' then '':8111'' else port)
      in if \<not> prefix '':'' port then '':'' @ port else port)"

end
