(* ===== verification/Exporter_Runs.thy ===== *)
theory Exporter_Runs
  imports Exporter_Http
begin

text \<open>
  The exporter in operation: requests of clients, lines fed by the trace watcher, steps of the goroutine
  of an export and of the goroutines that record its error, in any order. A call runs from its begin to its end without
  another one in between; \<open>Exporter_Overlap\<close> has calls that overlap.
\<close>

section \<open>Runs\<close>

datatype event =
    StartRequest "string list" query os_answers "string option"
  | StopRequest "string list" query int "string option"
  | StatRequest int "string option"
  | Feed int bytes
  | Work bool write_result os_answers
  | Report nat

text \<open>What the watcher does with a line (\<open>Watch\<close> in \<open>tracelistener.go\<close>); an error is logged.\<close>

definition feed :: "int \<Rightarrow> bytes \<Rightarrow> export_error option exporter_method" where
  "feed now trace e = (if IsAcceptingData e then NonblockingReceive now trace e else (Ok None, e))"

definition done_with :: "'a outcome \<times> system \<Rightarrow> unit outcome \<times> system" where
  "done_with r = apfst (\<lambda>x. and_then x (\<lambda>_. Ok ())) r"

text \<open>A step of the goroutine that has to wait changes nothing. A panic in it ends the program.\<close>

definition work :: "bool \<Rightarrow> write_result \<Rightarrow> os_answers \<Rightarrow> system \<Rightarrow> unit outcome \<times> system" where
  "work prefer_done res os s =
     (case Orchestrate_step prefer_done res os (worker s) (exporter s) of
        None \<Rightarrow> (Ok (), s)
      | Some (w, errs, e) \<Rightarrow>
          ((case w of Crashed m \<Rightarrow> Panic m | _ \<Rightarrow> Ok ()),
           s\<lparr>exporter := e, worker := w, pending := pending s @ errs\<rparr>))"

fun exec :: "(string \<Rightarrow> string) \<Rightarrow> event \<Rightarrow> system \<Rightarrow> unit outcome \<times> system" where
  "exec quote (StartRequest keys qp os sent) s = done_with (startHandler quote keys qp os sent s)"
| "exec quote (StopRequest keys qp now sent) s = done_with (stopHandler quote keys qp now sent s)"
| "exec quote (StatRequest now sent) s = (Ok (), snd (statHandler now sent s))"
| "exec quote (Feed now trace) s =
     (case feed now trace (exporter s) of (r, e) \<Rightarrow> done_with (r, s\<lparr>exporter := e\<rparr>))"
| "exec quote (Work prefer_done res os) s = work prefer_done res os s"
| "exec quote (Report i) s = record_error i s"

text \<open>The traces accepted since the last start: a trace counts when the exporter takes it without error.\<close>

definition starts :: "(string \<Rightarrow> string) \<Rightarrow> string list \<Rightarrow> query \<Rightarrow> os_answers \<Rightarrow> Exporter \<Rightarrow> bool" where
  "starts quote keys qp os e =
     (case startParams quote keys qp of Ok p \<Rightarrow> fst (Init os p e) = Ok None | _ \<Rightarrow> False)"

fun accept :: "(string \<Rightarrow> string) \<Rightarrow> event \<Rightarrow> system \<Rightarrow> bytes list \<Rightarrow> bytes list" where
  "accept quote (StartRequest keys qp os sent) s acc = (if starts quote keys qp os (exporter s) then [] else acc)"
| "accept quote (Feed now trace) s acc =
     (if IsAcceptingData (exporter s) \<and> fst (NonblockingReceive now trace (exporter s)) = Ok None
      then acc @ [trace] else acc)"
| "accept quote _ s acc = acc"

fun run :: "(string \<Rightarrow> string) \<Rightarrow> event list \<Rightarrow> system \<times> bytes list \<Rightarrow> (system \<times> bytes list) outcome" where
  "run quote [] sa = Ok sa"
| "run quote (ev # evs) (s, acc) =
     (case exec quote ev s of
        (Ok _, s') \<Rightarrow> run quote evs (s', accept quote ev s acc)
      | (Err m, s') \<Rightarrow> Err m
      | (Panic m, s') \<Rightarrow> Panic m)"

definition start_system :: "Exporter \<Rightarrow> system" where
  "start_system e = \<lparr>exporter = e, worker = NoWorker, pending = []\<rparr>"

section \<open>The invariant\<close>

definition total_length :: "bytes list \<Rightarrow> int" where
  "total_length ts = sum_list (map (\<lambda>t. int (length t)) ts)"

definition short :: "bytes \<Rightarrow> bool" where
  "short t \<longleftrightarrow> length t < 2 ^ 30"

text \<open>Each trace on a line of its own.\<close>

definition trace_lines :: "bytes list \<Rightarrow> bytes" where
  "trace_lines ts = concat (map (\<lambda>t. t @ [newline]) ts)"

definition limits_ok :: "Params \<Rightarrow> bool" where
  "limits_ok p \<longleftrightarrow> 0 < sint (NumTraces p) \<and> sint (NumTraces p) \<le> 1000000 \<and>
     0 < sint (SizeLim p) \<and> sint (SizeLim p) \<le> 1024000000"

definition within_limits :: "Params \<Rightarrow> Stat \<Rightarrow> bool \<Rightarrow> bytes list \<Rightarrow> bool" where
  "within_limits p st shut acc \<longleftrightarrow>
     int (length acc) \<le> sint (NumTraces p) \<and> (\<not> shut \<longrightarrow> int (length acc) < sint (NumTraces p)) \<and>
     TraceCount st = word_of_int (int (length acc)) \<and> TotalSize st = word_of_int (total_length acc) \<and>
     (list_all short acc \<longrightarrow> (\<not> shut \<longrightarrow> total_length acc < sint (SizeLim p)) \<and>
       (acc \<noteq> [] \<longrightarrow> total_length (butlast acc) < sint (SizeLim p)))"

definition exporting ::
    "Exporter \<Rightarrow> Params \<Rightarrow> Stat \<Rightarrow> trace_chan \<Rightarrow> bool \<Rightarrow> bytes list \<Rightarrow> bool" where
  "exporting e p st ch shut acc \<longleftrightarrow>
     params e = Some p \<and> Stat e = Some st \<and> traceChan e = Some ch \<and> doneChan e = Some shut \<and>
     once e = shut \<and> running e \<and> limits_ok p \<and> within_limits p st shut acc \<and>
     chan_cap ch = nat (sint (NumTraces p)) \<and> length (buffered ch) \<le> length acc"

definition copied :: "Stat \<Rightarrow> trace_chan \<Rightarrow> bytes list \<Rightarrow> bool" where
  "copied st ch acc \<longleftrightarrow> (\<exists>f. LocalFile st = Some f \<and> file_open f \<and>
     file_text f @ trace_lines (buffered ch) = trace_lines acc)"

fun worker_ok :: "worker \<Rightarrow> Stat \<Rightarrow> trace_chan \<Rightarrow> bool \<Rightarrow> bytes list \<Rightarrow> bool" where
  "worker_ok NoWorker st ch shut acc \<longleftrightarrow> True"
| "worker_ok Selecting st ch shut acc \<longleftrightarrow> copied st ch acc"
| "worker_ok Draining st ch shut acc \<longleftrightarrow> shut \<and> copied st ch acc"
| "worker_ok (Handled None) st ch shut acc \<longleftrightarrow> shut \<and> buffered ch = [] \<and> copied st ch acc"
| "worker_ok (Handled (Some err)) st ch shut acc \<longleftrightarrow> (\<exists>f. LocalFile st = Some f \<and> file_open f)"
| "worker_ok (Crashed m) st ch shut acc \<longleftrightarrow> False"

definition sound :: "system \<Rightarrow> bytes list \<Rightarrow> bool" where
  "sound s acc \<longleftrightarrow>
     (pending s \<noteq> [] \<longrightarrow> Stat (exporter s) \<noteq> None) \<and>
     (if running (exporter s)
      then \<exists>p st ch shut. exporting (exporter s) p st ch shut acc \<and> worker_ok (worker s) st ch shut acc
      else worker s = NoWorker \<and> \<not> IsAcceptingData (exporter s))"

lemma total_length_simps [simp]: "total_length [] = 0" "total_length (ts @ [t]) = total_length ts + int (length t)"
  by (simp_all add: total_length_def)

lemma total_length_nonneg: "0 \<le> total_length ts"
  by (induction ts) (simp_all add: total_length_def)

lemma trace_lines_simps [simp]:
  "trace_lines [] = []" "trace_lines (t # ts) = t @ newline # trace_lines ts"
  "trace_lines (ts @ us) = trace_lines ts @ trace_lines us"
  by (simp_all add: trace_lines_def)

text \<open>The frame of the invariant: a change of a statistic that is not a counter or the file.\<close>

lemma exporting_stat:
  assumes "exporting e p st ch shut acc"
    and "TraceCount st' = TraceCount st" "TotalSize st' = TotalSize st"
  shows "exporting (e\<lparr>Stat := Some st'\<rparr>) p st' ch shut acc"
  using assms by (simp add: exporting_def within_limits_def)

lemma worker_ok_stat:
  assumes "worker_ok w st ch shut acc" and "LocalFile st' = LocalFile st"
  shows "worker_ok w st' ch shut acc"
  using assms by (induction w st ch shut acc rule: worker_ok.induct) (auto simp: copied_def)

section \<open>No parser of the query panics\<close>

lemma parse_uint32_total: "parse_uint32 n s \<noteq> Panic m"
  by (induction n s rule: parse_uint32.induct) (auto split: option.splits)

lemma ParseInt32_total: "ParseInt32 quote s \<noteq> Panic m"
  using parse_uint32_total by (auto simp: ParseInt32_def Let_def split: outcome.splits if_splits)

lemma ParseBool_total: "ParseBool quote s \<noteq> Panic m"
  by (simp add: ParseBool_def)

lemma duration_part_total: "duration_part quote orig s \<noteq> Panic m"
  by (auto simp: duration_part_def Let_def case_prod_unfold split: option.splits)

lemma duration_parts_total: "duration_parts quote orig d s \<noteq> Panic m"
proof (induction quote orig d s rule: duration_parts.induct)
  case (1 quote orig d s)
  show ?case
  proof (cases "duration_part quote orig s")
    case (Ok r)
    with 1 show ?thesis by (cases r) (auto simp: duration_parts.simps [of quote orig d s])
  qed (use duration_part_total in \<open>auto simp: duration_parts.simps [of quote orig d s]\<close>)
qed

lemma ParseDuration_total: "ParseDuration quote s \<noteq> Panic m"
  using duration_parts_total by (auto simp: ParseDuration_def Let_def and_then_Panic split: if_splits)

lemma validateMust_total:
  "validateMustBool quote s \<noteq> Panic m" "validateMustDuration quote s \<noteq> Panic m"
  "validateMustIntMustSuffix quote s suf pName \<noteq> Panic m"
  using ParseBool_total ParseDuration_total ParseInt32_total
  by (auto simp: validateMustBool_def validateMustDuration_def validateMustIntMustSuffix_def
      outcome_simps split: outcome.splits)

lemma unknown_param_total: "unknown_param valid keys \<noteq> Panic m"
  by (simp add: unknown_param_def split: list.splits)

lemma optional_total: "optional s none parse = Panic m \<Longrightarrow> parse s = Panic m"
  by (simp add: optional_def split: if_splits)

lemma startParams_total: "startParams quote keys qp \<noteq> Panic m"
proof
  assume "startParams quote keys qp = Panic m"
  then show False
    using unknown_param_total
    by (auto simp: startParams_def and_then_Panic validateMust_total dest!: optional_total)
qed

section \<open>Methods during an export\<close>

lemma limits_step:
  assumes p: "limits_ok p" and w: "within_limits p st False acc"
  shows "within_limits p (counted t st) True (acc @ [t])"
    and "\<not> reachedTraceCount p (counted t st) \<Longrightarrow> \<not> reachedSizeLimit p (counted t st) \<Longrightarrow>
      within_limits p (counted t st) False (acc @ [t])"
proof -
  have count: "TraceCount (counted t st) = word_of_int (int (length (acc @ [t])))"
    and size: "TotalSize (counted t st) = word_of_int (total_length (acc @ [t]))"
    using w by (simp_all add: counted_def within_limits_def wi_hom_add)
  have len: "int (length (acc @ [t])) \<le> sint (NumTraces p)" "sint (NumTraces p) \<le> 1000000"
    using w p by (simp_all add: within_limits_def limits_ok_def)
  have acc: "total_length acc < sint (SizeLim p)" if "list_all short acc"
    using w that by (simp add: within_limits_def)
  show closed: "within_limits p (counted t st) True (acc @ [t])"
    using len(1) count size acc by (simp add: within_limits_def)
  assume not_full: "\<not> reachedTraceCount p (counted t st)" "\<not> reachedSizeLimit p (counted t st)"
  have "sint (TraceCount (counted t st)) = int (length (acc @ [t]))"
    unfolding count using len by (intro sint_small) simp_all
  with not_full(1) p have "int (length (acc @ [t])) < sint (NumTraces p)"
    by (simp add: reachedTraceCount_def limits_ok_def)
  moreover have "total_length (acc @ [t]) < sint (SizeLim p)" if "list_all short (acc @ [t])"
  proof -
    have small: "total_length acc < sint (SizeLim p)" "length t < 2 ^ 30" using that acc by (simp_all add: short_def)
    with p total_length_nonneg [of acc] have "0 \<le> total_length (acc @ [t])" "total_length (acc @ [t]) < 2 ^ 31"
      by (simp_all add: limits_ok_def)
    then have "sint (TotalSize (counted t st)) = total_length (acc @ [t])"
      unfolding size by (rule sint_small)
    with not_full(2) p show ?thesis by (simp add: reachedSizeLimit_def limits_ok_def)
  qed
  ultimately show "within_limits p (counted t st) False (acc @ [t])"
    using closed by (simp add: within_limits_def)
qed

text \<open>Closing the channel for good.\<close>

definition stopped :: "Stat \<Rightarrow> Exporter \<Rightarrow> Exporter" where
  "stopped st e = e\<lparr>once := True, doneChan := Some True,
     Stat := Some (st\<lparr>RunningStatus := ''Stopped receiving traces, processing remaining traces''\<rparr>)\<rparr>"

lemma StopReceiving_open:
  "running e \<Longrightarrow> \<not> once e \<Longrightarrow> doneChan e = Some False \<Longrightarrow> Stat e = Some st \<Longrightarrow>
   StopReceiving e = (Ok None, stopped st e)"
  by (simp add: StopReceiving_alone succeeds_def stopped_def)

lemma within_limits_close: "within_limits p st shut acc \<Longrightarrow> within_limits p st True acc"
  by (simp add: within_limits_def)

lemma worker_ok_close: "worker_ok w st ch shut acc \<Longrightarrow> worker_ok w st ch True acc"
  by (induction w st ch shut acc rule: worker_ok.induct) auto

lemma StopReceiving_exporting:
  assumes "exporting e p st ch shut acc" and "worker_ok w st ch shut acc"
  shows "\<exists>e' st'. StopReceiving e = (Ok None, e') \<and> exporting e' p st' ch True acc \<and>
    worker_ok w st' ch True acc"
proof (cases shut)
  case True
  with assms show ?thesis by (auto simp: StopReceiving_alone succeeds_def exporting_def)
next
  case False
  with assms(1) have "StopReceiving e = (Ok None, stopped st e)"
    by (intro StopReceiving_open) (simp_all add: exporting_def)
  moreover have "exporting (stopped st e) p (the (Stat (stopped st e))) ch True acc"
    using assms(1) by (simp add: exporting_def stopped_def within_limits_def)
  moreover have "worker_ok w (the (Stat (stopped st e))) ch True acc"
    using worker_ok_close [OF assms(2)] by (rule worker_ok_stat) (simp add: stopped_def)
  ultimately show ?thesis by blast
qed

lemma worker_ok_receive:
  assumes "worker_ok w st ch False acc"
    and "LocalFile st' = LocalFile st" "buffered ch' = buffered ch @ [t]"
  shows "worker_ok w st' ch' shut (acc @ [t])"
proof (cases w)
  case (Handled r)
  with assms show ?thesis by (cases r) (auto simp: copied_def)
qed (use assms in \<open>auto simp: copied_def\<close>)

text \<open>While data is accepted there is room in the channel, and the trace is taken.\<close>

lemma NonblockingReceive_exporting:
  assumes e: "exporting e p st ch False acc" and w: "worker_ok w st ch False acc"
  shows "\<exists>e' st' ch' shut. NonblockingReceive now t e = (Ok None, e') \<and>
    exporting e' p st' ch' shut (acc @ [t]) \<and> worker_ok w st' ch' shut (acc @ [t])"
proof -
  define ch' where "ch' = ch\<lparr>buffered := buffered ch @ [t]\<rparr>"
  define st' where "st' = counted t st"
  define e1 where "e1 = e\<lparr>traceChan := Some ch', Stat := Some st'\<rparr>"
  have "int (length acc) < sint (NumTraces p)" "chan_cap ch = nat (sint (NumTraces p))"
    "length (buffered ch) \<le> length acc"
    using e by (simp_all add: exporting_def within_limits_def)
  then have room: "length (buffered ch) < chan_cap ch" by simp
  have open1: "running e1" "\<not> once e1" "doneChan e1 = Some False" "Stat e1 = Some st'"
    using e by (simp_all add: e1_def exporting_def)
  have limits: "limits_ok p" "within_limits p st False acc" using e by (simp_all add: exporting_def)
  define full where "full \<longleftrightarrow> reachedTraceCount p st' \<or> reachedSizeLimit p st' \<or> now - StartTime st' \<ge> Duration p"
  have call: "NonblockingReceive now t e = (if full then StopReceiving e1 else (Ok None, e1))"
    using e room by (simp add: NonblockingReceive_alone IsAcceptingData_def exporting_def succeeds_def
        full_def e1_def st'_def ch'_def)
  have same_file: "LocalFile st' = LocalFile st" by (simp add: st'_def counted_def)
  show ?thesis
  proof (cases full)
    case True
    have "exporting (stopped st' e1) p (the (Stat (stopped st' e1))) ch' True (acc @ [t])"
      using e limits_step(1) [OF limits, of t]
      by (simp add: exporting_def stopped_def e1_def ch'_def within_limits_def st'_def)
    moreover have "worker_ok w (the (Stat (stopped st' e1))) ch' True (acc @ [t])"
      using w by (rule worker_ok_receive) (simp_all add: stopped_def same_file ch'_def)
    moreover have "NonblockingReceive now t e = (Ok None, stopped st' e1)"
      using True call StopReceiving_open [OF open1] by simp
    ultimately show ?thesis by blast
  next
    case False
    then have "within_limits p st' False (acc @ [t])"
      using limits_step(2) [OF limits] by (simp add: full_def st'_def)
    then have "exporting e1 p st' ch' False (acc @ [t])"
      using e by (simp add: exporting_def e1_def ch'_def)
    moreover have "worker_ok w st' ch' False (acc @ [t])"
      using w by (rule worker_ok_receive) (simp_all add: same_file ch'_def)
    ultimately show ?thesis using call False by auto
  qed
qed

section \<open>The goroutine during an export\<close>

lemma receives_Some: "receives c = Some (r, ch') \<longleftrightarrow>
    (\<exists>ch rs. c = Some ch \<and> buffered ch = r # rs \<and> ch' = ch\<lparr>buffered := rs\<rparr>)"
  by (auto simp: receives_def split: option.splits list.splits)

lemma receives_None: "receives c = None \<longleftrightarrow> (\<forall>ch. c = Some ch \<longrightarrow> buffered ch = [])"
  by (auto simp: receives_def split: option.splits list.splits)

lemma take_trace_exporting:
  assumes e: "exporting e p st ch shut acc" and c: "copied st ch acc"
    and w: "w = Selecting \<or> w = Draining \<and> shut"
    and r: "buffered ch = r # rs" and t: "take_trace res w r (ch\<lparr>buffered := rs\<rparr>) e = (w', e')"
  shows "\<exists>st'. exporting e' p st' (ch\<lparr>buffered := rs\<rparr>) shut acc \<and>
    worker_ok w' st' (ch\<lparr>buffered := rs\<rparr>) shut acc"
proof -
  obtain f where f: "LocalFile st = Some f" "file_open f" "file_text f @ trace_lines (r # rs) = trace_lines acc"
    using c r by (auto simp: copied_def)
  define text' where "text' = file_text f @ (case res of Written \<Rightarrow> r @ [newline] | Short n m \<Rightarrow> take n (r @ [newline]))"
  define st' where "st' = st\<lparr>LocalFile := Some (f\<lparr>file_text := text'\<rparr>)\<rparr>"
  have e': "e' = e\<lparr>traceChan := Some (ch\<lparr>buffered := rs\<rparr>), Stat := Some st'\<rparr>"
    and w': "w' = (case res of Written \<Rightarrow> w | Short n m \<Rightarrow>
      Handled (Some (PlainError (''handleTrace: could not write to file, error: '' @ m))))"
    using t e f by (auto simp: take_trace_def exporting_def st'_def text'_def split: write_result.splits)
  have "exporting e' p st' (ch\<lparr>buffered := rs\<rparr>) shut acc"
    using e r by (simp add: exporting_def e' st'_def within_limits_def)
  moreover have "worker_ok w' st' (ch\<lparr>buffered := rs\<rparr>) shut acc"
    using f w by (cases res) (auto simp: w' st'_def text'_def copied_def)
  ultimately show ?thesis by blast
qed

lemma HandleTrace_step_exporting:
  assumes e: "exporting e p st ch shut acc" and w: "worker_ok w st ch shut acc"
    and step: "HandleTrace_step prefer_done res w e = Some (w', e')"
  shows "\<exists>st' ch'. exporting e' p st' ch' shut acc \<and> worker_ok w' st' ch' shut acc"
proof -
  have chan: "traceChan e = Some ch" "doneChan e = Some shut" using e by (simp_all add: exporting_def)
  show ?thesis
  proof (cases "receives (traceChan e)")
    case None
    then have "buffered ch = []" using chan by (simp add: receives_None)
    with None step w chan have "e' = e" "worker_ok w' st ch shut acc"
      by (cases w; force split: if_splits)+
    with e show ?thesis by blast
  next
    case (Some r)
    then obtain t rs where r: "buffered ch = t # rs" "r = (t, ch\<lparr>buffered := rs\<rparr>)"
      using chan by (cases r) (auto simp: receives_Some)
    have "w' = Draining \<and> e' = e \<and> shut \<and> copied st ch acc \<or>
      take_trace res w t (ch\<lparr>buffered := rs\<rparr>) e = (w', e') \<and> copied st ch acc \<and>
        (w = Selecting \<or> w = Draining \<and> shut)"
      using step w chan Some r by (cases w) (auto split: if_splits)
    then show ?thesis
    proof
      assume "w' = Draining \<and> e' = e \<and> shut \<and> copied st ch acc"
      then show ?thesis using e by auto
    next
      assume t: "take_trace res w t (ch\<lparr>buffered := rs\<rparr>) e = (w', e') \<and> copied st ch acc \<and>
        (w = Selecting \<or> w = Draining \<and> shut)"
      with take_trace_exporting [OF e _ _ r(1)] show ?thesis by blast
    qed
  qed
qed

text \<open>\<open>finish\<close> refuses while data is accepted; else it fails to close the file or ends the export.\<close>

lemma finish_exporting:
  assumes e: "exporting e p st ch shut acc" and fin: "finish os e = (r, e')"
  shows "\<not> shut \<and> r = Ok (Some ErrShouldNotAcceptData) \<and> e' = e \<or>
    shut \<and> (\<exists>err f. close_file os (LocalFile st) = (Some err, f) \<and> r = Ok (Some err) \<and>
      e' = e\<lparr>Stat := Some (st\<lparr>LocalFile := f\<rparr>)\<rparr>) \<or>
    shut \<and> (\<exists>f. close_file os (LocalFile st) = (None, f) \<and> r = Ok None \<and>
      e' = e\<lparr>running := False, Stat := Some (st\<lparr>LocalFile := (if Clean p then clean_file os f else f),
        RunningStatus := ''Finished'', RunningTime := os_now os - StartTime st\<rparr>)\<rparr>)"
proof (cases shut)
  case False
  with e fin show ?thesis by (simp add: finish_alone IsAcceptingData_def exporting_def fails_def)
next
  case True
  obtain err f where "close_file os (LocalFile st) = (err, f)" by fastforce
  with True e fin show ?thesis
    by (cases err) (auto simp: finish_alone IsAcceptingData_def exporting_def fails_def succeeds_def
        Let_def)
qed

section \<open>Preservation\<close>

lemma sound_running:
  assumes "exporting e p st ch shut acc" "worker_ok (worker s) st ch shut acc" "exporter s = e"
  shows "sound s acc"
  using assms by (auto simp: sound_def exporting_def)

lemma soundE:
  assumes "sound s acc"
  obtains (Idle) "\<not> running (exporter s)" "worker s = NoWorker" "\<not> IsAcceptingData (exporter s)"
      "pending s \<noteq> [] \<longrightarrow> Stat (exporter s) \<noteq> None"
  | (Running) p st ch shut where "exporting (exporter s) p st ch shut acc" "worker_ok (worker s) st ch shut acc"
  using assms by (auto simp: sound_def split: if_splits)

lemma work_sound:
  assumes "sound s acc" and work: "work prefer_done res os s = (r, s')"
  shows "r = Ok () \<and> sound s' acc"
  using assms(1)
proof (cases rule: soundE)
  case Idle
  with work assms(1) show ?thesis by (auto simp: work_def Orchestrate_step_def)
next
  case (Running p st ch shut)
  show ?thesis
  proof (cases "\<exists>h. worker s = Handled h")
    case False
    then have step: "Orchestrate_step prefer_done res os (worker s) (exporter s) =
        (case HandleTrace_step prefer_done res (worker s) (exporter s) of
          None \<Rightarrow> None | Some (w, e) \<Rightarrow> Some (w, [], e))"
      by (simp add: Orchestrate_step_def split: worker.split)
    show ?thesis
    proof (cases "HandleTrace_step prefer_done res (worker s) (exporter s)")
      case None
      with work step assms(1) show ?thesis by (simp add: work_def)
    next
      case (Some we)
      obtain w e where we: "we = (w, e)" by fastforce
      obtain st' ch' where new: "exporting e p st' ch' shut acc" "worker_ok w st' ch' shut acc"
        using HandleTrace_step_exporting [OF Running Some [unfolded we]] by blast
      have s': "s' = s\<lparr>exporter := e, worker := w\<rparr>" and "r = (case w of Crashed m \<Rightarrow> Panic m | _ \<Rightarrow> Ok ())"
        using work step Some we by (simp_all add: work_def)
      moreover have "sound s' acc" using new by (intro sound_running) (simp_all add: s')
      ultimately show ?thesis using new(2) by (cases w) auto
    qed
  next
    case True
    then obtain h where h: "worker s = Handled h" ..
    obtain q e where fin: "finish os (exporter s) = (q, e)" by fastforce
    note cases = finish_exporting [OF Running(1) fin]
    then obtain err where q: "q = Ok err" by blast
    then have s': "s' = s\<lparr>exporter := e, worker := NoWorker, pending := pending s @ [orchestrated h err]\<rparr>"
      and r: "r = Ok ()"
      using work h fin by (simp_all add: work_def Orchestrate_step_def)
    from cases have "sound s' acc"
    proof (elim disjE conjE exE)
      assume "e = exporter s"
      with Running(1) show ?thesis by (intro sound_running [of e p st ch shut]) (simp_all add: s')
    next
      fix err' f
      assume "e = (exporter s)\<lparr>Stat := Some (st\<lparr>LocalFile := f\<rparr>)\<rparr>"
      with Running(1) exporting_stat [OF Running(1), of "st\<lparr>LocalFile := f\<rparr>"] show ?thesis
        by (intro sound_running [of e p "st\<lparr>LocalFile := f\<rparr>" ch shut]) (simp_all add: s')
    next
      fix f
      assume "shut" and "e = (exporter s)\<lparr>running := False, Stat := Some (st\<lparr>LocalFile := (if Clean p then clean_file os f else f),
        RunningStatus := ''Finished'', RunningTime := os_now os - StartTime st\<rparr>)\<rparr>"
      with Running(1) show ?thesis by (simp add: sound_def s' IsAcceptingData_def exporting_def)
    qed
    with r show ?thesis by simp
  qed
qed

lemma sound_stat:
  assumes "sound s acc" and st: "Stat (exporter s) = Some st"
    and same: "TraceCount st' = TraceCount st" "TotalSize st' = TotalSize st" "LocalFile st' = LocalFile st"
  shows "sound (s\<lparr>pending := q, exporter := (exporter s)\<lparr>Stat := Some st'\<rparr>\<rparr>) acc"
  using assms(1)
proof (cases rule: soundE)
  case Idle
  then show ?thesis by (simp add: sound_def IsAcceptingData_def)
next
  case (Running p st0 ch shut)
  then have "st0 = st" using st by (simp add: exporting_def)
  with Running exporting_stat [OF Running(1)] worker_ok_stat [OF Running(2)] same show ?thesis
    by (intro sound_running) simp_all
qed

lemma statHandler_sound:
  assumes "sound s acc"
  shows "sound (snd (statHandler now sent s)) acc"
proof (cases "Stat (exporter s)")
  case None
  with assms show ?thesis by (simp add: statHandler_def GetStat_def)
next
  case (Some st)
  obtain st' where get: "GetStat now (exporter s) = (Inr st', (exporter s)\<lparr>Stat := Some st'\<rparr>)"
    and same: "TraceCount st' = TraceCount st" "TotalSize st' = TotalSize st" "LocalFile st' = LocalFile st"
    using Some by (auto simp: GetStat_def Let_def)
  have "snd (statHandler now sent s) = s\<lparr>exporter := (exporter s)\<lparr>Stat := Some st'\<rparr>\<rparr>"
    using get by (simp add: statHandler_def split: prod.split option.split)
  with sound_stat [OF assms Some same, of "pending s"] show ?thesis by simp
qed

lemma record_error_sound:
  assumes "sound s acc" and rec: "record_error i s = (r, s')"
  shows "r = Ok () \<and> sound s' acc"
proof (cases "i < length (pending s)")
  case False
  with assms show ?thesis by (simp add: record_error_def)
next
  case True
  then have "pending s \<noteq> []" by auto
  with assms(1) obtain st where st: "Stat (exporter s) = Some st" by (auto simp: sound_def)
  with True rec show ?thesis
    using sound_stat [OF assms(1) st, of "st\<lparr>Errors := Errors st @ [pending s ! i]\<rparr>"]
    by (auto simp: record_error_def)
qed

lemma Init_cases:
  assumes "Init os p e = (r, e')"
  shows "(\<exists>err. r = Ok (Some err)) \<and> e' = e \<or>
    r = Ok None \<and> \<not> running e \<and> valid_params p \<and>
    (\<exists>name. e' = e\<lparr>Stat := Some (Init_stat (os_now os) name), params := Some (normalized p),
       once := False, doneChan := None, traceChan := None\<rparr>)"
  using assms validators_valid [of p]
  by (auto simp: Init_alone fails_def succeeds_def split: if_splits option.splits sum.splits)

lemma StartReceiving_Init:
  assumes run: "\<not> running e" and valid: "valid_params p"
    and e': "e' = e\<lparr>Stat := Some (Init_stat now name), params := Some (normalized p),
       once := False, doneChan := None, traceChan := None\<rparr>"
  shows "\<exists>e'' st. StartReceiving e' = (Ok ([], True), e'') \<and> copied st \<lparr>chan_cap = nat (sint (NumTraces (normalized p))), buffered = []\<rparr> [] \<and>
    exporting e'' (normalized p) st \<lparr>chan_cap = nat (sint (NumTraces (normalized p))), buffered = []\<rparr> False []"
proof -
  have limits: "limits_ok (normalized p)"
    using normalized_NumTraces [OF valid] normalized_SizeLim [OF valid] by (simp add: limits_ok_def)
  define st where "st = (Init_stat now name)\<lparr>RunningStatus := ''Receiving traces''\<rparr>"
  define e'' where "e'' = e'\<lparr>running := True, Stat := Some st,
     traceChan := Some \<lparr>chan_cap = nat (sint (NumTraces (normalized p))), buffered = []\<rparr>, doneChan := Some False\<rparr>"
  have "StartReceiving e' = (Ok ([], True), e'')"
    using run limits by (simp add: StartReceiving_alone succeeds_def e' e''_def st_def limits_ok_def)
  moreover have "copied st \<lparr>chan_cap = nat (sint (NumTraces (normalized p))), buffered = []\<rparr> []"
    by (simp add: copied_def st_def Init_stat_def)
  moreover have "exporting e'' (normalized p) st \<lparr>chan_cap = nat (sint (NumTraces (normalized p))), buffered = []\<rparr> False []"
    using limits by (simp add: exporting_def e''_def e' within_limits_def st_def Init_stat_def limits_ok_def)
  ultimately show ?thesis by blast
qed

lemma startHandler_sound:
  assumes sound: "sound s acc" and start: "startHandler quote keys qp os sent s = (r, s')"
  shows "(\<exists>w. r = Ok w) \<and> sound s' (if starts quote keys qp os (exporter s) then [] else acc)"
proof (cases "startParams quote keys qp")
  case (Ok p)
  obtain q e where init: "Init os p (exporter s) = (q, e)" by fastforce
  from Init_cases [OF init] show ?thesis
  proof
    assume "(\<exists>err. q = Ok (Some err)) \<and> e = exporter s"
    with Ok init start sound show ?thesis by (auto simp: startHandler_def starts_def)
  next
    assume ok: "q = Ok None \<and> \<not> running (exporter s) \<and> valid_params p \<and>
      (\<exists>name. e = (exporter s)\<lparr>Stat := Some (Init_stat (os_now os) name), params := Some (normalized p),
         once := False, doneChan := None, traceChan := None\<rparr>)"
    define ch where "ch = \<lparr>chan_cap = nat (sint (NumTraces (normalized p))), buffered = []\<rparr>"
    obtain e'' st where recv: "StartReceiving e = (Ok ([], True), e'')"
      and new: "copied st ch []" "exporting e'' (normalized p) st ch False []"
      unfolding ch_def using ok StartReceiving_Init by blast
    define s1 where "s1 = s\<lparr>exporter := e'', worker := Selecting\<rparr>"
    have "sound s1 []" using new by (intro sound_running) (simp_all add: s1_def)
    moreover have "s' = snd (statHandler (os_now os) sent s1)" "\<exists>w. r = Ok w"
      using Ok init start ok recv by (auto simp: startHandler_def s1_def Let_def apfst_def map_prod_def
          split: prod.splits)
    moreover have "starts quote keys qp os (exporter s)" using Ok init ok by (simp add: starts_def)
    ultimately show ?thesis using statHandler_sound by auto
  qed
qed (use start sound startParams_total in \<open>auto simp: startHandler_def starts_def\<close>)

lemma stop_clean_sound:
  assumes sound: "sound s acc" and stop: "stop_clean quote clean (exporter s) = (r, e)"
  shows "(\<forall>m. r \<noteq> Panic m) \<and> sound (s\<lparr>exporter := e\<rparr>) acc"
proof (cases "length clean > 0 \<and> running (exporter s)")
  case False
  with stop have "r = Ok ()" "e = exporter s" by (auto simp: stop_clean_def)
  with sound show ?thesis by simp
next
  case True
  from sound obtain p st ch shut where run: "exporting (exporter s) p st ch shut acc"
    and w: "worker_ok (worker s) st ch shut acc"
    using True by (auto simp: sound_def)
  have "(\<forall>m. r \<noteq> Panic m) \<and> (\<exists>b. e = (exporter s)\<lparr>params := Some (p\<lparr>Clean := b\<rparr>)\<rparr>)"
    using stop True run validateMust_total(1) [of quote clean]
    by (auto simp: stop_clean_def exporting_def split: outcome.splits)
  moreover have "sound (s\<lparr>exporter := (exporter s)\<lparr>params := Some (p\<lparr>Clean := b\<rparr>)\<rparr>\<rparr>) acc" for b
    using run w
    by (intro sound_running [of _ "p\<lparr>Clean := b\<rparr>" st ch shut])
      (simp_all add: exporting_def within_limits_def limits_ok_def)
  ultimately show ?thesis by auto
qed

lemma StopReceiving_sound:
  assumes "sound s acc" and stop: "StopReceiving (exporter s) = (r, e)"
  shows "(\<exists>err. r = Ok err) \<and> sound (s\<lparr>exporter := e\<rparr>) acc"
  using assms(1)
proof (cases rule: soundE)
  case Idle
  with stop have "r = Ok (Some ErrExporterNotRunning)" "e = exporter s"
    by (simp_all add: StopReceiving_alone fails_def)
  with assms(1) show ?thesis by simp
next
  case (Running p st ch shut)
  from StopReceiving_exporting [OF Running] stop show ?thesis by (auto intro: sound_running)
qed

lemma stopHandler_sound:
  assumes sound: "sound s acc" and stop: "stopHandler quote keys qp now sent s = (r, s')"
  shows "(\<exists>w. r = Ok w) \<and> sound s' acc"
proof (cases "unknown_param [''clean''] keys")
  case (Ok u)
  obtain q e where clean: "stop_clean quote (Get qp ''clean'') (exporter s) = (q, e)" by fastforce
  note cleaned = stop_clean_sound [OF sound clean]
  obtain q' e' where close: "StopReceiving e = (q', e')" by fastforce
  have closed: "(\<exists>err. q' = Ok err) \<and> sound (s\<lparr>exporter := e'\<rparr>) acc"
    using StopReceiving_sound [OF conjunct2 [OF cleaned]] close by simp
  show ?thesis
  proof (cases "\<exists>u. q = Ok u \<and> q' = Ok None")
    case True
    then have "s' = snd (statHandler now sent (s\<lparr>exporter := e'\<rparr>))" "\<exists>w. r = Ok w"
      using stop Ok clean close by (auto simp: stopHandler_def apfst_def map_prod_def split: prod.splits)
    with closed statHandler_sound show ?thesis by auto
  next
    case False
    with stop Ok clean close cleaned closed show ?thesis
      by (auto simp: stopHandler_def split: outcome.splits option.splits)
  qed
qed (use stop sound unknown_param_total in \<open>auto simp: stopHandler_def\<close>)

lemma feed_sound:
  assumes "sound s acc" and feed: "feed now t (exporter s) = (r, e)"
  shows "r = Ok None \<and> sound (s\<lparr>exporter := e\<rparr>) (accept quote (Feed now t) s acc)"
  using assms(1)
proof (cases rule: soundE)
  case Idle
  with feed have "r = Ok None" "e = exporter s" by (simp_all add: feed_def)
  with assms(1) Idle show ?thesis by simp
next
  case (Running p st ch shut)
  show ?thesis
  proof (cases shut)
    case True
    with Running(1) have "\<not> IsAcceptingData (exporter s)" by (simp add: IsAcceptingData_def exporting_def)
    with feed have "r = Ok None" "e = exporter s" "accept quote (Feed now t) s acc = acc" by (simp_all add: feed_def)
    with assms(1) show ?thesis by simp
  next
    case False
    with Running(1) have "IsAcceptingData (exporter s)" by (simp add: IsAcceptingData_def exporting_def)
    with feed NonblockingReceive_exporting [of "exporter s" p st ch acc "worker s" now t] Running False
    show ?thesis by (auto simp: feed_def intro: sound_running)
  qed
qed

lemma exec_sound:
  assumes sound: "sound s acc" and exec: "exec quote ev s = (r, s')"
  shows "r = Ok () \<and> sound s' (accept quote ev s acc)"
proof (cases ev)
  case (StartRequest keys qp os sent)
  obtain q where "startHandler quote keys qp os sent s = (q, s')" "r = and_then q (\<lambda>_. Ok ())"
    using exec StartRequest by (auto simp: done_with_def apfst_def map_prod_def split: prod.splits)
  with startHandler_sound [OF sound] StartRequest show ?thesis by fastforce
next
  case (StopRequest keys qp now sent)
  obtain q where "stopHandler quote keys qp now sent s = (q, s')" "r = and_then q (\<lambda>_. Ok ())"
    using exec StopRequest by (auto simp: done_with_def apfst_def map_prod_def split: prod.splits)
  with stopHandler_sound [OF sound] StopRequest show ?thesis by fastforce
next
  case (StatRequest now sent)
  with exec statHandler_sound [OF sound] show ?thesis by auto
next
  case (Feed now t)
  obtain q e where "feed now t (exporter s) = (q, e)" by fastforce
  with feed_sound [OF sound this] exec Feed show ?thesis by (auto simp: done_with_def)
next
  case (Work prefer_done res os)
  with exec work_sound [OF sound] show ?thesis by simp
next
  case (Report i)
  with exec record_error_sound [OF sound] show ?thesis by simp
qed

lemma run_sound:
  "sound s acc \<Longrightarrow> \<exists>s' acc'. run quote evs (s, acc) = Ok (s', acc') \<and> sound s' acc'"
proof (induction evs arbitrary: s acc)
  case (Cons ev evs)
  obtain r s' where exec: "exec quote ev s = (r, s')" by fastforce
  with exec_sound [OF Cons.prems exec] Cons.IH show ?case by auto
qed simp

lemma WithLogger_Ok: "WithLogger l e = Ok e' \<longleftrightarrow> (\<exists>l'. l = Some l' \<and> e' = e\<lparr>logger := l'\<rparr>)"
  by (auto simp: WithLogger_def split: option.splits)

lemma options_idle:
  "apply_options (map WithLogger ls) e = Ok e' \<Longrightarrow> \<exists>l. e' = e\<lparr>logger := l\<rparr>"
proof (induction ls arbitrary: e)
  case Nil
  then have "e' = e\<lparr>logger := logger e\<rparr>" by simp
  then show ?case ..
next
  case (Cons l ls)
  then obtain l' where "apply_options (map WithLogger ls) (e\<lparr>logger := l'\<rparr>) = Ok e'"
    by (auto simp: outcome_simps WithLogger_Ok)
  with Cons.IH show ?case by fastforce
qed

lemma New_exporter_sound:
  assumes "New_exporter (map WithLogger ls) = Ok e"
  shows "sound (start_system e) []"
  using options_idle [of ls new_exporter e] assms
  by (auto simp: New_exporter_def sound_def start_system_def new_exporter_def IsAcceptingData_def)

lemma reached_sound:
  assumes "New_exporter (map WithLogger ls) = Ok e" and "run quote evs (start_system e, []) = Ok (s, acc)"
  shows "sound s acc"
  using run_sound [OF New_exporter_sound [OF assms(1)], of quote evs] assms(2) by simp

end
