(* ===== verification/Exporter_Overlap.thy ===== *)
theory Exporter_Overlap
  imports Exporter_Runs
begin

text \<open>
  The exporter when calls of its methods overlap: the HTTP server handles every request in a goroutine of its
  own, the watcher feeds traces in another one, and each export has a third. Here the calls in
  progress take their steps in any interleaving. As long as no start request overlaps another call nothing panics; with one
  that does, and with a stop that comes between the check and the send of a trace, exports go wrong.
\<close>

section \<open>Calls in progress\<close>

datatype request =
    StartExport os_answers Params
  | StopExport "(export_error + bool) option"
  | GetStatistics int
  | FeedTrace int bytes
  | FinishExport os_answers "export_error option"

datatype reply =
    Answer "export_error option"
  | Receiving "export_error option list" bool
  | Statistics "export_error + Stat"
  | Skipped

text \<open>A stop request can come with a parameter \<open>clean\<close>: an error or a value. The assignment sets \<open>Clean\<close> to false when it is
  an error.\<close>

definition set_clean :: "(export_error + bool) option \<Rightarrow> export_error option call" where
  "set_clean clean =
     (case clean of
        None \<Rightarrow> Return None
      | Some parsed \<Rightarrow>
          call_then (reading running) (\<lambda>r.
          if \<not> r then Return None
          else call_then (set_params (\<lambda>p. p\<lparr>Clean := (case parsed of Inl err \<Rightarrow> False | Inr b \<Rightarrow> b)\<rparr>)) (\<lambda>_.
            Return (case parsed of Inl err \<Rightarrow> Some err | Inr b \<Rightarrow> None))))"

text \<open>What the handlers, the watcher and \<open>Orchestrate\<close> call. \<open>GetStat\<close> holds a mutex. (The start handler gets the
  statistics after its calls, as the stop handler does; the goroutine that appends the error of an export to them is
  left out.)\<close>

fun request_call :: "request \<Rightarrow> reply call" where
  "request_call (StartExport os p) =
     call_then (Init_call os p) (\<lambda>err. case err of
       Some err \<Rightarrow> Return (Answer (Some err))
     | None \<Rightarrow> call_then StartReceiving_call (\<lambda>(errs, started). Return (Receiving errs started)))"
| "request_call (StopExport clean) =
     call_then (set_clean clean) (\<lambda>err. case err of
       Some err \<Rightarrow> Return (Answer (Some err))
     | None \<Rightarrow> call_then StopReceiving_call (\<lambda>err. Return (Answer err)))"
| "request_call (GetStatistics now) =
     Atomic (\<lambda>e. case GetStat now e of (r, e') \<Rightarrow> (Return (Statistics r), e'))"
| "request_call (FeedTrace now trace) =
     call_then IsAcceptingData_call (\<lambda>accepting.
     if accepting then call_then (NonblockingReceive_call now trace) (\<lambda>err. Return (Answer err)) else Return Skipped)"
| "request_call (FinishExport os errHandler) =
     call_then (finish_call os) (\<lambda>errFinish. Return (Answer (orchestrated errHandler errFinish)))"

text \<open>The exporter, the calls made so far and the goroutines of the exports started.\<close>

record overlap =
  ov_exporter :: Exporter
  ov_calls :: "(request \<times> reply call) list"
  ov_workers :: "worker list"

text \<open>A call begins, the \<open>i\<close>th call takes its next step, or the \<open>j\<close>th goroutine makes a pass of its loop. (A goroutine
  that waits in a \<open>select\<close> keeps the channels it waits for; here it looks them up at every pass.) A goroutine back from
  \<open>HandleTrace\<close> calls \<open>finish\<close>.\<close>

datatype move = Begin request | Step nat | Pass nat bool write_result os_answers

fun spawned :: "reply call \<Rightarrow> worker list" where
  "spawned (Return (Receiving errs True)) = [Selecting]"
| "spawned c = []"

fun overlap_move :: "move \<Rightarrow> overlap \<Rightarrow> overlap" where
  "overlap_move (Begin r) v = v\<lparr>ov_calls := ov_calls v @ [(r, request_call r)]\<rparr>"
| "overlap_move (Step i) v =
     (if i < length (ov_calls v)
      then case ov_calls v ! i of
          (r, Atomic f) \<Rightarrow> (case f (ov_exporter v) of (c, e) \<Rightarrow>
            v\<lparr>ov_exporter := e, ov_calls := (ov_calls v)[i := (r, c)], ov_workers := ov_workers v @ spawned c\<rparr>)
        | _ \<Rightarrow> v
      else v)"
| "overlap_move (Pass j prefer_done res os) v =
     (if j < length (ov_workers v)
      then case ov_workers v ! j of
          Handled errHandler \<Rightarrow>
            v\<lparr>ov_workers := (ov_workers v)[j := NoWorker],
              ov_calls := ov_calls v @ [(FinishExport os errHandler, request_call (FinishExport os errHandler))]\<rparr>
        | w \<Rightarrow> (case HandleTrace_step prefer_done res w (ov_exporter v) of
            None \<Rightarrow> v
          | Some (w', e) \<Rightarrow> v\<lparr>ov_exporter := e, ov_workers := (ov_workers v)[j := w']\<rparr>)
      else v)"

definition overlapping :: "move list \<Rightarrow> overlap \<Rightarrow> overlap" where
  "overlapping moves v = fold overlap_move moves v"

text \<open>The calls made from a state of the system in which none is in progress.\<close>

definition overlap_from :: "system \<Rightarrow> overlap" where
  "overlap_from s = \<lparr>ov_exporter = exporter s, ov_calls = [], ov_workers = [worker s]\<rparr>"

definition call_panic :: "reply call \<Rightarrow> string list" where
  "call_panic c = (case c of Panics msg \<Rightarrow> [msg] | _ \<Rightarrow> [])"

definition worker_panic :: "worker \<Rightarrow> string list" where
  "worker_panic w = (case w of Crashed msg \<Rightarrow> [msg] | _ \<Rightarrow> [])"

text \<open>A panic of any goroutine ends the program.\<close>

definition panic_messages :: "overlap \<Rightarrow> string list" where
  "panic_messages v = concat (map (call_panic \<circ> snd) (ov_calls v)) @ concat (map worker_panic (ov_workers v))"

text \<open>The traces for which the exporter has returned nil.\<close>

definition accepted_trace :: "request \<times> reply call \<Rightarrow> bytes list" where
  "accepted_trace rc = (case rc of (FeedTrace now trace, Return (Answer None)) \<Rightarrow> [trace] | _ \<Rightarrow> [])"

definition accepted_traces :: "overlap \<Rightarrow> bytes list" where
  "accepted_traces v = concat (map accepted_trace (ov_calls v))"

text \<open>An export has ended without an error: its goroutine sends nil.\<close>

definition nil_sent :: "overlap \<Rightarrow> bool" where
  "nil_sent v \<longleftrightarrow> list_ex (\<lambda>rc. case rc of (FinishExport os err, Return (Answer None)) \<Rightarrow> True | _ \<Rightarrow> False) (ov_calls v)"

text \<open>The text of the file of the export, once it is closed.\<close>

definition closed_text :: "overlap \<Rightarrow> bytes option" where
  "closed_text v =
     (case Stat (ov_exporter v) of
        None \<Rightarrow> None
      | Some st \<Rightarrow> (case LocalFile st of None \<Rightarrow> None | Some f \<Rightarrow> if file_open f then None else Some (file_text f)))"

fun no_start :: "move \<Rightarrow> bool" where
  "no_start (Begin (StartExport os p)) = False"
| "no_start m = True"


section \<open>Calls that do not panic\<close>

text \<open>Once an export was started, the pointers and channels of the exporter are never nil again, as long as no start
  request comes. The call that has claimed the \<open>sync.Once\<close> (\<open>claims\<close>) finds \<open>doneChan\<close> open; any other leaves it
  alone.\<close>

definition initialised :: "Exporter \<Rightarrow> bool" where
  "initialised e \<longleftrightarrow> Stat e \<noteq> None \<and> params e \<noteq> None \<and> traceChan e \<noteq> None \<and> doneChan e \<noteq> None"

definition claim_ok :: "bool \<Rightarrow> Exporter \<Rightarrow> bool" where
  "claim_ok claims e \<longleftrightarrow> (claims \<longrightarrow> once e \<and> doneChan e = Some False)"

definition claim_step :: "bool \<Rightarrow> Exporter \<Rightarrow> bool \<Rightarrow> Exporter \<Rightarrow> bool" where
  "claim_step claims e claims' e' \<longleftrightarrow>
     claims' = claims \<and> once e' = once e \<and> doneChan e' = doneChan e \<or>
     \<not> claims \<and> claims' \<and> \<not> once e \<and> once e' \<and> doneChan e' = doneChan e \<or>
     claims \<and> \<not> claims' \<and> once e' = once e \<and> doneChan e' = Some True"

inductive runs_safely :: "(bool \<Rightarrow> 'a \<Rightarrow> bool) \<Rightarrow> bool \<Rightarrow> 'a call \<Rightarrow> bool" for Q where
  returns: "Q claims x \<Longrightarrow> runs_safely Q claims (Return x)"
| steps: "\<forall>e. initialised e \<and> claim_ok claims e \<longrightarrow>
      (\<exists>claims'. runs_safely Q claims' (fst (f e)) \<and> initialised (snd (f e)) \<and> claim_step claims e claims' (snd (f e))) \<Longrightarrow>
    runs_safely Q claims (Atomic f)"

inductive_simps runs_safely_simps [simp]:
  "runs_safely Q claims (Return x)"
  "runs_safely Q claims (Panics msg)"
  "runs_safely Q claims (Atomic f)"

lemma runs_safely_then:
  assumes "runs_safely R claims c" and "\<And>claims' x. R claims' x \<Longrightarrow> runs_safely Q claims' (k x)"
  shows "runs_safely Q claims (call_then c k)"
  using assms(1)
proof induction
  case (steps claims f)
  then show ?case by fastforce
qed (simp add: assms(2))

subsection \<open>Single steps\<close>

lemma safe_step:
  assumes "\<And>e. initialised e \<Longrightarrow> claim_ok claims e \<Longrightarrow>
    \<exists>c e' claims'. f e = (c, e') \<and> initialised e' \<and> claim_step claims e claims' e' \<and> runs_safely Q claims' (call_then c k)"
  shows "runs_safely Q claims (call_then (Atomic f) k)"
  using assms by fastforce

text \<open>A step that leaves the \<open>sync.Once\<close> and \<open>doneChan\<close> alone.\<close>

lemma safe_other_step:
  assumes "\<And>e. initialised e \<Longrightarrow>
    \<exists>c e'. f e = (c, e') \<and> initialised e' \<and> once e' = once e \<and> doneChan e' = doneChan e \<and> runs_safely Q claims (call_then c k)"
  shows "runs_safely Q claims (call_then (Atomic f) k)"
proof (rule safe_step)
  fix e assume "initialised e"
  from assms [OF this] obtain c e' where "f e = (c, e')" "initialised e'" "once e' = once e" "doneChan e' = doneChan e"
    "runs_safely Q claims (call_then c k)" by blast
  then show "\<exists>c e' claims'. f e = (c, e') \<and> initialised e' \<and> claim_step claims e claims' e' \<and> runs_safely Q claims' (call_then c k)"
    by (auto simp: claim_step_def)
qed

lemma safe_reading:
  "(\<And>x. runs_safely Q claims (k x)) \<Longrightarrow> runs_safely Q claims (call_then (reading f) k)"
  unfolding reading_def by (rule safe_other_step) simp

lemma safe_writing:
  assumes "\<And>e. initialised e \<Longrightarrow> initialised (g e) \<and> once (g e) = once e \<and> doneChan (g e) = doneChan e"
    and "runs_safely Q claims (k ())"
  shows "runs_safely Q claims (call_then (writing g) k)"
  unfolding writing_def by (rule safe_other_step) (use assms in simp)

lemma safe_the_stat:
  "(\<And>st. runs_safely Q claims (k st)) \<Longrightarrow> runs_safely Q claims (call_then the_stat k)"
  unfolding the_stat_def by (rule safe_other_step) (auto simp: initialised_def)

lemma safe_the_params:
  "(\<And>p. runs_safely Q claims (k p)) \<Longrightarrow> runs_safely Q claims (call_then the_params k)"
  unfolding the_params_def by (rule safe_other_step) (auto simp: initialised_def)

lemma safe_set_stat:
  "runs_safely Q claims (k ()) \<Longrightarrow> runs_safely Q claims (call_then (set_stat h) k)"
  unfolding set_stat_def by (rule safe_other_step) (auto simp: initialised_def)

lemma safe_set_params:
  "runs_safely Q claims (k ()) \<Longrightarrow> runs_safely Q claims (call_then (set_params h) k)"
  unfolding set_params_def by (rule safe_other_step) (auto simp: initialised_def)

lemma safe_try_send:
  "(\<And>sent. runs_safely Q claims (k sent)) \<Longrightarrow> runs_safely Q claims (call_then (try_send t) k)"
  unfolding try_send_def by (rule safe_other_step) (auto simp: initialised_def)

lemma safe_close_LocalFile:
  "(\<And>err. runs_safely Q claims (k err)) \<Longrightarrow> runs_safely Q claims (call_then (close_LocalFile os) k)"
  unfolding close_LocalFile_def by (rule safe_other_step) (auto simp: initialised_def split: prod.split)

lemma safe_claim_once:
  assumes "runs_safely Q True (k True)" "runs_safely Q False (k False)"
  shows "runs_safely Q False (call_then claim_once k)"
  unfolding claim_once_def
proof (rule safe_step)
  fix e assume "initialised e"
  with assms show "\<exists>c e' claims'. (Return (\<not> once e), e\<lparr>once := True\<rparr>) = (c, e') \<and> initialised e' \<and>
      claim_step False e claims' e' \<and> runs_safely Q claims' (call_then c k)"
    by (cases "once e") (auto simp: initialised_def claim_step_def)
qed

lemma safe_close_doneChan:
  "runs_safely Q False (k ()) \<Longrightarrow> runs_safely Q True (call_then close_doneChan k)"
  unfolding close_doneChan_def
  by (rule safe_step) (auto simp: initialised_def claim_step_def claim_ok_def)

lemmas safe_steps = safe_reading safe_writing safe_the_stat safe_the_params safe_set_stat safe_set_params
  safe_try_send safe_close_LocalFile safe_claim_once safe_close_doneChan

subsection \<open>The methods\<close>

definition unclaimed :: "bool \<Rightarrow> 'a \<Rightarrow> bool" where
  "unclaimed claims x \<longleftrightarrow> \<not> claims"

lemma runs_safely_seq:
  "runs_safely unclaimed False c \<Longrightarrow> (\<And>x. runs_safely Q False (k x)) \<Longrightarrow> runs_safely Q False (call_then c k)"
  by (rule runs_safely_then [where R = unclaimed]) (simp_all add: unclaimed_def)

lemma safe_last_reading: "(\<And>x. Q claims x) \<Longrightarrow> runs_safely Q claims (reading f)"
  by (auto simp: reading_def claim_step_def intro!: exI [of _ claims])

lemma set_clean_safe: "runs_safely unclaimed False (set_clean clean)"
  by (auto simp: set_clean_def unclaimed_def split: option.split intro!: safe_steps)

lemma GetStatistics_safe: "runs_safely unclaimed False (request_call (GetStatistics now))"
  by (auto simp: GetStat_def Let_def unclaimed_def initialised_def claim_step_def)

lemma StopReceiving_safe: "runs_safely unclaimed False StopReceiving_call"
  by (auto simp: StopReceiving_call_def unclaimed_def intro!: safe_steps)

lemma IsAcceptingData_safe: "runs_safely unclaimed False IsAcceptingData_call"
  by (auto simp: IsAcceptingData_call_def unclaimed_def intro!: safe_steps
      safe_last_reading)

lemma stat_reached_safe: "runs_safely unclaimed False (stat_reached cond)"
  by (auto simp: stat_reached_def unclaimed_def intro!: safe_steps)

lemma NonblockingReceive_safe: "runs_safely unclaimed False (NonblockingReceive_call now t)"
  unfolding NonblockingReceive_call_def
  by (auto simp: unclaimed_def intro!: runs_safely_seq [OF IsAcceptingData_safe] runs_safely_seq [OF stat_reached_safe]
      StopReceiving_safe safe_steps)

lemma setRunning_safe: "runs_safely unclaimed False (setRunning_call b)"
  by (auto simp: setRunning_call_def unclaimed_def initialised_def intro!: safe_steps)

lemma finish_safe: "runs_safely unclaimed False (finish_call os)"
  unfolding finish_call_def
  by (auto simp: unclaimed_def split: option.split intro!: runs_safely_seq [OF IsAcceptingData_safe]
      runs_safely_seq [OF setRunning_safe] safe_steps)

lemma request_safe:
  "no_start (Begin r) \<Longrightarrow> runs_safely unclaimed False (request_call r)"
  using GetStatistics_safe
  by (cases r) (auto simp: unclaimed_def simp del: runs_safely_simps(3) split: option.split intro!: runs_safely_seq [OF set_clean_safe] runs_safely_seq [OF StopReceiving_safe]
      runs_safely_seq [OF IsAcceptingData_safe] runs_safely_seq [OF NonblockingReceive_safe] runs_safely_seq [OF finish_safe])

section \<open>No panic without a start request\<close>

text \<open>\<open>holder\<close> is the call that has claimed the \<open>sync.Once\<close> and not yet closed the channel.\<close>

definition quiet :: "nat option \<Rightarrow> overlap \<Rightarrow> bool" where
  "quiet holder v \<longleftrightarrow>
     initialised (ov_exporter v) \<and> (\<not> once (ov_exporter v) \<longrightarrow> doneChan (ov_exporter v) = Some False) \<and>
     (\<forall>i. holder = Some i \<longrightarrow> i < length (ov_calls v)) \<and> claim_ok (holder \<noteq> None) (ov_exporter v) \<and>
     (\<forall>i < length (ov_calls v). runs_safely unclaimed (holder = Some i) (snd (ov_calls v ! i))) \<and>
     (\<forall>w \<in> set (ov_workers v). worker_panic w = [])"

lemma quiet_begin:
  assumes "quiet holder v" "runs_safely unclaimed False (request_call r)"
  shows "quiet holder (v\<lparr>ov_calls := ov_calls v @ [(r, request_call r)]\<rparr>)"
proof -
  have "holder \<noteq> Some (length (ov_calls v))" using assms(1) by (auto simp: quiet_def)
  with assms show ?thesis by (auto simp: quiet_def nth_append less_Suc_eq)
qed

lemma spawned_panic: "w \<in> set (spawned c) \<Longrightarrow> worker_panic w = []"
  by (cases c rule: spawned.cases) (simp_all add: worker_panic_def)

lemma quiet_step:
  assumes quiet: "quiet holder v" and i: "i < length (ov_calls v)" "ov_calls v ! i = (r, Atomic f)"
    and f: "f (ov_exporter v) = (c, e)"
  shows "\<exists>holder. quiet holder (v\<lparr>ov_exporter := e, ov_calls := (ov_calls v)[i := (r, c)],
    ov_workers := ov_workers v @ spawned c\<rparr>)"
proof -
  have "runs_safely unclaimed (holder = Some i) (snd (ov_calls v ! i))" using quiet i(1) by (simp add: quiet_def)
  then have safe: "runs_safely unclaimed (holder = Some i) (Atomic f)" by (simp only: i(2) snd_conv)
  have "claim_ok (holder = Some i) (ov_exporter v)" "initialised (ov_exporter v)"
    using quiet by (auto simp: quiet_def claim_ok_def)
  with safe have "\<exists>claims'. runs_safely unclaimed claims' c \<and> initialised e \<and>
      claim_step (holder = Some i) (ov_exporter v) claims' e"
    using f by (simp only: runs_safely_simps) (metis fst_conv snd_conv)
  then obtain claims' where
    step: "runs_safely unclaimed claims' c" "initialised e" "claim_step (holder = Some i) (ov_exporter v) claims' e"
    by blast
  define holder' where "holder' = (if claims' then Some i else if holder = Some i then None else holder)"
  have others: "runs_safely unclaimed (holder' = Some j) (snd (ov_calls v ! j))"
    if "j < length (ov_calls v)" "j \<noteq> i" for j
  proof -
    have "holder = None \<or> holder = Some i" if "claims'"
      using that step(3) quiet by (auto simp: claim_step_def quiet_def claim_ok_def)
    then have "holder' = Some j \<longleftrightarrow> holder = Some j" using \<open>j \<noteq> i\<close> by (auto simp: holder'_def)
    with quiet that show ?thesis by (auto simp: quiet_def)
  qed
  have this_one: "runs_safely unclaimed (holder' = Some i) c" using step(1) by (cases claims') (simp_all add: holder'_def)
  have "(\<not> once e \<longrightarrow> doneChan e = Some False) \<and> claim_ok (holder' \<noteq> None) e"
    using step(3) quiet by (auto simp: claim_step_def claim_ok_def quiet_def holder'_def)
  with others this_one step(2) quiet i(1) have "quiet holder' (v\<lparr>ov_exporter := e, ov_calls := (ov_calls v)[i := (r, c)],
      ov_workers := ov_workers v @ spawned c\<rparr>)"
    by (auto simp: quiet_def nth_list_update spawned_panic holder'_def)
  then show ?thesis ..
qed

lemma HandleTrace_step_quiet:
  assumes "initialised e" "HandleTrace_step prefer_done res w e = Some (w', e')"
  shows "initialised e' \<and> once e' = once e \<and> doneChan e' = doneChan e \<and> worker_panic w' = []"
  using assms
  by (cases w) (auto simp: initialised_def take_trace_def Let_def worker_panic_def
      split: option.splits prod.splits if_splits)

lemma quiet_pass:
  assumes "quiet holder v" "initialised e" "once e = once (ov_exporter v)" "doneChan e = doneChan (ov_exporter v)"
    and "worker_panic w = []"
  shows "quiet holder (v\<lparr>ov_exporter := e, ov_workers := (ov_workers v)[j := w]\<rparr>)"
proof -
  have "set ((ov_workers v)[j := w]) \<subseteq> insert w (set (ov_workers v))" by (rule set_update_subset_insert)
  with assms show ?thesis by (auto simp: quiet_def claim_ok_def)
qed

lemma quiet_handled:
  assumes "quiet holder v" and w: "w = Selecting \<or> w = Draining \<or> w = NoWorker \<or> (\<exists>msg. w = Crashed msg)"
    and j: "j < length (ov_workers v)" "ov_workers v ! j = w"
  shows "quiet holder (overlap_move (Pass j prefer_done res os) v)"
proof (cases "HandleTrace_step prefer_done res w (ov_exporter v)")
  case None
  with assms show ?thesis by (auto simp del: HandleTrace_step.simps)
next
  case (Some we)
  obtain w' e where we: "we = (w', e)" by fastforce
  have "initialised (ov_exporter v)" using assms(1) by (simp add: quiet_def)
  from HandleTrace_step_quiet [OF this Some [unfolded we]] quiet_pass [OF assms(1)]
  have "quiet holder (v\<lparr>ov_exporter := e, ov_workers := (ov_workers v)[j := w']\<rparr>)" by blast
  then show ?thesis using Some we w j by (auto simp del: HandleTrace_step.simps)
qed

lemma quiet_move:
  assumes "quiet holder v" "no_start m"
  shows "\<exists>holder. quiet holder (overlap_move m v)"
proof (cases m)
  case (Begin r)
  with assms quiet_begin [OF assms(1) request_safe] show ?thesis by auto
next
  case (Step i)
  show ?thesis
  proof (cases "\<exists>r f. i < length (ov_calls v) \<and> ov_calls v ! i = (r, Atomic f)")
    case True
    then obtain r f where i: "i < length (ov_calls v)" "ov_calls v ! i = (r, Atomic f)" by blast
    obtain c e where f: "f (ov_exporter v) = (c, e)" by fastforce
    from quiet_step [OF assms(1) i f] i f Step show ?thesis by simp
  next
    case False
    then have "overlap_move m v = v" using Step by (auto split: call.split prod.split)
    with assms(1) show ?thesis by metis
  qed
next
  case (Pass j prefer_done res os)
  consider "\<not> j < length (ov_workers v)" | h where "j < length (ov_workers v)" "ov_workers v ! j = Handled h"
    | "j < length (ov_workers v)" "\<forall>h. ov_workers v ! j \<noteq> Handled h" by blast
  then show ?thesis
  proof cases
    case 1
    with Pass assms(1) show ?thesis by auto
  next
    case (2 h)
    let ?v = "v\<lparr>ov_exporter := ov_exporter v, ov_workers := (ov_workers v)[j := NoWorker]\<rparr>"
    have "quiet holder ?v"
      by (rule quiet_pass) (use assms(1) in \<open>simp_all add: quiet_def worker_panic_def\<close>)
    from quiet_begin [OF this request_safe, of "FinishExport os h"] 2 Pass show ?thesis by auto
  next
    case 3
    then have "ov_workers v ! j = Selecting \<or> ov_workers v ! j = Draining \<or> ov_workers v ! j = NoWorker \<or>
      (\<exists>msg. ov_workers v ! j = Crashed msg)" by (cases "ov_workers v ! j") auto
    from quiet_handled [OF assms(1) this 3(1) refl] Pass show ?thesis by blast
  qed
qed

lemma quiet_no_panic:
  assumes "quiet holder v"
  shows "panic_messages v = []"
proof -
  have "call_panic (snd rc) = []" if "rc \<in> set (ov_calls v)" for rc
  proof -
    obtain i where "i < length (ov_calls v)" "rc = ov_calls v ! i" using \<open>rc \<in> set (ov_calls v)\<close> by (auto simp: in_set_conv_nth)
    then have "runs_safely unclaimed (holder = Some i) (snd rc)" using assms by (simp add: quiet_def)
    then show ?thesis by (cases "snd rc") (auto simp: call_panic_def simp del: runs_safely_simps(3))
  qed
  with assms show ?thesis by (auto simp: panic_messages_def quiet_def)
qed

text \<open>A call that is turned away by an exporter that is not running.\<close>

inductive turned_away :: "Exporter \<Rightarrow> reply call \<Rightarrow> bool" for e where
  "spawned (Return x) = [] \<Longrightarrow> turned_away e (Return x)"
| "f e = (c, e) \<Longrightarrow> turned_away e c \<Longrightarrow> turned_away e (Atomic f)"

inductive_simps turned_away_simps [simp]:
  "turned_away e (Return x)"
  "turned_away e (Panics msg)"
  "turned_away e (Atomic f)"

lemma request_turned_away:
  assumes "\<not> running e" "\<not> IsAcceptingData e" "no_start (Begin r)"
  shows "turned_away e (request_call r)"
proof (cases r)
  case (StopExport clean)
  with assms show ?thesis by (cases clean) (simp_all add: set_clean_def StopReceiving_call_def reading_def)
next
  case (FeedTrace now t)
  with assms(2) show ?thesis
    by (auto simp: IsAcceptingData_call_def IsAcceptingData_def reading_def split: option.splits)
next
  case (FinishExport os h)
  with assms show ?thesis by (simp add: finish_call_def reading_def)
next
  case (GetStatistics now)
  with assms(1) show ?thesis by (cases e) (auto simp: GetStat_def split: option.split)
qed (use assms in simp)

definition idle_calls :: "Exporter \<Rightarrow> overlap \<Rightarrow> bool" where
  "idle_calls e v \<longleftrightarrow> ov_exporter v = e \<and> (\<forall>rc \<in> set (ov_calls v). turned_away e (snd rc)) \<and>
     set (ov_workers v) \<subseteq> {NoWorker}"

lemma turned_away_spawned: "turned_away e c \<Longrightarrow> spawned c = []"
  by (erule turned_away.cases) simp_all

lemma idle_move:
  assumes idle: "\<not> running e" "\<not> IsAcceptingData e" and v: "idle_calls e v" and m: "no_start m"
  shows "idle_calls e (overlap_move m v)"
proof (cases m)
  case (Begin r)
  with v m request_turned_away [OF idle] show ?thesis by (simp add: idle_calls_def)
next
  case (Step i)
  show ?thesis
  proof (cases "\<exists>r f. i < length (ov_calls v) \<and> ov_calls v ! i = (r, Atomic f)")
    case True
    then obtain r f where i: "i < length (ov_calls v)" "ov_calls v ! i = (r, Atomic f)" by blast
    then have "(r, Atomic f) \<in> set (ov_calls v)" by (metis nth_mem)
    with v have "turned_away e (Atomic f)" by (fastforce simp: idle_calls_def)
    then obtain c where c: "f e = (c, e)" "turned_away e c" by auto
    have "set ((ov_calls v)[i := (r, c)]) \<subseteq> insert (r, c) (set (ov_calls v))" by (rule set_update_subset_insert)
    with c v i Step turned_away_spawned [OF c(2)] show ?thesis by (auto simp: idle_calls_def)
  next
    case False
    then have "overlap_move m v = v" using Step by (auto split: call.split prod.split)
    with v show ?thesis by simp
  qed
next
  case (Pass j prefer_done res os)
  have "ov_workers v ! j = NoWorker" if "j < length (ov_workers v)"
    using v nth_mem [OF that] unfolding idle_calls_def by blast
  with v Pass show ?thesis by auto
qed

lemma idle_no_panic: "idle_calls e v \<Longrightarrow> panic_messages v = []"
proof -
  assume v: "idle_calls e v"
  have "call_panic c = []" if "turned_away e c" for c
    using that by (cases rule: turned_away.cases) (simp_all add: call_panic_def)
  with v show ?thesis by (auto simp: panic_messages_def idle_calls_def worker_panic_def)
qed

lemma overlap_no_panic:
  assumes "sound s acc" "list_all no_start moves"
  shows "panic_messages (overlapping moves (overlap_from s)) = []"
  using assms(1)
proof (cases rule: soundE)
  case Idle
  have "idle_calls (exporter s) (fold overlap_move moves v)" if "idle_calls (exporter s) v" for v
    using that assms(2) Idle idle_move by (induction moves arbitrary: v) auto
  moreover have "idle_calls (exporter s) (overlap_from s)" using Idle by (simp add: idle_calls_def overlap_from_def)
  ultimately show ?thesis unfolding overlapping_def by (blast intro: idle_no_panic)
next
  case (Running p st ch shut)
  have "\<exists>holder. quiet holder (fold overlap_move moves v)" if "quiet holder v" for holder v
    using that assms(2)
  proof (induction moves arbitrary: holder v)
    case (Cons m moves)
    then have "no_start m" "list_all no_start moves" by simp_all
    with quiet_move [OF Cons.prems(1)] obtain holder' where "quiet holder' (overlap_move m v)" by blast
    with Cons.IH \<open>list_all no_start moves\<close> show ?case by simp
  qed auto
  moreover have "worker_panic (worker s) = []" using Running(2) by (cases "worker s") (simp_all add: worker_panic_def)
  then have "quiet None (overlap_from s)"
    using Running(1) by (auto simp: quiet_def overlap_from_def exporting_def initialised_def claim_ok_def)
  ultimately show ?thesis unfolding overlapping_def by (blast intro: quiet_no_panic)
qed

end
