(* ===== verification/Exporter_Ends.thy ===== *)
theory Exporter_Ends
  imports Exporter_Overlap
begin

text \<open>
  How exports end: the work left to the goroutine once receiving was stopped, exports that never end, and
  the properties of the exporter over all runs.
\<close>

section \<open>After the end of an export was called\<close>

definition is_work :: "event \<Rightarrow> bool" where
  "is_work ev = (case ev of Work prefer_done res os \<Rightarrow> True | _ \<Rightarrow> False)"

definition closes_file :: "event \<Rightarrow> bool" where
  "closes_file ev = (case ev of Work prefer_done res os \<Rightarrow> CloseFile os = None | _ \<Rightarrow> True)"

text \<open>What the goroutine has still to do when \<open>n\<close> traces are in the channel.\<close>

fun steps_left :: "worker \<Rightarrow> nat \<Rightarrow> nat" where
  "steps_left Selecting n = n + 3"
| "steps_left Draining n = n + 2"
| "steps_left (Handled r) n = 1"
| "steps_left w n = 0"

definition stopping :: "system \<Rightarrow> trace_chan \<Rightarrow> bool" where
  "stopping s ch \<longleftrightarrow> running (exporter s) \<and> doneChan (exporter s) = Some True \<and> once (exporter s) \<and>
     traceChan (exporter s) = Some ch \<and> (\<exists>st p. Stat (exporter s) = Some st \<and> params (exporter s) = Some p)"

lemma statHandler_frame:
  "\<exists>q. snd (statHandler now sent s) = s\<lparr>exporter := (exporter s)\<lparr>Stat := q\<rparr>\<rparr> \<and> (q = None \<longleftrightarrow> Stat (exporter s) = None)"
proof (cases "Stat (exporter s)")
  case None
  then have "snd (statHandler now sent s) = s\<lparr>exporter := (exporter s)\<lparr>Stat := None\<rparr>\<rparr>"
    by (simp add: statHandler_def GetStat_def)
  with None show ?thesis by blast
next
  case (Some st)
  then have "\<exists>st'. snd (statHandler now sent s) = s\<lparr>exporter := (exporter s)\<lparr>Stat := Some st'\<rparr>\<rparr>"
    by (auto simp: statHandler_def GetStat_def Let_def split: prod.splits option.splits)
  with Some show ?thesis by auto
qed

lemma stopping_stat:
  "stopping s ch \<Longrightarrow> stopping (snd (statHandler now sent s)) ch \<and> worker (snd (statHandler now sent s)) = worker s"
  using statHandler_frame [of now sent s] by (auto simp: stopping_def)

text \<open>No request and no line disturbs the goroutine then.\<close>

lemma startHandler_running:
  assumes "running (exporter s)"
  shows "snd (startHandler quote keys qp os sent s) = s"
proof -
  have "Init os p (exporter s) = (Ok (Some ErrExporterRunning), exporter s)" for p
    using assms by (simp add: Init_alone fails_def)
  then show ?thesis by (simp add: startHandler_def split: outcome.split)
qed

lemma stopHandler_frame:
  assumes "stopping s ch"
  shows "stopping (snd (stopHandler quote keys qp now sent s)) ch \<and>
    worker (snd (stopHandler quote keys qp now sent s)) = worker s"
proof -
  obtain q e where clean: "stop_clean quote (Get qp ''clean'') (exporter s) = (q, e)" by fastforce
  have new: "stopping (s\<lparr>exporter := e\<rparr>) ch"
    using clean assms by (auto simp: stop_clean_def stopping_def split: if_splits outcome.splits)
  then have "StopReceiving e = (Ok None, e)" by (simp add: StopReceiving_alone stopping_def succeeds_def)
  with clean have "snd (stopHandler quote keys qp now sent s) \<in>
      {s, s\<lparr>exporter := e\<rparr>, snd (statHandler now sent (s\<lparr>exporter := e\<rparr>))}"
    by (auto simp: stopHandler_def apfst_def map_prod_def split: outcome.splits prod.splits)
  with assms new stopping_stat [OF new, of now sent] show ?thesis by auto
qed

lemma exec_stopping:
  assumes "stopping s ch" and ev: "\<not> is_work ev"
  shows "stopping (snd (exec quote ev s)) ch \<and> worker (snd (exec quote ev s)) = worker s"
proof (cases ev)
  case (StartRequest keys qp os sent)
  with assms startHandler_running [of s] show ?thesis
    by (simp add: done_with_def apfst_def stopping_def)
next
  case (StopRequest keys qp now sent)
  with stopHandler_frame [OF assms(1)] show ?thesis by (simp add: done_with_def apfst_def)
next
  case (StatRequest now sent)
  with stopping_stat [OF assms(1)] show ?thesis by simp
next
  case (Feed now t)
  with assms have "feed now t (exporter s) = (Ok None, exporter s)"
    by (simp add: feed_def IsAcceptingData_def stopping_def)
  with assms Feed show ?thesis by (simp add: done_with_def)
next
  case (Report i)
  with assms show ?thesis by (auto simp: record_error_def stopping_def)
qed (use ev in \<open>simp add: is_work_def\<close>)

lemma take_trace_frame:
  "take_trace res w r ch e = (w', e') \<Longrightarrow> Stat e = Some st \<Longrightarrow>
   (w' = w \<or> (\<exists>h. w' = Handled h)) \<and> traceChan e' = Some ch \<and> running e' = running e \<and>
   doneChan e' = doneChan e \<and> once e' = once e \<and> params e' = params e \<and> (\<exists>st'. Stat e' = Some st')"
  by (auto simp: take_trace_def Let_def split: prod.splits option.splits)

lemma HandleTrace_step_progress:
  assumes "stopping s ch" and w: "w = Selecting \<or> w = Draining"
  shows "\<exists>w' e' ch'. HandleTrace_step prefer_done res w (exporter s) = Some (w', e') \<and>
    w' \<noteq> NoWorker \<and> stopping (s\<lparr>exporter := e', worker := w', pending := q\<rparr>) ch' \<and>
    steps_left w' (length (buffered ch')) < steps_left w (length (buffered ch))"
proof -
  obtain st where chan: "traceChan (exporter s) = Some ch" "doneChan (exporter s) = Some True"
    "Stat (exporter s) = Some st"
    using assms(1) by (auto simp: stopping_def)
  show ?thesis
  proof (cases "buffered ch")
    case Nil
    with chan w assms(1) show ?thesis by (auto simp: receives_def stopping_def)
  next
    case (Cons r rs)
    obtain w' e' where t: "take_trace res w r (ch\<lparr>buffered := rs\<rparr>) (exporter s) = (w', e')" by fastforce
    note frame = take_trace_frame [OF t chan(3)]
    with assms(1) have "stopping (s\<lparr>exporter := e', worker := w', pending := q\<rparr>) (ch\<lparr>buffered := rs\<rparr>)"
      by (auto simp: stopping_def)
    moreover have "w' \<noteq> NoWorker" "steps_left w' (length rs) < steps_left w (length (buffered ch))"
      using frame w Cons by auto
    moreover have "stopping (s\<lparr>exporter := exporter s, worker := Draining, pending := q\<rparr>) ch"
      using assms(1) by (simp add: stopping_def)
    moreover have "HandleTrace_step prefer_done res w (exporter s) = Some (w', e') \<or>
      w = Selecting \<and> HandleTrace_step prefer_done res w (exporter s) = Some (Draining, exporter s)"
      using w chan t Cons by (auto simp: receives_def)
    ultimately show ?thesis by fastforce
  qed
qed

lemma work_progress:
  assumes "sound s acc" and stop: "stopping s ch" and w: "worker s \<noteq> NoWorker" and os: "CloseFile os = None"
  shows "\<not> running (exporter (snd (work prefer_done res os s))) \<or>
    (\<exists>ch'. stopping (snd (work prefer_done res os s)) ch' \<and> worker (snd (work prefer_done res os s)) \<noteq> NoWorker \<and>
      steps_left (worker (snd (work prefer_done res os s))) (length (buffered ch')) <
      steps_left (worker s) (length (buffered ch)))"
proof -
  obtain p st where run: "exporting (exporter s) p st ch True acc" and ok: "worker_ok (worker s) st ch True acc"
    using assms by (fastforce simp: sound_def stopping_def exporting_def)
  show ?thesis
  proof (cases "worker s")
    case (Handled h)
    with ok have f: "\<exists>f. LocalFile st = Some f \<and> file_open f" by (cases h) (auto simp: copied_def)
    obtain r e where fin: "finish os (exporter s) = (r, e)" by fastforce
    have "r = Ok None \<and> \<not> running e"
      using finish_exporting [OF run fin] f os by (auto simp: close_file_def)
    with Handled fin show ?thesis by (simp add: work_def Orchestrate_step_def)
  next
    case (Crashed m)
    with ok show ?thesis by simp
  next
    case Selecting
    with HandleTrace_step_progress [OF stop, of "worker s" prefer_done res "pending s"] show ?thesis
      by (force simp: work_def Orchestrate_step_def)
  next
    case Draining
    with HandleTrace_step_progress [OF stop, of "worker s" prefer_done res "pending s"] show ?thesis
      by (force simp: work_def Orchestrate_step_def)
  qed (use w in simp)
qed

lemma run_stopping:
  assumes "sound s acc" "stopping s ch" "worker s \<noteq> NoWorker" "list_all closes_file evs"
    and "length (filter is_work evs) \<ge> steps_left (worker s) (length (buffered ch))"
  shows "\<exists>k\<le>length evs. \<exists>s' acc'. run quote (take k evs) (s, acc) = Ok (s', acc') \<and> \<not> running (exporter s')"
  using assms
proof (induction evs arbitrary: s acc ch)
  case Nil
  then show ?case by (cases "worker s") (auto simp: sound_def stopping_def)
next
  case (Cons ev evs)
  obtain r s' where exec: "exec quote ev s = (r, s')" by fastforce
  from exec_sound [OF Cons.prems(1) exec] have r: "r = Ok ()" and sound: "sound s' (accept quote ev s acc)"
    by simp_all
  have first: "run quote (take (Suc k) (ev # evs)) (s, acc) = run quote (take k evs) (s', accept quote ev s acc)" for k
    using exec r by simp
  have "\<not> running (exporter s') \<or> (\<exists>ch'. stopping s' ch' \<and> worker s' \<noteq> NoWorker \<and>
      length (filter is_work evs) \<ge> steps_left (worker s') (length (buffered ch')))"
  proof (cases "is_work ev")
    case True
    then obtain prefer_done res os where ev: "ev = Work prefer_done res os"
      by (cases ev) (auto simp: is_work_def)
    with Cons.prems(4) have "CloseFile os = None" by (simp add: closes_file_def)
    from work_progress [OF Cons.prems(1-3) this, of prefer_done res] exec ev
    have "\<not> running (exporter s') \<or> (\<exists>ch'. stopping s' ch' \<and> worker s' \<noteq> NoWorker \<and>
        steps_left (worker s') (length (buffered ch')) < steps_left (worker s) (length (buffered ch)))" by simp
    with Cons.prems(5) True show ?thesis by fastforce
  next
    case False
    with exec_stopping [OF Cons.prems(2) False, of quote] exec Cons.prems show ?thesis by fastforce
  qed
  then show ?case
  proof
    assume "\<not> running (exporter s')"
    with first [of 0] show ?thesis by (intro exI [of _ 1]) auto
  next
    assume "\<exists>ch'. stopping s' ch' \<and> worker s' \<noteq> NoWorker \<and>
      length (filter is_work evs) \<ge> steps_left (worker s') (length (buffered ch'))"
    then obtain ch' where "stopping s' ch'" "worker s' \<noteq> NoWorker"
      "length (filter is_work evs) \<ge> steps_left (worker s') (length (buffered ch'))" by blast
    from Cons.IH [OF sound this(1,2) _ this(3)] Cons.prems(4)
    obtain k s'' acc'' where "k \<le> length evs" "run quote (take k evs) (s', accept quote ev s acc) = Ok (s'', acc'')"
      "\<not> running (exporter s'')" by auto
    with first [of k] show ?thesis by (intro exI [of _ "Suc k"]) auto
  qed
qed

section \<open>Exports that never end\<close>

text \<open>A goroutine that has gone while the exporter runs is never replaced.\<close>

definition wedged :: "system \<Rightarrow> bool" where
  "wedged s \<longleftrightarrow> running (exporter s) \<and> worker s = NoWorker"

lemma StopReceiving_running: "StopReceiving e = (r, e') \<Longrightarrow> running e' = running e"
  by (auto simp: StopReceiving_alone fails_def succeeds_def Let_def split: if_splits option.splits bool.splits)

lemma stop_clean_running: "stop_clean quote clean e = (r, e') \<Longrightarrow> running e' = running e"
  by (auto simp: stop_clean_def split: if_splits option.splits outcome.splits)

lemma NonblockingReceive_running: "NonblockingReceive now t e = (r, e') \<Longrightarrow> running e' = running e"
  by (auto simp: NonblockingReceive_alone fails_def succeeds_def Let_def dest!: StopReceiving_running
      split: if_splits option.splits)

lemma wedged_stat: "wedged s \<Longrightarrow> wedged (snd (statHandler now sent s))"
  using statHandler_frame [of now sent s] by (auto simp: wedged_def)

lemma wedged_stop:
  assumes "wedged s"
  shows "wedged (snd (stopHandler quote keys qp now sent s))"
proof -
  obtain q e where clean: "stop_clean quote (Get qp ''clean'') (exporter s) = (q, e)" by fastforce
  obtain q' e' where close: "StopReceiving e = (q', e')" by fastforce
  have "running e" "running e'"
    using stop_clean_running [OF clean] StopReceiving_running [OF close] assms by (simp_all add: wedged_def)
  then have "wedged (s\<lparr>exporter := e\<rparr>)" "wedged (s\<lparr>exporter := e'\<rparr>)" using assms by (simp_all add: wedged_def)
  moreover have "snd (stopHandler quote keys qp now sent s) \<in>
      {s, s\<lparr>exporter := e\<rparr>, s\<lparr>exporter := e'\<rparr>, snd (statHandler now sent (s\<lparr>exporter := e'\<rparr>))}"
    using clean close by (auto simp: stopHandler_def apfst_def map_prod_def split: outcome.splits prod.splits option.splits)
  ultimately show ?thesis using assms wedged_stat by auto
qed

lemma exec_wedged:
  assumes "wedged s"
  shows "wedged (snd (exec quote ev s))"
proof (cases ev)
  case (StartRequest keys qp os sent)
  with assms startHandler_running [of s] show ?thesis by (simp add: done_with_def apfst_def wedged_def)
next
  case (StopRequest keys qp now sent)
  with wedged_stop [OF assms] show ?thesis by (simp add: done_with_def apfst_def)
next
  case (StatRequest now sent)
  with wedged_stat [OF assms] show ?thesis by simp
next
  case (Feed now t)
  with assms NonblockingReceive_running show ?thesis
    by (fastforce simp: feed_def done_with_def wedged_def split: prod.split)
next
  case (Work prefer_done res os)
  with assms show ?thesis by (simp add: work_def wedged_def Orchestrate_step_def)
next
  case (Report i)
  with assms show ?thesis by (auto simp: record_error_def wedged_def split: option.split)
qed

lemma run_wedged: "wedged s \<Longrightarrow> run quote evs (s, acc) = Ok (s', acc') \<Longrightarrow> wedged s'"
proof (induction evs arbitrary: s acc)
  case (Cons ev evs)
  obtain r s1 where exec: "exec quote ev s = (r, s1)" by fastforce
  with exec_wedged [OF Cons.prems(1), of quote ev] have "wedged s1" by simp
  with Cons exec show ?case by (cases r) auto
qed simp

section \<open>A nil error means a complete file\<close>


lemma exec_Work_sound:
  assumes "sound s acc"
  obtains s' where "exec quote (Work c res os) s = (Ok (), s')" "sound s' acc"
proof -
  obtain r s' where w: "work c res os s = (r, s')" by (rule prod.exhaust)
  have "r = Ok ()" "sound s' acc" using work_sound [OF assms w] by blast+
  with w show thesis by (intro that [of s']) simp_all
qed

lemma failed_write:
  assumes "sound s acc" "worker s = Selecting" "IsAcceptingData (exporter s)"
    and "traceChan (exporter s) = Some ch" "buffered ch \<noteq> []"
    and s1: "s1 = snd (exec quote (Work c (Short n msg) os) s)"
  shows "running (exporter s1) \<and> IsAcceptingData (exporter s1) \<and> (\<exists>h. worker s1 = Handled h)"
  using assms(1)
proof (cases rule: soundE)
  case (Running p st ch' shut)
  obtain r rs where r: "buffered ch = r # rs" using assms(5) by (cases "buffered ch") auto
  obtain f where "LocalFile st = Some f" "file_open f" using Running(2) assms(2) by (auto simp: copied_def)
  then show ?thesis using Running(1) assms(2-4) r
    by (auto simp: s1 work_def Orchestrate_step_def receives_def take_trace_def exporting_def IsAcceptingData_def
        split: option.splits)
qed (use assms(2) in simp)

lemma early_finish:
  assumes "sound s acc" and h: "running (exporter s) \<and> IsAcceptingData (exporter s) \<and> (\<exists>h. worker s = Handled h)"
  shows "wedged (snd (exec quote (Work c res os) s))"
proof -
  obtain p st ch shut where run: "exporting (exporter s) p st ch shut acc"
    using assms by (auto simp: sound_def)
  have "finish os (exporter s) = (Ok (Some ErrShouldNotAcceptData), exporter s)"
    using h by (simp add: finish_alone fails_def)
  then show ?thesis using h by (auto simp: work_def Orchestrate_step_def wedged_def)
qed

section \<open>A run of an export\<close>

text \<open>An export of two traces, for which the operating system refuses nothing.\<close>

definition calm :: os_answers where
  "calm = \<lparr>os_now = 0, os_date = ''2022-03-01-10:00:00'', TempFile = (\<lambda>pattern. Inr ''/tmp/export.txt''),
     CloseFile = None, OpenFile = None, NotExist = False\<rparr>"

definition two_traces :: event where
  "two_traces = StartRequest [''count''] [(''count'', [''2N''])] calm None"

definition two_params :: Params where
  "two_params = \<lparr>NumTraces = 2, SizeLim = 0, Duration = 0, Upload = False, Clean = False, FileId = []\<rparr>"

definition two_export :: "int32 \<Rightarrow> bytes \<Rightarrow> bool \<Rightarrow> string \<Rightarrow> bytes list \<Rightarrow> bool \<Rightarrow> int32 \<Rightarrow> Exporter" where
  "two_export n written open_yet msg queue shut sz = new_exporter\<lparr>running := open_yet, params := Some (normalized two_params),
     Stat := Some \<lparr>StartTime = 0, RunningTime = 0, TotalSize = sz, TraceCount = n,
       LocalFile = Some \<lparr>file_name = ''/tmp/export.txt'', file_open = open_yet, file_text = written\<rparr>,
       RunningStatus = msg, Errors = []\<rparr>,
     traceChan := Some \<lparr>chan_cap = 2, buffered = queue\<rparr>, doneChan := Some shut, once := shut\<rparr>"

lemma two_params_parsed: "startParams id [''count''] [(''count'', [''2N''])] = Ok two_params"
  by (simp add: startParams_def unknown_param_def optional_def Get_def validateMustIntMustSuffix_def suffix_def
      TrimSuffix_def ParseInt32_def digit_value_def two_params_def)

lemma two_params_valid: "runParamValidators two_params Init_validators = None"
  by (simp add: validators_valid valid_params_def two_params_def Hour_def Minute_def Second_def
      Millisecond_def Microsecond_def Nanosecond_def)

lemma two_params_normalized:
  "NumTraces (normalized two_params) = 2" "SizeLim (normalized two_params) = 1024000000"
  "Duration (normalized two_params) = 24 * Hour" "Clean (normalized two_params) = False"
  by (simp_all add: normalized_def two_params_def MaxSizeLim_def Million_def MaxDuration_def)

lemma new_exporter_fields: "running new_exporter = False" "once new_exporter = False"
  by (simp_all add: new_exporter_def)

lemma calm_file: "createFile calm n sz d fid = Inr ''/tmp/export.txt''"
  by (simp add: createFile_def calm_def)

lemma calm_fields: "CloseFile calm = None" "OpenFile calm = None" "os_now calm = 0"
  by (simp_all add: calm_def)

lemma two_params_Init:
  "Init calm two_params new_exporter = (Ok None, new_exporter\<lparr>Stat := Some (Init_stat 0 ''/tmp/export.txt''),
     params := Some (normalized two_params), once := False, doneChan := None, traceChan := None\<rparr>)"
proof -
  have "\<not> running new_exporter" by (simp add: new_exporter_def)
  then show ?thesis by (simp add: Init_alone two_params_valid calm_file calm_fields succeeds_def)
qed

lemma two_traces_start:
  "exec id two_traces (start_system new_exporter) =
     (Ok (), \<lparr>exporter = two_export 0 [] True ''Receiving traces'' [] False 0, worker = Selecting, pending = []\<rparr>)"
  by (simp add: two_traces_def done_with_def startHandler_def two_params_parsed start_system_def two_params_Init
      StartReceiving_alone succeeds_def Init_stat_def statHandler_def GetStat_def writeStat_def
      two_export_def two_params_normalized new_exporter_fields calm_fields Let_def)

lemma two_traces_starts: "starts id [''count''] [(''count'', [''2N''])] calm new_exporter"
  by (simp add: starts_def two_params_parsed two_params_Init)

lemma two_export_feed:
  assumes "n = 0"
  shows "exec id (Feed 0 [65]) \<lparr>exporter = two_export n f True msg [] False 0, worker = w, pending = q\<rparr> =
     (Ok (), \<lparr>exporter = two_export 1 f True msg [[65]] False 1, worker = w, pending = q\<rparr>)"
  using assms
  by (simp add: feed_def done_with_def NonblockingReceive_alone IsAcceptingData_def two_export_def two_params_normalized
      counted_def reachedTraceCount_def reachedSizeLimit_def succeeds_def Hour_def Minute_def Second_def
      Millisecond_def Microsecond_def Nanosecond_def Let_def)

definition stop_msg :: string where
  "stop_msg = ''Stopped receiving traces, processing remaining traces''"

lemma two_export_stop:
  "exec id (StopRequest [] [] 0 None) \<lparr>exporter = two_export n f True msg q False sz, worker = w, pending = []\<rparr> =
     (Ok (), \<lparr>exporter = two_export n f True stop_msg q True sz, worker = w, pending = []\<rparr>)"
  by (simp add: done_with_def stopHandler_def unknown_param_def stop_clean_def Get_def StopReceiving_alone succeeds_def
      two_export_def statHandler_def GetStat_def writeStat_def stop_msg_def Let_def)

lemma two_export_work:
  "exec id (Work True res os) \<lparr>exporter = two_export n f True msg (t # q) True sz, worker = Selecting, pending = []\<rparr> =
     (Ok (), \<lparr>exporter = two_export n f True msg (t # q) True sz, worker = Draining, pending = []\<rparr>)"
  "exec id (Work c Written os) \<lparr>exporter = two_export n f True msg (t # q) True sz, worker = Draining, pending = []\<rparr> =
     (Ok (), \<lparr>exporter = two_export n (f @ t @ [newline]) True msg q True sz, worker = Draining, pending = []\<rparr>)"
  "exec id (Work c res os) \<lparr>exporter = two_export n f True msg [] True sz, worker = Draining, pending = []\<rparr> =
     (Ok (), \<lparr>exporter = two_export n f True msg [] True sz, worker = Handled None, pending = []\<rparr>)"
  by (simp_all add: work_def Orchestrate_step_def take_trace_def receives_def two_export_def Let_def)

definition fed :: "event list" where
  "fed = [two_traces, Feed 0 [65]]"

definition written :: "event list" where
  "written = fed @ [StopRequest [] [] 0 None, Work True Written calm, Work True Written calm, Work True Written calm]"

lemma run_append: "run quote (xs @ ys) sa = (case run quote xs sa of
    Ok sa' \<Rightarrow> run quote ys sa' | Err m \<Rightarrow> Err m | Panic m \<Rightarrow> Panic m)"
  by (induction quote xs sa rule: run.induct) (auto split: outcome.splits prod.splits)

lemma run_fed:
  "run id fed (start_system new_exporter, []) =
     Ok (\<lparr>exporter = two_export 1 [] True ''Receiving traces'' [[65]] False 1, worker = Selecting, pending = []\<rparr>, [[65]])"
proof -
  have first: "accept id two_traces (start_system new_exporter) [] = []" by (simp add: two_traces_def)
  have second: "accept id (Feed 0 [65]) \<lparr>exporter = two_export 0 [] True ''Receiving traces'' [] False 0, worker = Selecting, pending = []\<rparr> [] = [[65]]"
    by (simp add: NonblockingReceive_alone IsAcceptingData_def two_export_def two_params_normalized counted_def reachedTraceCount_def
        reachedSizeLimit_def succeeds_def Hour_def Minute_def Second_def Millisecond_def Microsecond_def Nanosecond_def Let_def)
  show ?thesis
    by (simp add: fed_def two_traces_start two_export_feed first second del: exec.simps accept.simps)
qed

lemma run_written:
  "run id written (start_system new_exporter, []) =
     Ok (\<lparr>exporter = two_export 1 [65, newline] True stop_msg [] True 1, worker = Handled None, pending = []\<rparr>, [[65]])"
  by (simp add: written_def run_append run_fed two_export_stop two_export_work del: exec.simps)


section \<open>Runs in which calls overlap\<close>

text \<open>A stop request comes after \<open>StartReceiving\<close> has set \<open>running\<close> and before it has made \<open>doneChan\<close>.\<close>

definition early_stop :: "move list" where
  "early_stop = Begin (StartExport calm two_params) # replicate 15 (Step 0) @
     Begin (StopExport None) # replicate 3 (Step 1)"

lemma early_stop_panics:
  "panic_messages (overlapping early_stop (overlap_from (start_system (new_exporter\<lparr>logger := l\<rparr>)))) =
     [''close of nil channel'']"
  by code_simp





lemma New_exporter_logger:
  assumes "New_exporter (map WithLogger ls) = Ok e"
  obtains l where "e = new_exporter\<lparr>logger := l\<rparr>"
  using options_idle [of ls new_exporter e] assms by (auto simp: New_exporter_def)

section \<open>Properties\<close>

text \<open>C27. Whatever requests come, whatever lines are fed and however the goroutines are scheduled, nothing in the exporter
  panics if each call is handled before the next, and while it accepts data the channel has room, so a trace is
  taken. From any state reached so, nothing panics either when calls overlap in any interleaving of their steps, as
  long as none is a start request. But there is an interleaving of a start and a stop request in which the stop
  request closes a nil channel, which panics.\<close>

theorem exporter_never_panics:
  assumes "New_exporter (map WithLogger ls) = Ok e"
  shows "(\<exists>s acc. run quote evs (start_system e, []) = Ok (s, acc) \<and>
      (IsAcceptingData (exporter s) \<longrightarrow> (\<exists>e'. NonblockingReceive now t (exporter s) = (Ok None, e'))) \<and>
      (\<forall>moves. list_all no_start moves \<longrightarrow> panic_messages (overlapping moves (overlap_from s)) = [])) \<and>
    (\<exists>moves. ''close of nil channel'' \<in> set (panic_messages (overlapping moves (overlap_from (start_system e)))))"
proof
  obtain s acc where run: "run quote evs (start_system e, []) = Ok (s, acc)" and sound: "sound s acc"
    using run_sound [OF New_exporter_sound [OF assms]] by blast
  from sound have "\<exists>e'. NonblockingReceive now t (exporter s) = (Ok None, e')" if "IsAcceptingData (exporter s)"
  proof (cases rule: soundE)
    case (Running p st ch shut)
    then have "\<not> shut" using that by (simp add: exporting_def IsAcceptingData_def)
    with Running NonblockingReceive_exporting [of "exporter s" p st ch acc "worker s"] show ?thesis by auto
  qed (use that in simp)
  with run overlap_no_panic [OF sound] show "\<exists>s acc. run quote evs (start_system e, []) = Ok (s, acc) \<and>
      (IsAcceptingData (exporter s) \<longrightarrow> (\<exists>e'. NonblockingReceive now t (exporter s) = (Ok None, e'))) \<and>
      (\<forall>moves. list_all no_start moves \<longrightarrow> panic_messages (overlapping moves (overlap_from s)) = [])" by blast
  obtain l where "e = new_exporter\<lparr>logger := l\<rparr>" by (rule New_exporter_logger [OF assms])
  with early_stop_panics have "''close of nil channel'' \<in> set (panic_messages (overlapping early_stop (overlap_from (start_system e))))"
    by simp
  then show "\<exists>moves. ''close of nil channel'' \<in> set (panic_messages (overlapping moves (overlap_from (start_system e))))" ..
qed

lemma exporter_never_panics_witness:
  "\<exists>s acc. run id fed (start_system new_exporter, []) = Ok (s, acc) \<and>
    (IsAcceptingData (exporter s) \<longrightarrow> (\<exists>e'. NonblockingReceive 0 [66] (exporter s) = (Ok None, e'))) \<and>
    panic_messages (overlapping [Begin (StopExport None), Begin (FeedTrace 0 [66]), Step 1, Step 0, Step 0] (overlap_from s)) = []"
proof -
  have e: "New_exporter (map WithLogger []) = Ok new_exporter" by (simp add: New_exporter_def)
  obtain s acc where s: "run id fed (start_system new_exporter, []) = Ok (s, acc)"
    "IsAcceptingData (exporter s) \<longrightarrow> (\<exists>e'. NonblockingReceive 0 [66] (exporter s) = (Ok None, e'))"
    "\<forall>moves. list_all no_start moves \<longrightarrow> panic_messages (overlapping moves (overlap_from s)) = []"
    using exporter_never_panics [OF e, of id fed 0 "[66]"] by blast
  then have "panic_messages (overlapping [Begin (StopExport None), Begin (FeedTrace 0 [66]), Step 1, Step 0, Step 0] (overlap_from s)) = []"
    by simp
  with s(1,2) show ?thesis by blast
qed





text \<open>C29. Once receiving was stopped an export whose goroutine has not ended yet ends, if each call is handled before the
  next and closing the file does not fail: after as many steps of its goroutine as there are traces in the
  channel and three more, whatever else happens in between and whatever the writes return, the exporter is not running any more.\<close>

theorem stopped_export_ends:
  assumes "New_exporter (map WithLogger ls) = Ok e"
    and "run quote evs (start_system e, []) = Ok (s, acc)"
    and "worker s \<noteq> NoWorker" "doneChan (exporter s) = Some True" "traceChan (exporter s) = Some ch"
    and "list_all closes_file later" "length (filter is_work later) \<ge> length (buffered ch) + 3"
  shows "\<exists>k\<le>length later. \<exists>s' acc'. run quote (take k later) (s, acc) = Ok (s', acc') \<and> \<not> running (exporter s')"
proof -
  note sound = reached_sound [OF assms(1,2)]
  then have "stopping s ch" using assms(3-5) by (auto simp: sound_def stopping_def exporting_def split: if_splits)
  moreover have "steps_left (worker s) (length (buffered ch)) \<le> length (filter is_work later)"
    using assms(7) by (cases "worker s") simp_all
  ultimately show ?thesis using run_stopping [OF sound] assms(3,6) by blast
qed

lemma stopped_export_ends_witness:
  "\<exists>k s acc. run id (take k (replicate 3 (Work True Written calm)))
      (\<lparr>exporter = two_export 1 [65, newline] True stop_msg [] True 1, worker = Handled None, pending = []\<rparr>, [[65]]) = Ok (s, acc) \<and>
    \<not> running (exporter s)"
proof -
  let ?e = "two_export 1 [65, newline] True stop_msg [] True 1"
  let ?later = "replicate 3 (Work True Written calm)"
  have e: "New_exporter (map WithLogger []) = Ok new_exporter" by (simp add: New_exporter_def)
  have "doneChan ?e = Some True" "traceChan ?e = Some \<lparr>chan_cap = 2, buffered = []\<rparr>"
    by (simp_all add: two_export_def)
  moreover have "list_all closes_file ?later" by (simp add: list_all_iff closes_file_def calm_fields)
  moreover have "length (filter is_work ?later) = 3" by (simp add: is_work_def)
  ultimately have "\<exists>k\<le>length ?later. \<exists>s' acc'. run id (take k ?later)
      (\<lparr>exporter = ?e, worker = Handled None, pending = []\<rparr>, [[65]]) = Ok (s', acc') \<and> \<not> running (exporter s')"
    by (intro stopped_export_ends [OF e run_written, of "\<lparr>chan_cap = 2, buffered = []\<rparr>"])
      (simp_all only: system.simps trace_chan.simps worker.simps list.size add_0 order_refl not_False_eq_True)
  then show ?thesis by blast
qed

text \<open>C31. When a write fails while data is accepted, the goroutine ends without ending the export: whatever follows,
  the exporter says it runs, and no export can be started again.\<close>

theorem write_error_wedges:
  assumes "New_exporter (map WithLogger ls) = Ok e"
    and "run quote evs (start_system e, []) = Ok (s, acc)"
    and "worker s = Selecting" "IsAcceptingData (exporter s)"
    and "traceChan (exporter s) = Some ch" "buffered ch \<noteq> []"
    and "run quote (Work c (Short n msg) os # Work c' res' os' # later) (s, acc) = Ok (s', acc')"
  shows "running (exporter s') \<and> worker s' = NoWorker \<and>
    Init os'' p (exporter s') = (Ok (Some ErrExporterRunning), exporter s')"
proof -
  obtain s1 where s1: "exec quote (Work c (Short n msg) os) s = (Ok (), s1)" "sound s1 acc"
    by (rule exec_Work_sound [OF reached_sound [OF assms(1,2)]])
  obtain s2 where s2: "exec quote (Work c' res' os') s1 = (Ok (), s2)" "sound s2 acc"
    by (rule exec_Work_sound [OF s1(2)])
  have "running (exporter s1) \<and> IsAcceptingData (exporter s1) \<and> (\<exists>h. worker s1 = Handled h)"
    using failed_write [OF reached_sound [OF assms(1,2)] assms(3-6) refl,
        where quote = quote and c = c and n = n and msg = msg and os = os] s1 by simp
  then have "wedged s2" using early_finish [OF s1(2), where quote = quote and c = c' and res = res' and os = os'] s2 by simp
  moreover have "run quote later (s2, acc) = Ok (s', acc')" using assms(7) s1 s2 by (simp del: exec.simps)
  ultimately have "wedged s'" by (rule run_wedged)
  then show ?thesis by (simp add: wedged_def Init_alone fails_def)
qed

definition failing :: "event list" where
  "failing = Work False (Short 0 ''no space left on device'') calm # Work False Written calm # [two_traces]"

lemma write_error_wedges_witness:
  "\<exists>s acc. run id failing (\<lparr>exporter = two_export 1 [] True ''Receiving traces'' [[65]] False 1, worker = Selecting, pending = []\<rparr>, [[65]]) =
      Ok (s, acc) \<and> running (exporter s) \<and> worker s = NoWorker"
proof -
  let ?s = "\<lparr>exporter = two_export 1 [] True ''Receiving traces'' [[65]] False 1, worker = Selecting, pending = []\<rparr>"
  have e: "New_exporter (map WithLogger []) = Ok new_exporter" by (simp add: New_exporter_def)
  have "sound ?s [[65]]" by (rule reached_sound [OF e run_fed])
  then obtain s acc where run: "run id failing (?s, [[65]]) = Ok (s, acc)" using run_sound by blast
  have s: "IsAcceptingData (exporter ?s)" "traceChan (exporter ?s) = Some \<lparr>chan_cap = 2, buffered = [[65]]\<rparr>"
    by (simp_all add: two_export_def IsAcceptingData_def)
  have "running (exporter s) \<and> worker s = NoWorker \<and> Init calm two_params (exporter s) = (Ok (Some ErrExporterRunning), exporter s)"
    by (rule write_error_wedges [OF e run_fed _ s _ run [unfolded failing_def]]) simp_all
  with run show ?thesis by blast
qed

text \<open>The same happens when the file cannot be closed: nothing ends the export any more.\<close>

lemma close_error_wedges:
  assumes "New_exporter (map WithLogger ls) = Ok e"
    and "run quote evs (start_system e, []) = Ok (s, acc)"
    and "worker s = Handled h" "\<not> IsAcceptingData (exporter s)" "CloseFile os = Some err"
    and "run quote (Work c res os # later) (s, acc) = Ok (s', acc')"
  shows "running (exporter s') \<and> worker s' = NoWorker"
proof -
  note sound = reached_sound [OF assms(1,2)]
  obtain s1 where s1: "exec quote (Work c res os) s = (Ok (), s1)" "sound s1 acc" by (rule exec_Work_sound [OF sound])
  from sound have "wedged s1"
  proof (cases rule: soundE)
    case (Running p st ch shut)
    obtain r e1 where fin: "finish os (exporter s) = (r, e1)" by fastforce
    have "\<exists>f. LocalFile st = Some f \<and> file_open f"
      using Running(2) assms(3) by (cases h) (auto simp: copied_def)
    then have "running e1"
      using fin Running(1) assms(4,5) by (auto simp: finish_alone exporting_def close_file_def fails_def)
    moreover from finish_exporting [OF Running(1) fin] obtain err' where "r = Ok err'" by blast
    ultimately show ?thesis
      using s1(1) fin assms(3) by (auto simp: work_def Orchestrate_step_def wedged_def)
  qed (use assms(3) in simp)
  moreover have "run quote later (s1, acc) = Ok (s', acc')" using assms(6) s1 by (simp del: exec.simps)
  ultimately have "wedged s'" by (rule run_wedged)
  then show ?thesis by (simp add: wedged_def)
qed

text \<open>C32. A start request whose \<open>StartReceiving\<close> comes after another export was started and stopped begins an export that
  no stop request ends: \<open>StopReceiving\<close> reports success and the exporter goes on accepting data, because the
  \<open>sync.Once\<close> was used up.\<close>

theorem second_start_never_stops:
  assumes "StopReceiving e = (Ok None, e1)" and "finish os e1 = (Ok None, e2)"
    and "StartReceiving e2 = (Ok ([], True), e3)"
  shows "StopReceiving e3 = (Ok None, e3) \<and> IsAcceptingData e3"
proof -
  have "once e1" using assms(1)
    by (auto simp: StopReceiving_alone fails_def succeeds_def Let_def split: if_splits option.splits bool.splits)
  then have "once e2" using assms(2)
    by (auto simp: finish_alone fails_def succeeds_def Let_def split: if_splits option.splits prod.splits)
  then show ?thesis using assms(3)
    by (auto simp: StartReceiving_alone fails_def succeeds_def StopReceiving_alone IsAcceptingData_def Let_def
        split: if_splits option.splits)
qed

lemma second_start_never_stops_witness:
  "\<exists>e. StopReceiving e = (Ok None, e) \<and> IsAcceptingData e"
proof -
  let ?e1 = "two_export 1 [65, newline] True stop_msg [] True 1"
  let ?e2 = "two_export 1 [65, newline] False ''Finished'' [] True 1"
  have "StopReceiving ?e1 = (Ok None, ?e1)" by (simp add: StopReceiving_alone two_export_def succeeds_def)
  moreover have "finish calm ?e1 = (Ok None, ?e2)"
    by (simp add: finish_alone IsAcceptingData_def two_export_def two_params_normalized close_file_def
        calm_def succeeds_def Let_def)
  moreover have "\<exists>e3. StartReceiving ?e2 = (Ok ([], True), e3)"
    by (simp add: StartReceiving_alone two_export_def succeeds_def two_params_normalized Let_def)
  then obtain e3 where "StartReceiving ?e2 = (Ok ([], True), e3)" ..
  ultimately have "StopReceiving e3 = (Ok None, e3) \<and> IsAcceptingData e3"
    by (rule second_start_never_stops)
  then show ?thesis ..
qed

end
