(* ===== verification/Command_Line.thy ===== *)
theory Command_Line
  imports Go_Lib
begin

text \<open>
  Flags of a command line, as the package \<open>flag\<close> hands them over: the values that were given, and the
  defaults for the others.
\<close>

record given_flags =
  given_string :: "string \<Rightarrow> string option"
  given_int :: "string \<Rightarrow> int option"
  given_bool :: "string \<Rightarrow> bool option"

definition StringVar :: "given_flags \<Rightarrow> string \<Rightarrow> string \<Rightarrow> string" where
  "StringVar g name dflt = (case given_string g name of None \<Rightarrow> dflt | Some v \<Rightarrow> v)"

definition IntVar :: "given_flags \<Rightarrow> string \<Rightarrow> int \<Rightarrow> int" where
  "IntVar g name dflt = (case given_int g name of None \<Rightarrow> dflt | Some v \<Rightarrow> v)"

definition BoolVar :: "given_flags \<Rightarrow> string \<Rightarrow> bool \<Rightarrow> bool" where
  "BoolVar g name dflt = (case given_bool g name of None \<Rightarrow> dflt | Some v \<Rightarrow> v)"

text \<open>A command line without flags.\<close>

definition no_flags :: given_flags where
  "no_flags = \<lparr>given_string = (\<lambda>_. None), given_int = (\<lambda>_. None), given_bool = (\<lambda>_. None)\<rparr>"

lemma no_flags_defaults [simp]:
  "StringVar no_flags name s = s" "IntVar no_flags name i = i" "BoolVar no_flags name b = b"
  by (simp_all add: no_flags_def StringVar_def IntVar_def BoolVar_def)

end
