(* ===== verification/Resetter.thy ===== *)
theory Resetter
  imports Command_Line
begin

text \<open>
  The chain resetter (\<open>cmd/resetchain\<close>): its flags, and the deletion of a chain's rows in chunks. The
  database is a set of tables whose rows matter here by their identifier and chain only; what it answers
  to each query, and the order in which a \<open>DELETE\<close> returns the rows it removed, are arguments.
\<close>

section \<open>Flags\<close>

record Flags =
  fl_db :: string
  fl_chain :: string
  fl_chunkSize :: int
  fl_tables :: string

text \<open>\<open>None\<close> is a nil error.\<close>

definition Flags_Validate :: "Flags \<Rightarrow> string option" where
  "Flags_Validate f =
     (if length (fl_db f) = 0 then Some ''missing database connection string''
      else if length (fl_chain f) = 0 then Some ''missing chain name''
      else if fl_chunkSize f \<le> 0 then Some ''chunk size must be greater than 0''
      else if length (fl_tables f) = 0 then Some ''missing tables to reset''
      else None)"

definition defaultTables :: "string list" where
  "defaultTables =
     [''balances@balances_chain_name_id_idx'',
      ''connections@connections_chain_name_id_idx'',
      ''delegations@delegations_chain_name_id_idx'',
      ''unbonding_delegations@unbonding_delegations_chain_name_id_idx'',
      ''denom_traces@denom_traces_chain_name_id_idx'',
      ''channels@channels_chain_name_id_idx'',
      ''auth@auth_chain_name_id_idx'',
      ''clients@clients_chain_name_id_idx'',
      ''validators@validators_chain_name_id_idx'',
      ''liquidity_swaps@liquidity_swaps_chain_name_id_idx'',
      ''liquidity_pools@liquidity_pools_chain_name_id_idx'']"

definition setupFlag :: "given_flags \<Rightarrow> Flags" where
  "setupFlag g =
     \<lparr>fl_db = StringVar g ''db'' [], fl_chain = StringVar g ''chain'' [], fl_chunkSize = IntVar g ''chunk'' 5000,
      fl_tables = StringVar g ''tables'' (join '','' defaultTables)\<rparr>"

lemma Flags_Validate_iff:
  "Flags_Validate f = None \<longleftrightarrow> fl_db f \<noteq> [] \<and> fl_chain f \<noteq> [] \<and> 0 < fl_chunkSize f \<and> fl_tables f \<noteq> []"
  by (auto simp: Flags_Validate_def)

section \<open>Tables and queries\<close>

record id_row =
  row_id :: int
  row_chain :: string

text \<open>A table expression names a table, and after an at sign an index for the optimizer.\<close>

type_synonym id_tables = "string \<rightharpoonup> id_row list"

definition table_of :: "string \<Rightarrow> string" where
  "table_of expr = takeWhile (\<lambda>c. c \<noteq> CHR ''@'') expr"

text \<open>What goes wrong with a query: it is refused, its rows cannot be fetched, the identifier cannot be
  read, or the rows cannot be closed.\<close>

datatype fault = Refused string | NoFetch string | NoScan string | NoClose string

type_synonym faults = "nat \<Rightarrow> fault option"

definition matching :: "int \<Rightarrow> string \<Rightarrow> id_row list \<Rightarrow> id_row list" where
  "matching last_id chain_name rows = filter (\<lambda>r. row_id r \<le> last_id \<and> row_chain r = chain_name) rows"

text \<open>The rows with the largest identifiers first, at most \<open>limit\<close> of them.\<close>

definition chunk :: "int \<Rightarrow> string \<Rightarrow> nat \<Rightarrow> id_row list \<Rightarrow> id_row list" where
  "chunk last_id chain_name limit rows =
     take limit (rev (sort_key row_id (matching last_id chain_name rows)))"

definition without :: "id_row list \<Rightarrow> id_row list \<Rightarrow> id_row list" where
  "without gone rows = filter (\<lambda>r. r \<notin> set gone) rows"

section \<open>Resetting a table\<close>

text \<open>The identifier the first query finds: the largest one of the chain.\<close>

definition latest_id :: "string \<Rightarrow> id_row list \<Rightarrow> int option" where
  "latest_id chain_name rows =
     (case filter (\<lambda>r. row_chain r = chain_name) rows of
        [] \<Rightarrow> None
      | r # rs \<Rightarrow> Some (fold (\<lambda>r m. max (row_id r) m) rs (row_id r)))"

lemma length_without_chunk:
  assumes "chunk l c n rows \<noteq> []"
  shows "length (without (chunk l c n rows) rows) < length rows"
proof -
  obtain r where r: "r \<in> set (chunk l c n rows)" using assms by (meson list.set_sel(1))
  then have "r \<in> set rows"
    using set_take_subset by (fastforce simp: chunk_def matching_def)
  with r show ?thesis unfolding without_def by (intro length_filter_less [of r]) simp_all
qed

text \<open>The loop: \<open>k\<close> counts the queries, \<open>ord\<close> gives the order of the returned rows. With the outcome come the rows
  that remain and the number of the next query. When the first row cannot be fetched the loop ends like
  one that has nothing left to delete.\<close>

function reset_loop ::
    "(nat \<Rightarrow> id_row list \<Rightarrow> id_row list) \<Rightarrow> faults \<Rightarrow> string \<Rightarrow> nat \<Rightarrow> nat \<Rightarrow> int \<Rightarrow> id_row list \<Rightarrow>
     unit outcome \<times> id_row list \<times> nat" where
  "reset_loop ord faults chain_name limit k last_id rows =
     (let gone = chunk last_id chain_name limit rows; rows' = without gone rows; returned = ord k gone
      in case faults k of
        Some (Refused err) \<Rightarrow> (Err err, rows, Suc k)
      | Some (NoFetch err) \<Rightarrow> (Ok (), rows, Suc k)
      | Some (NoScan err) \<Rightarrow>
          if gone = [] then (Ok (), rows, Suc k)
          else (Err (''cannot scan row at lastID='' @ itoa_int last_id @ '': '' @ err), rows', Suc k)
      | Some (NoClose err) \<Rightarrow>
          if gone = [] then (Ok (), rows, Suc k)
          else (Err (''closing rows object: '' @ err), rows', Suc k)
      | None \<Rightarrow>
          if gone = [] then (Ok (), rows, Suc k)
          else reset_loop ord faults chain_name limit (Suc k) (row_id (hd returned)) rows')"
  by pat_completeness auto
termination
  by (relation "measure (\<lambda>(ord, faults, chain_name, limit, k, last_id, rows). length rows)")
    (auto intro: length_without_chunk)

declare reset_loop.simps [simp del]

text \<open>A table that does not exist, or holds no row of the chain, is no error. The chunk size is positive, as
  \<open>Validate\<close> ensures.\<close>

definition ResetTable ::
    "(nat \<Rightarrow> id_row list \<Rightarrow> id_row list) \<Rightarrow> faults \<Rightarrow> string \<Rightarrow> string \<Rightarrow> nat \<Rightarrow> id_tables \<Rightarrow>
     unit outcome \<times> id_tables \<times> nat" where
  "ResetTable ord faults table chainName chunkSize db =
     (let failed = (\<lambda>err. (Err (''fetching latest id: '' @ err), db, 1))
      in case faults 0 of
        Some (Refused err) \<Rightarrow> failed err
      | Some (NoFetch err) \<Rightarrow> failed err
      | other \<Rightarrow> (case db (table_of table) of
          None \<Rightarrow> (Ok (), db, 1)
        | Some rows \<Rightarrow> (case latest_id chainName rows of
            None \<Rightarrow> (Ok (), db, 1)
          | Some lastID \<Rightarrow> (case other of
              Some (NoScan err) \<Rightarrow> failed err
            | Some (NoClose err) \<Rightarrow> failed err
            | _ \<Rightarrow> (case reset_loop ord faults chainName chunkSize 1 lastID rows of
                  (r, rows', k) \<Rightarrow> (r, db(table_of table \<mapsto> rows'), k))))))"

section \<open>Resetting a chain\<close>

text \<open>The loop over the tables; \<open>i\<close> counts them.\<close>

fun reset_tables ::
    "(nat \<Rightarrow> nat \<Rightarrow> id_row list \<Rightarrow> id_row list) \<Rightarrow> (nat \<Rightarrow> faults) \<Rightarrow> string \<Rightarrow> nat \<Rightarrow> nat \<Rightarrow> string list \<Rightarrow>
     id_tables \<Rightarrow> string list \<times> id_tables" where
  "reset_tables ords faults chainName chunkSize i [] db = ([], db)"
| "reset_tables ords faults chainName chunkSize i (t # ts) db =
     (case ResetTable (ords i) (faults i) t chainName chunkSize db of
        (r, db, k) \<Rightarrow> (case reset_tables ords faults chainName chunkSize (Suc i) ts db of
          (errs, db) \<Rightarrow>
            ((case r of Err err \<Rightarrow> [''resetting table '' @ t @ '': '' @ err] | _ \<Rightarrow> []) @ errs, db)))"

definition Reset ::
    "(nat \<Rightarrow> nat \<Rightarrow> id_row list \<Rightarrow> id_row list) \<Rightarrow> (nat \<Rightarrow> faults) \<Rightarrow> string \<Rightarrow> nat \<Rightarrow> string list \<Rightarrow>
     id_tables \<Rightarrow> unit outcome \<times> id_tables" where
  "Reset ords faults chainName chunkSize ts db =
     (case reset_tables ords faults chainName chunkSize 0 ts db of
        (errs, db) \<Rightarrow>
          (if length errs > 0 then Err (''completed with errors: '' @ join '';'' errs) else Ok (), db))"

text \<open>The program: invalid flags and errors panic. \<open>connect\<close> is the error of connecting to the database.\<close>

definition resetchain ::
    "(nat \<Rightarrow> nat \<Rightarrow> id_row list \<Rightarrow> id_row list) \<Rightarrow> (nat \<Rightarrow> faults) \<Rightarrow> string option \<Rightarrow> given_flags \<Rightarrow> id_tables \<Rightarrow>
     unit outcome \<times> id_tables" where
  "resetchain ords faults connect g db =
     (let f = setupFlag g in
      case Flags_Validate f of
        Some err \<Rightarrow> (Panic (''invalid flags'' @ err), db)
      | None \<Rightarrow> (case connect of
          Some err \<Rightarrow> (Panic (''connecting to DB'' @ err), db)
        | None \<Rightarrow>
            (case Reset ords faults (fl_chain f) (nat (fl_chunkSize f)) (split_on (CHR '','') (fl_tables f)) db of
               (Err err, db) \<Rightarrow> (Panic (''error'' @ err), db)
             | r \<Rightarrow> r)))"

section \<open>A chunk holds the largest identifiers\<close>

lemma latest_id_None: "latest_id c rows = None \<longleftrightarrow> filter (\<lambda>r. row_chain r = c) rows = []"
  by (simp add: latest_id_def split: list.split)

lemma fold_max: "m \<le> fold (\<lambda>r m. max (row_id r) m) rs m \<and>
    (\<forall>r \<in> set rs. row_id r \<le> fold (\<lambda>r m. max (row_id r) m) rs m)"
proof (induction rs arbitrary: m)
  case (Cons r rs)
  from Cons.IH [of "max (row_id r) m"] show ?case by auto
qed simp

lemma latest_id_ge:
  assumes "latest_id c rows = Some l" "r \<in> set rows" "row_chain r = c"
  shows "row_id r \<le> l"
proof -
  obtain q qs where q: "filter (\<lambda>r. row_chain r = c) rows = q # qs" "l = fold (\<lambda>r m. max (row_id r) m) qs (row_id q)"
    using assms(1) by (auto simp: latest_id_def split: list.splits)
  have "r \<in> set (q # qs)" using assms(2,3) unfolding q(1) [symmetric] by simp
  with fold_max [of "row_id q" qs] q(2) show ?thesis by auto
qed

lemma chunk_ge:
  assumes "g \<in> set (chunk l c n rows)" "r \<in> set (matching l c rows)" "r \<notin> set (chunk l c n rows)"
  shows "row_id r \<le> row_id g"
proof -
  define xs where "xs = rev (sort_key row_id (matching l c rows))"
  have desc: "sorted_wrt (\<lambda>x y. row_id y \<le> row_id x) xs"
    using sorted_sort_key [of row_id "matching l c rows"] by (simp add: xs_def sorted_wrt_rev sorted_wrt_map)
  have "r \<in> set xs" using assms(2) by (simp add: xs_def)
  then have "r \<in> set (drop n xs)"
    using assms(3) unfolding chunk_def xs_def [symmetric] by (metis Un_iff append_take_drop_id set_append)
  moreover have "sorted_wrt (\<lambda>x y. row_id y \<le> row_id x) (take n xs @ drop n xs)" using desc by simp
  ultimately show ?thesis
    using assms(1) unfolding chunk_def xs_def [symmetric] sorted_wrt_append by blast
qed

lemma chunk_mset: "set (chunk l c n rows) \<subseteq> set (matching l c rows)"
  using set_take_subset by (fastforce simp: chunk_def)

lemma chunk_length: "length (chunk l c n rows) = min n (length (matching l c rows))"
  by (simp add: chunk_def min.commute)

lemma chunk_distinct: "distinct rows \<Longrightarrow> distinct (chunk l c n rows)"
  by (simp add: chunk_def matching_def)

section \<open>The loop\<close>

definition chain_rows :: "string \<Rightarrow> id_row list \<Rightarrow> id_row list" where
  "chain_rows c rows = filter (\<lambda>r. row_chain r = c) rows"

definition other_rows :: "string \<Rightarrow> id_row list \<Rightarrow> id_row list" where
  "other_rows c rows = filter (\<lambda>r. row_chain r \<noteq> c) rows"

lemma other_without:
  assumes "set gone \<subseteq> set (chain_rows c rows)"
  shows "other_rows c (without gone rows) = other_rows c rows"
  using assms unfolding other_rows_def without_def chain_rows_def filter_filter by (intro filter_cong) auto

lemma length_chain_without:
  assumes "distinct rows" "distinct gone" "set gone \<subseteq> set (chain_rows c rows)"
  shows "length (chain_rows c (without gone rows)) = length (chain_rows c rows) - length gone"
proof -
  have "set (chain_rows c (without gone rows)) = set (chain_rows c rows) - set gone"
    by (auto simp: chain_rows_def without_def)
  moreover have "distinct (chain_rows c (without gone rows))" "distinct (chain_rows c rows)"
    using assms(1) by (simp_all add: chain_rows_def without_def)
  ultimately show ?thesis
    using assms(2,3) by (metis card_Diff_subset distinct_card finite_set)
qed

lemma matching_all: "\<forall>r \<in> set rows. row_chain r = c \<longrightarrow> row_id r \<le> l \<Longrightarrow> matching l c rows = chain_rows c rows"
  unfolding matching_def chain_rows_def by (intro filter_cong) auto

text \<open>The number of chunks that \<open>n\<close> rows take.\<close>

definition chunks :: "nat \<Rightarrow> nat \<Rightarrow> nat" where
  "chunks limit n = (n + limit - 1) div limit"

lemma chunks_0: "0 < limit \<Longrightarrow> chunks limit 0 = 0"
  by (simp add: chunks_def)

lemma chunks_step:
  assumes "0 < limit" "0 < n"
  shows "chunks limit n = Suc (chunks limit (n - min limit n))"
proof -
  have step: "(q + limit) div limit = Suc (q div limit)" for q using assms(1) by simp
  have n: "n + limit - 1 = (n - 1) + limit" using assms by linarith
  have first: "chunks limit n = Suc ((n - 1) div limit)"
    unfolding chunks_def n by (rule step)
  show ?thesis
  proof (cases "limit \<le> n")
    case True
    then have "n - min limit n + limit - 1 = n - 1" using assms by linarith
    then have "chunks limit (n - min limit n) = (n - 1) div limit" by (simp only: chunks_def)
    then show ?thesis unfolding first by (rule arg_cong [of _ _ Suc, OF sym])
  next
    case False
    then have "n - min limit n = 0" "(n - 1) div limit = 0" by simp_all
    then show ?thesis unfolding first by (simp only: chunks_0 [OF assms(1)])
  qed
qed

definition no_faults :: faults where
  "no_faults k = None"

lemma reset_loop_clears:
  assumes "0 < limit" "\<forall>k. iteration_order (ord k)" "faults = no_faults" "distinct rows"
    and "\<forall>r \<in> set rows. row_chain r = c \<longrightarrow> row_id r \<le> last_id"
  shows "reset_loop ord faults c limit k last_id rows =
    (Ok (), other_rows c rows, Suc (k + chunks limit (length (chain_rows c rows))))"
  using assms
proof (induction ord faults c limit k last_id rows rule: reset_loop.induct)
  case (1 ord faults c limit k last_id rows)
  define gone where "gone = chunk last_id c limit rows"
  have nf: "faults k = None" by (simp only: "1.prems"(3) no_faults_def)
  note all = matching_all [OF "1.prems"(5)]
  have gone: "set gone \<subseteq> set (chain_rows c rows)" "distinct gone"
    "length gone = min limit (length (chain_rows c rows))"
    using chunk_mset [of last_id c limit rows] chunk_distinct [OF "1.prems"(4)] chunk_length [of last_id c limit rows]
    by (simp_all add: gone_def all)
  show ?case
  proof (cases "gone = []")
    case True
    then have "min limit (length (chain_rows c rows)) = 0" using gone(3) by simp
    then have "length (chain_rows c rows) = 0" using "1.prems"(1) by linarith
    then have none: "chain_rows c rows = []" by simp
    then have "other_rows c rows = rows" by (auto simp: chain_rows_def other_rows_def filter_empty_conv filter_id_conv)
    with True none nf "1.prems"(1) show ?thesis
      by (simp add: reset_loop.simps [of ord faults c limit k last_id rows] gone_def chunks_0 Let_def)
  next
    case False
    define rows' where "rows' = without gone rows"
    define g where "g = hd (ord k gone)"
    have "ord k gone \<noteq> []" using False "1.prems"(2) by simp
    then have g: "g \<in> set gone" using iteration_order_set "1.prems"(2) by (metis g_def hd_in_set)
    have "\<forall>r \<in> set rows'. row_chain r = c \<longrightarrow> row_id r \<le> row_id g"
      using chunk_ge [of g last_id c limit rows] g by (auto simp: rows'_def without_def gone_def all chain_rows_def)
    then have "reset_loop ord faults c limit (Suc k) (row_id g) rows' =
        (Ok (), other_rows c rows', Suc (Suc k + chunks limit (length (chain_rows c rows'))))"
      using "1.IH" [OF gone_def refl refl nf] "1.prems"(1-4) False
      by (simp add: rows'_def g_def without_def)
    moreover have "reset_loop ord faults c limit k last_id rows = reset_loop ord faults c limit (Suc k) (row_id g) rows'"
      using False nf
      by (simp add: reset_loop.simps [of ord faults c limit k last_id rows] gone_def g_def rows'_def Let_def)
    moreover have "other_rows c rows' = other_rows c rows"
      unfolding rows'_def by (rule other_without [OF gone(1)])
    moreover have "length (chain_rows c rows') = length (chain_rows c rows) - min limit (length (chain_rows c rows))"
      unfolding rows'_def using length_chain_without [OF "1.prems"(4) gone(2,1)] gone(3) by simp
    moreover have "0 < length (chain_rows c rows)" using False gone(3) by auto
    ultimately show ?thesis using chunks_step [OF "1.prems"(1)] by simp
  qed
qed

lemma reset_loop_others: "other_rows c (fst (snd (reset_loop ord faults c limit k last_id rows))) = other_rows c rows"
proof (induction ord faults c limit k last_id rows rule: reset_loop.induct)
  case (1 ord faults c limit k last_id rows)
  have "set (chunk last_id c limit rows) \<subseteq> set (chain_rows c rows)"
    using chunk_mset by (fastforce simp: matching_def chain_rows_def)
  from other_without [OF this] show ?case
    using "1.IH" [OF refl refl refl]
    by (auto simp: reset_loop.simps [of ord faults c limit k last_id rows] Let_def split: option.split fault.split)
qed

lemma ResetTable_others:
  assumes "ResetTable ord faults t c limit db = (r, db', k)"
  shows "map_option (other_rows c) (db' t') = map_option (other_rows c) (db t')"
proof (cases "\<exists>rows l. db (table_of t) = Some rows \<and>
    db' = db(table_of t \<mapsto> fst (snd (reset_loop ord faults c limit 1 l rows)))")
  case True
  then obtain rows l where "db (table_of t) = Some rows"
    "db' = db(table_of t \<mapsto> fst (snd (reset_loop ord faults c limit 1 l rows)))" by blast
  then show ?thesis by (simp add: reset_loop_others)
next
  case False
  with assms have "db' = db"
    by (auto simp: ResetTable_def Let_def case_prod_unfold split: option.splits fault.splits)
  then show ?thesis by simp
qed

lemma reset_tables_others:
  "map_option (other_rows c) (snd (reset_tables ords faults c limit i ts db) t) = map_option (other_rows c) (db t)"
proof (induction ts arbitrary: i db)
  case (Cons u ts)
  obtain r db' k where step: "ResetTable (ords i) (faults i) u c limit db = (r, db', k)" by (metis prod_cases3)
  from Cons.IH [of "Suc i" db'] ResetTable_others [OF step] step show ?case by (simp add: case_prod_unfold)
qed simp

definition tables_ok :: "id_tables \<Rightarrow> bool" where
  "tables_ok db \<longleftrightarrow> (\<forall>t rows. db t = Some rows \<longrightarrow> distinct (map row_id rows))"

definition cleared :: "string \<Rightarrow> string \<Rightarrow> id_tables \<Rightarrow> id_tables" where
  "cleared c t db = db(t := map_option (other_rows c) (db t))"

lemma ResetTable_clears:
  assumes "0 < limit" "\<forall>k. iteration_order (ord k)" "tables_ok db"
  shows "ResetTable ord no_faults t c limit db = (Ok (), cleared c (table_of t) db,
    case db (table_of t) of None \<Rightarrow> 1 | Some rows \<Rightarrow>
      if chain_rows c rows = [] then 1 else chunks limit (length (chain_rows c rows)) + 2)"
proof (cases "db (table_of t)")
  case None
  then have "cleared c (table_of t) db = db" by (auto simp: cleared_def)
  with None assms show ?thesis by (simp add: ResetTable_def no_faults_def Let_def)
next
  case (Some rows)
  show ?thesis
  proof (cases "latest_id c rows")
    case None
    then have none: "chain_rows c rows = []" by (simp add: latest_id_None chain_rows_def)
    then have "other_rows c rows = rows" by (auto simp: chain_rows_def other_rows_def filter_empty_conv filter_id_conv)
    with Some have "cleared c (table_of t) db = db" by (auto simp: cleared_def)
    with None none Some assms show ?thesis by (simp add: ResetTable_def no_faults_def Let_def)
  next
    case (Some l)
    have "distinct rows" using assms(3) \<open>db (table_of t) = Some rows\<close> by (auto simp: tables_ok_def distinct_map)
    moreover have "\<forall>r \<in> set rows. row_chain r = c \<longrightarrow> row_id r \<le> l" using latest_id_ge [OF Some] by blast
    moreover have "chain_rows c rows \<noteq> []" using Some latest_id_None [of c rows] by (simp add: chain_rows_def)
    ultimately show ?thesis
      using reset_loop_clears [OF assms(1,2) refl, of rows c l 1] Some \<open>db (table_of t) = Some rows\<close>
      by (simp add: ResetTable_def cleared_def Let_def no_faults_def [of 0] del: fun_upd_apply)
  qed
qed

lemma cleared_ok: "tables_ok db \<Longrightarrow> tables_ok (cleared c t db)"
  by (auto simp: tables_ok_def cleared_def other_rows_def intro: distinct_map_filter)

lemma reset_tables_clears:
  assumes "0 < limit" "\<forall>i k. iteration_order (ords i k)"
  shows "tables_ok db \<Longrightarrow> reset_tables ords (\<lambda>_. no_faults) c limit i ts db = ([], fold (\<lambda>t. cleared c (table_of t)) ts db)"
proof (induction ts arbitrary: i db)
  case (Cons t ts)
  have "ResetTable (ords i) no_faults t c limit db =
      (Ok (), cleared c (table_of t) db, snd (snd (ResetTable (ords i) no_faults t c limit db)))"
    using ResetTable_clears [of limit "ords i" db t c] assms Cons.prems by simp
  then obtain k where "ResetTable (ords i) no_faults t c limit db = (Ok (), cleared c (table_of t) db, k)" by blast
  with Cons.IH [OF cleared_ok [OF Cons.prems]] show ?case by simp
qed simp

lemma fold_cleared:
  "fold (\<lambda>t. cleared c (table_of t)) ts db t =
     (if t \<in> table_of ` set ts then map_option (other_rows c) (db t) else db t)"
proof (induction ts arbitrary: db)
  case (Cons u ts)
  have "other_rows c (other_rows c rows) = other_rows c rows" for rows by (simp add: other_rows_def)
  then have "map_option (other_rows c) (map_option (other_rows c) q) = map_option (other_rows c) q" for q
    by (cases q) simp_all
  with Cons show ?case by (auto simp: cleared_def)
qed simp

section \<open>Properties\<close>

text \<open>C38. Resetting a table ends: with \<open>n\<close> rows of the chain it takes one query for the latest identifier and, when
  there are any, one for each chunk and one that finds nothing left, whatever the order in which a \<open>DELETE\<close>
  returns its rows.\<close>

theorem reset_table_ends:
  assumes "0 < limit" "\<forall>k. iteration_order (ord k)" "tables_ok db" "db (table_of t) = Some rows"
  shows "ResetTable ord no_faults t c limit db = (Ok (), cleared c (table_of t) db,
    if chain_rows c rows = [] then 1 else chunks limit (length (chain_rows c rows)) + 2)"
  using ResetTable_clears [OF assms(1-3)] assms(4) by simp

definition two_chains :: "id_row list" where
  "two_chains = [\<lparr>row_id = 1, row_chain = ''a''\<rparr>, \<lparr>row_id = 2, row_chain = ''b''\<rparr>, \<lparr>row_id = 3, row_chain = ''a''\<rparr>]"

lemma two_chains_ok: "tables_ok [''auth'' \<mapsto> two_chains]"
  by (simp add: tables_ok_def two_chains_def)

lemma reset_table_ends_witness:
  "snd (snd (ResetTable (\<lambda>_. rev) no_faults ''auth@auth_chain_name_id_idx'' ''a'' 1 [''auth'' \<mapsto> two_chains])) = 4"
proof -
  have "\<forall>k. iteration_order rev" by (simp add: iteration_order_rev)
  from reset_table_ends [OF zero_less_one this two_chains_ok, of "''auth@auth_chain_name_id_idx''" two_chains "''a''"]
  show ?thesis by (simp add: table_of_def two_chains_def chain_rows_def chunks_def)
qed

text \<open>C39. Resetting a chain never touches the rows of another chain, whatever fails; when no query fails it
  reports no error and removes every row of the chain from the tables it is given.\<close>

theorem reset_clears:
  assumes "0 < limit" "\<forall>i k. iteration_order (ords i k)" "tables_ok db"
  shows "map_option (other_rows c) (snd (Reset ords faults c limit ts db) t) = map_option (other_rows c) (db t) \<and>
    Reset ords (\<lambda>_. no_faults) c limit ts db =
      (Ok (), \<lambda>t. if t \<in> table_of ` set ts then map_option (other_rows c) (db t) else db t)"
  using reset_tables_others [of c ords faults limit 0 ts db t]
    reset_tables_clears [where ords = ords, OF assms(1,2,3), of c 0 ts] fold_cleared [of c ts db]
  by (simp add: Reset_def case_prod_unfold fun_eq_iff)

lemma reset_clears_witness:
  "Reset (\<lambda>_ _. id) (\<lambda>_. no_faults) ''a'' 1 [''auth''] [''auth'' \<mapsto> two_chains] =
     (Ok (), [''auth'' \<mapsto> [\<lparr>row_id = 2, row_chain = ''b''\<rparr>]])"
proof -
  have "\<forall>i k. iteration_order (id :: id_row list \<Rightarrow> id_row list)" by (simp add: iteration_order_id)
  from reset_clears [OF zero_less_one this two_chains_ok, of "''a''" _ "[''auth'']"]
  show ?thesis by (auto simp: table_of_def two_chains_def other_rows_def fun_eq_iff)
qed

text \<open>Rows that cannot be fetched are taken for an empty answer: the reset reports success and removes nothing.\<close>

lemma reset_silent_failure:
  "ResetTable (\<lambda>_. id) (\<lambda>k. if k = 1 then Some (NoFetch ''restart transaction'') else None) ''auth'' ''a'' 5000
     [''auth'' \<mapsto> two_chains] = (Ok (), [''auth'' \<mapsto> two_chains], 2)"
  by (simp add: ResetTable_def table_of_def two_chains_def latest_id_def reset_loop.simps Let_def)

text \<open>The default tables leave out three of the tables of the program.\<close>

lemma defaultTables_omit:
  "{''cw20_balances'', ''cw20_token_infos'', ''blocktime''} \<inter> set (map table_of defaultTables) = {}"
  by (simp add: defaultTables_def table_of_def)

end
