(* ===== verification/Connection.thy ===== *)
theory Connection
  imports Parsing
begin

text \<open>
  The use of the database connection (\<open>database/database.go\<close>, \<open>database/migrations.go\<close> and
  \<open>tracelistener/database\<close>): opening it, running the migrations in order, a write in a transaction, and the
  pause before a write. What the driver answers is an argument.
\<close>

section \<open>Opening a connection\<close>

text \<open>\<open>None\<close> is a nil error. The instance itself carries no state of interest.\<close>

definition NewWithDriver :: "string option \<Rightarrow> string option \<Rightarrow> unit outcome" where
  "NewWithDriver connect ping =
     (case connect of
        Some err \<Rightarrow> Err err
      | None \<Rightarrow> (case ping of Some err \<Rightarrow> Err (''cannot ping db, '' @ err) | None \<Rightarrow> Ok ()))"

definition New_connection :: "string option \<Rightarrow> string option \<Rightarrow> unit outcome" where
  "New_connection connect ping = NewWithDriver connect ping"

section \<open>Migrations\<close>

text \<open>The loop: \<open>i\<close> counts the migrations, \<open>exec\<close> is the error of executing one. With the outcome come those that
  were executed.\<close>

fun run_migrations ::
    "(string \<Rightarrow> string option) \<Rightarrow> nat \<Rightarrow> string list \<Rightarrow> unit outcome \<times> string list" where
  "run_migrations exec i [] = (Ok (), [])"
| "run_migrations exec i (m # ms) =
     (case exec m of
        Some err \<Rightarrow> (Err (''error while running migration #'' @ itoa i @ '', '' @ err), [])
      | None \<Rightarrow> (case run_migrations exec (Suc i) ms of (r, executed) \<Rightarrow> (r, m # executed)))"

definition RunMigrations ::
    "unit outcome \<Rightarrow> (string \<Rightarrow> string option) \<Rightarrow> string option \<Rightarrow> string list \<Rightarrow> unit outcome \<times> string list" where
  "RunMigrations connection exec close_error migrations =
     (case connection of
        Err err \<Rightarrow> (Err err, [])
      | Panic p \<Rightarrow> (Panic p, [])
      | Ok _ \<Rightarrow> (case run_migrations exec 0 migrations of
          (Ok _, executed) \<Rightarrow> (case close_error of Some err \<Rightarrow> (Err err, executed) | None \<Rightarrow> (Ok (), executed))
        | r \<Rightarrow> r))"

definition createDatabase :: string where
  "createDatabase = [CHR 0x0A] @ ''CREATE DATABASE IF NOT EXISTS tracelistener;'' @ [CHR 0x0A]"

text \<open>The list of the package, before and after registrations.\<close>

definition migrationList :: "string list" where
  "migrationList = [createDatabase]"

definition RegisterMigration :: "string list \<Rightarrow> string list \<Rightarrow> string list" where
  "RegisterMigration migration registered = registered @ migration"

text \<open>A failed migration panics.\<close>

definition runMigrations ::
    "unit outcome \<Rightarrow> (string \<Rightarrow> string option) \<Rightarrow> string option \<Rightarrow> string list \<Rightarrow> unit outcome \<times> string list" where
  "runMigrations connection exec close_error registered =
     (case RunMigrations connection exec close_error registered of
        (Err err, executed) \<Rightarrow> (Panic err, executed)
      | r \<Rightarrow> r)"

definition New_instance ::
    "unit outcome \<Rightarrow> unit outcome \<Rightarrow> (string \<Rightarrow> string option) \<Rightarrow> string option \<Rightarrow> string list \<Rightarrow>
     unit outcome \<times> string list" where
  "New_instance connection connection2 exec close_error registered =
     (case connection of
        Ok _ \<Rightarrow> runMigrations connection2 exec close_error registered
      | r \<Rightarrow> (r, []))"

lemma run_migrations_prefix:
  "run_migrations exec i ms = (r, executed) \<Longrightarrow>
    prefix executed ms \<and> (\<forall>m \<in> set executed. exec m = None) \<and> (is_ok r \<longleftrightarrow> executed = ms)"
proof (induction ms arbitrary: i r executed)
  case (Cons m ms)
  then show ?case by (fastforce split: option.splits prod.splits)
qed auto

section \<open>A write in a transaction\<close>

text \<open>What can fail: the statement, or the transaction around it. A statement answers with the number of rows
  it affected and the new state.\<close>

datatype tx_fault = StatementFails string | CommitFails string

definition affected_zero :: string where
  "affected_zero = ''affected rows are zero''"

definition Exec :: "tx_fault option \<Rightarrow> ('db \<Rightarrow> nat \<times> 'db) \<Rightarrow> 'db \<Rightarrow> unit outcome \<times> 'db" where
  "Exec fault statement db =
     (case fault of
        Some (StatementFails err) \<Rightarrow> (Err (''transaction named exec error, '' @ err), db)
      | _ \<Rightarrow> (case statement db of
          (re, db') \<Rightarrow>
            if re = 0 then (Err affected_zero, db)
            else case fault of Some (CommitFails err) \<Rightarrow> (Err err, db) | _ \<Rightarrow> (Ok (), db')))"

section \<open>The pause before a write\<close>

text \<open>The function that \<open>Jitter\<close> returns keeps \<open>delta\<close> and \<open>factor\<close> between its calls; \<open>n\<close> is the random number, of
  which \<open>rand.Intn\<close> takes the remainder. The result is the time slept, if any.\<close>

definition Jitter_call :: "nat \<Rightarrow> int \<times> int \<Rightarrow> int option \<times> int \<times> int" where
  "Jitter_call n s =
     (case s of (delta, factor) \<Rightarrow>
        if delta \<le> 0 \<or> factor \<le> 0 then (None, s)
        else let factor = int n mod factor + 1;
                 delta = delta div factor;
                 delta = (if delta < Millisecond * 10 then Millisecond * 10 else delta)
             in (Some delta, delta, factor))"

fun Jitter_calls :: "nat list \<Rightarrow> int \<times> int \<Rightarrow> int list" where
  "Jitter_calls [] s = []"
| "Jitter_calls (n # ns) s =
     (case Jitter_call n s of
        (None, s) \<Rightarrow> Jitter_calls ns s
      | (Some d, s) \<Rightarrow> d # Jitter_calls ns s)"

lemma Jitter_call_Some:
  assumes "0 < delta" "0 < factor"
  shows "\<exists>d f. Jitter_call n (delta, factor) = (Some d, d, f) \<and> 10 * Millisecond \<le> d \<and>
    d \<le> max delta (10 * Millisecond) \<and> delta div factor \<le> d \<and> 0 < f \<and> f \<le> factor"
proof -
  define f where "f = int n mod factor + 1"
  have "0 \<le> int n mod factor" "int n mod factor < factor" using assms(2) by simp_all
  then have f: "0 < f" "f \<le> factor" unfolding f_def by linarith+
  have "delta div f \<le> delta div 1" using assms(1) f(1) by (intro zdiv_mono2) simp_all
  then have "delta div f \<le> delta" by simp
  moreover have "delta div factor \<le> delta div f" using assms(1) f by (simp add: zdiv_mono2)
  ultimately show ?thesis
    using assms f by (auto simp: Jitter_call_def Let_def f_def [symmetric])
qed

lemma Jitter_calls_bounds:
  "0 < delta \<Longrightarrow> 0 < factor \<Longrightarrow>
    sorted_wrt (\<ge>) (Jitter_calls ns (delta, factor)) \<and>
    (\<forall>d \<in> set (Jitter_calls ns (delta, factor)). 10 * Millisecond \<le> d \<and> d \<le> max delta (10 * Millisecond))"
proof (induction ns arbitrary: delta factor)
  case (Cons n ns)
  obtain d f where d: "Jitter_call n (delta, factor) = (Some d, d, f)" "10 * Millisecond \<le> d"
    "d \<le> max delta (10 * Millisecond)" "0 < f"
    using Jitter_call_Some [OF Cons.prems] by blast
  have "0 < d" using d(2) by (simp add: Millisecond_def Microsecond_def Nanosecond_def)
  from Cons.IH [OF this d(4)] d show ?case by auto
qed simp

section \<open>Properties\<close>

text \<open>C40. Every pause of a function made by \<open>Jitter\<close> lasts between ten milliseconds and the given duration (or ten
  milliseconds), the first one at least the given fraction of it. As the function overwrites the duration and the
  factor it was made with, its pauses never get longer from one call to the next.\<close>

theorem jitter_bounds:
  assumes "0 < delta" "0 < factor"
  shows "\<exists>d ds. Jitter_calls (n # ns) (delta, factor) = d # ds \<and> delta div factor \<le> d \<and>
    sorted_wrt (\<ge>) (d # ds) \<and> (\<forall>x \<in> set (d # ds). 10 * Millisecond \<le> x \<and> x \<le> max delta (10 * Millisecond))"
proof -
  obtain d f where "Jitter_call n (delta, factor) = (Some d, d, f)" "delta div factor \<le> d"
    using Jitter_call_Some [OF assms] by blast
  with Jitter_calls_bounds [OF assms, of "n # ns"] show ?thesis by auto
qed

lemma jitter_bounds_witness:
  "\<exists>d ds. Jitter_calls [3, 1] (500 * Millisecond, 10) = d # ds \<and> 50 * Millisecond \<le> d"
  using jitter_bounds [of "500 * Millisecond" 10 3 "[1]"]
  by (auto simp: Millisecond_def Microsecond_def Nanosecond_def)

end
