(* ===== verification/Bulk.thy ===== *)
theory Bulk
  imports Main_Loop Connection
begin

text \<open>
  The bulk import (\<open>tracelistener/bulk/bulkimport.go\<close>): every store of the chain's database is read by a
  goroutine of its own, its entries are handed to the processor as writes at the latest height, and the
  processor is flushed once. The database of the chain is an argument; log output other than errors is
  left out.
\<close>

section \<open>Modules\<close>

text \<open>\<open>ord\<close> is the order in which the range loop meets the supported modules.\<close>

definition ImportableModulesList :: "(SDKModuleName list \<Rightarrow> SDKModuleName list) \<Rightarrow> string list" where
  "ImportableModulesList ord = ord SupportedSDKModuleList"

record Importer =
  im_Path :: string
  im_Modules :: "string list option"

fun validate_modules :: "string list \<Rightarrow> unit outcome" where
  "validate_modules [] = Ok ()"
| "validate_modules (m # ms) =
     (if m \<notin> set SupportedSDKModuleList then Err (''unknown bulk import module '' @ m) else validate_modules ms)"

definition validateModulesList :: "Importer \<Rightarrow> unit outcome" where
  "validateModulesList i = validate_modules (case im_Modules i of None \<Rightarrow> [] | Some ms \<Rightarrow> ms)"

section \<open>Writing to the database\<close>

text \<open>The number of rows a statement affects.\<close>

definition affected_rows :: "string \<Rightarrow> entrier list \<Rightarrow> database \<Rightarrow> nat" where
  "affected_rows query es db =
     (case map_of (statements main_schema) query of
        None \<Rightarrow> 0
      | Some (KInsert, t, cfg) \<Rightarrow> length es
      | Some (KUpsert, t, cfg) \<Rightarrow>
          length (filter (\<lambda>e. case db t (unique_key cfg e) of None \<Rightarrow> True
            | Some old \<Rightarrow> height_less (old ''height'') (arg e ''height'')) es)
      | Some (KDelete, t, cfg) \<Rightarrow>
          length (filter (\<lambda>e. case db t (unique_key cfg e) of None \<Rightarrow> False
            | Some old \<Rightarrow> old ''delete_height'' = Some Null) es))"

text \<open>The error, if any, and the database after it: there is no transaction to roll back. The statement may fail, and so
  may the question for the number of rows, which comes after the effect.\<close>

definition insertDB ::
    "fault \<times> fault \<Rightarrow> string \<Rightarrow> entrier list \<Rightarrow> database \<Rightarrow> (string option \<times> database) outcome" where
  "insertDB failure query es db =
     (case NamedExec (fst failure) main_schema query es db of
        Err err \<Rightarrow> Ok (Some (''transaction named exec error, '' @ err), db)
      | Panic p \<Rightarrow> Panic p
      | Ok db' \<Rightarrow> (case snd failure of
          Some err \<Rightarrow> Ok (Some (''transaction named exec error, '' @ err), db')
        | None \<Rightarrow> Ok (if affected_rows query es db = 0 then Some ''affected rows are zero'' else None, db')))"

text \<open>\<open>f\<close> gives the failures of each statement, by operation and unit.\<close>

fun insert_units ::
    "(nat \<Rightarrow> fault \<times> fault) \<Rightarrow> WritebackOp list \<Rightarrow> database \<Rightarrow> (database \<times> log_entry list) outcome" where
  "insert_units f [] db = Ok (db, [])"
| "insert_units f (wbUnit # wbUnits) db =
     and_then (insertDB (f 0) (wb_Statement wbUnit) (InterfaceSlice wbUnit) db) (\<lambda>(err, db').
     and_then (insert_units (\<lambda>u. f (Suc u)) wbUnits db') (\<lambda>(db'', logs).
       Ok (db'', (case err of None \<Rightarrow> [] | Some e \<Rightarrow> [LogDatabase e wbUnit]) @ logs)))"

fun processWritebackData ::
    "(nat \<Rightarrow> nat \<Rightarrow> fault \<times> fault) \<Rightarrow> WritebackOp list \<Rightarrow> database \<Rightarrow> (database \<times> log_entry list) outcome" where
  "processWritebackData f [] db = Ok (db, [])"
| "processWritebackData f (p # ps) db =
     (if length (wb_Data p) = 0 then processWritebackData (\<lambda>i. f (Suc i)) ps db
      else and_then (SplitStatementToDBLimit p) (\<lambda>wbUnits.
           and_then (insert_units (f 0) wbUnits db) (\<lambda>(db', logs).
           and_then (processWritebackData (\<lambda>i. f (Suc i)) ps db') (\<lambda>(db'', logs'). Ok (db'', logs @ logs')))))"

abbreviation import_succeeds :: "nat \<Rightarrow> nat \<Rightarrow> fault \<times> fault" where
  "import_succeeds \<equiv> \<lambda>_ _. (None, None)"

section \<open>The database of the chain\<close>

text \<open>What it answers: the error of opening a path, the entry of the latest version and its decoding, a panic of
  mounting or loading the stores, the entries of each store, and the errors of iterating and closing.\<close>

record chain_db =
  opens :: "string \<Rightarrow> string option"
  version_entry :: "bytes option outcome"
  int64_unmarshal :: "bytes \<Rightarrow> int outcome"
  loads :: "string list \<Rightarrow> string option"
  store_entries :: "string \<Rightarrow> (slice \<times> bytes) list"
  iterator_error :: "string \<Rightarrow> string option"
  iterator_close :: "string \<Rightarrow> string option"
  closes :: "string option"

definition getLatestVersion :: "chain_db \<Rightarrow> int outcome" where
  "getLatestVersion cdb =
     (case version_entry cdb of
        Err err \<Rightarrow> Panic err
      | Panic p \<Rightarrow> Panic p
      | Ok None \<Rightarrow> Ok 0
      | Ok (Some bz) \<Rightarrow> (case int64_unmarshal cdb bz of
          Ok v \<Rightarrow> Ok v | Err err \<Rightarrow> Panic err | Panic p \<Rightarrow> Panic p))"

text \<open>The operations made of a store.\<close>

definition import_trace :: "int \<Rightarrow> string \<Rightarrow> slice \<times> bytes \<Rightarrow> TraceOperation" where
  "import_trace latestBlockHeight key kv =
     \<lparr>top_Operation = Operation_String WriteOp, top_Key = fst kv, top_Value = snd kv,
      top_BlockHeight = word_of_int latestBlockHeight, top_TxHash = [], top_SuggestedProcessor = key\<rparr>"

definition store_traces :: "chain_db \<Rightarrow> int \<Rightarrow> string \<Rightarrow> TraceOperation list" where
  "store_traces cdb h key = map (import_trace h key) (store_entries cdb key)"

text \<open>The goroutines take turns as the scheduler says; each one handles its store in order.\<close>

fun interleave :: "nat list \<Rightarrow> 'a list list \<Rightarrow> 'a list" where
  "interleave [] xss = concat xss"
| "interleave (i # sched) xss =
     (if i < length xss
      then (case xss ! i of [] \<Rightarrow> interleave sched xss | x # xs \<Rightarrow> x # interleave sched (xss[i := xs]))
      else interleave sched xss)"

fun process_all :: "env \<Rightarrow> TraceOperation list \<Rightarrow> Processor \<Rightarrow> (tracing_error list \<times> Processor) outcome" where
  "process_all e [] p = Ok ([], p)"
| "process_all e (d # ds) p =
     and_then (ProcessData e d p) (\<lambda>(errs, p').
     and_then (process_all e ds p') (\<lambda>(errs', p''). Ok (errs @ errs', p'')))"

text \<open>The first error of the goroutines: that of an iterator, or of closing it.\<close>

fun first_error :: "chain_db \<Rightarrow> string list \<Rightarrow> unit outcome" where
  "first_error cdb [] = Ok ()"
| "first_error cdb (key # ks) =
     (case iterator_error cdb key of
        Some err \<Rightarrow> Err (''iterator error, '' @ err)
      | None \<Rightarrow> (case iterator_close cdb key of
          Some err \<Rightarrow> Err (''cannot close iterator, '' @ err)
        | None \<Rightarrow> first_error cdb ks))"

section \<open>The import\<close>

definition trim_db :: "string \<Rightarrow> string" where
  "trim_db path = (if suffix ''.db'' path then take (length path - 3) path else path)"

text \<open>\<open>ord\<close> orders the supported modules, \<open>sched\<close> is the schedule of the goroutines, \<open>finished\<close> the order in which they
  end, \<open>f\<close> the failures of its statements. With an error or a panic nothing has been written.\<close>

definition Do ::
    "env \<Rightarrow> (nat \<Rightarrow> orders) \<Rightarrow> (string list \<Rightarrow> string list) \<Rightarrow> nat list \<Rightarrow> (string list \<Rightarrow> string list) \<Rightarrow>
     chain_db \<Rightarrow> (nat \<Rightarrow> nat \<Rightarrow> fault \<times> fault) \<Rightarrow> Importer \<Rightarrow> Processor \<Rightarrow> database \<Rightarrow> (database \<times> log_entry list) outcome" where
  "Do e ords ord sched finished cdb f i p db =
     and_then (validateModulesList i) (\<lambda>_.
       let ks = (case im_Modules i of None \<Rightarrow> ImportableModulesList ord | Some ms \<Rightarrow> ms);
           p = SetDBUpsertEnabled False p
       in case opens cdb (trim_db (im_Path i)) of
         Some err \<Rightarrow> Err (''cannot open chain database, '' @ err)
       | None \<Rightarrow>
           and_then (getLatestVersion cdb) (\<lambda>h.
           case loads cdb ks of
             Some err \<Rightarrow> Panic err
           | None \<Rightarrow>
               and_then (process_all e (interleave sched (map (store_traces cdb h) ks)) p) (\<lambda>(errs, p').
               and_then (first_error cdb (finished ks)) (\<lambda>_.
               case closes cdb of
                 Some err \<Rightarrow> Err (''database closing error, '' @ err)
               | None \<Rightarrow>
                   and_then (wrap_err ''cannot flush processor cache, '' (Flush ords p')) (\<lambda>(wb, p'').
                   and_then (processWritebackData f wb db) (\<lambda>(db', logs).
                     Ok (db', map LogProcessing errs @ logs)))))))"

section \<open>Every schedule handles every entry\<close>

lemma mset_interleave: "mset (interleave sched xss) = mset (concat xss)"
proof (induction sched xss rule: interleave.induct)
  case (2 i sched xss)
  show ?case
  proof (cases "i < length xss \<and> xss ! i \<noteq> []")
    case True
    then obtain x xs where x: "xss ! i = x # xs" by (cases "xss ! i") auto
    have "concat xss = concat (take i xss @ (x # xs) # drop (Suc i) xss)"
      using True x id_take_nth_drop [of i xss] by simp
    moreover have "concat (xss[i := xs]) = concat (take i xss @ xs # drop (Suc i) xss)"
      using True by (simp add: upd_conv_take_nth_drop)
    ultimately have "mset (concat xss) = mset (concat (xss[i := xs])) + {#x#}" by simp
    with True x "2.IH"(2) [of x xs] show ?thesis by simp
  qed (use 2 in \<open>auto split: list.split\<close>)
qed simp

section \<open>Writes leave nothing to delete\<close>

lemma process_write_removals:
  assumes "is_write d" "module_Process e m d = Ok m'" "removals m = []"
  shows "removals m' = []"
proof -
  have "\<not> is_delete d" using assms(1) by (simp add: is_write_def is_delete_def WriteOp_def DeleteOp_def Operation_String_def)
  with assms show ?thesis
    by (cases m) (auto simp: process_defs and_then_Ok Let_def is_delete_def split: if_splits)
qed

section \<open>Inserting fresh rows is upserting them\<close>

definition fresh :: "TableConfig \<Rightarrow> entrier list \<Rightarrow> table_state \<Rightarrow> bool" where
  "fresh cfg es T \<longleftrightarrow> distinct (map (unique_key cfg) es) \<and> (\<forall>e \<in> set es. T (unique_key cfg e) = None)"

lemma fresh_append:
  assumes "fresh cfg (xs @ ys) T"
  shows "fresh cfg xs T" "fresh cfg ys (fold (upsert_row cfg) xs T)"
proof -
  show "fresh cfg xs T" using assms by (simp add: fresh_def)
  have "fold (upsert_row cfg) xs T k = T k" if "k \<notin> unique_key cfg ` set xs" for k xs T
    using that by (induction xs arbitrary: T) (auto simp: upsert_row_def split: option.splits)
  with assms show "fresh cfg ys (fold (upsert_row cfg) xs T)" by (fastforce simp: fresh_def)
qed

lemma insert_rows_fresh: "fresh cfg es T \<Longrightarrow> insert_rows cfg es T = Ok (fold (upsert_row cfg) es T)"
proof (induction es arbitrary: T)
  case (Cons e es)
  from fresh_append [of cfg "[e]" es T] Cons.prems have "fresh cfg es (upsert_row cfg e T)" by simp
  moreover have "insert_row cfg e T = Ok (upsert_row cfg e T)"
    using Cons.prems by (simp add: fresh_def insert_row_def upsert_row_def)
  ultimately show ?case using Cons.IH by simp
qed simp

lemma buildEntrierChunks_not_empty:
  assumes "buildEntrierChunks xs c = Ok chunks" "chunk \<in> set chunks"
  shows "chunk \<noteq> []"
proof (cases "0 < c")
  case True
  with assms chunk_loop_sizes [of "nat c" chunk xs 0] show ?thesis by (simp add: buildEntrierChunks_def)
qed (use assms in \<open>auto simp: buildEntrierChunks_def split: if_splits\<close>)

lemma units_not_empty:
  assumes "SplitStatementToDBLimit wo = Ok us" "wb_Data wo \<noteq> []" "u \<in> set us"
  shows "wb_Data u \<noteq> []"
proof -
  have "us = [wo] \<or> (\<exists>c chunks. buildEntrierChunks (wb_Data wo) c = Ok chunks \<and> us = map (chunk_op wo) chunks)"
    using assms(1,2) by (auto simp: SplitStatementToDBLimit_def SplitStatements_def and_then_Ok Let_def split: if_splits)
  with assms(2,3) buildEntrierChunks_not_empty show ?thesis by (auto simp: chunk_op_def)
qed

lemma insertDB_fresh:
  assumes "tc \<in> set main_schema" "\<forall>e \<in> set es. fits (snd tc) e"
    and "length (InsertColumns (snd tc)) * length es \<le> 65535" "fresh (snd tc) es (db (fst tc))" "es \<noteq> []"
  shows "insertDB (None, None) (stmt KInsert tc) es db = Ok (None, db(fst tc := fold (upsert_row (snd tc)) es (db (fst tc))))"
  using assms(2-5) by (simp add: insertDB_def NamedExec_def lookup_main [OF assms(1)] placeholders_def exec_rows_def
      list_all_iff fits_bound insert_rows_fresh affected_rows_def case_prod_unfold)

lemma insert_units_fresh:
  assumes "tc \<in> set main_schema"
  shows "\<forall>u \<in> set us. wb_Statement u = stmt KInsert tc \<and> wb_Data u \<noteq> [] \<and>
      length (InsertColumns (snd tc)) * length (wb_Data u) \<le> 65535 \<Longrightarrow>
    \<forall>e \<in> set (concat (map wb_Data us)). fits (snd tc) e \<Longrightarrow>
    fresh (snd tc) (concat (map wb_Data us)) (db (fst tc)) \<Longrightarrow>
    insert_units (\<lambda>_. (None, None)) us db =
      Ok (db(fst tc := fold (upsert_row (snd tc)) (concat (map wb_Data us)) (db (fst tc))), [])"
proof (induction us arbitrary: db)
  case (Cons u us)
  from Cons.prems(3) have fr: "fresh (snd tc) (wb_Data u) (db (fst tc))"
    "fresh (snd tc) (concat (map wb_Data us)) (fold (upsert_row (snd tc)) (wb_Data u) (db (fst tc)))"
    using fresh_append [of "snd tc" "wb_Data u" "concat (map wb_Data us)"] by simp_all
  define db1 where "db1 = db(fst tc := fold (upsert_row (snd tc)) (wb_Data u) (db (fst tc)))"
  have "insertDB (None, None) (stmt KInsert tc) (wb_Data u) db = Ok (None, db1)"
    using Cons.prems fr(1) unfolding db1_def by (intro insertDB_fresh [OF assms]) auto
  moreover have "insert_units (\<lambda>_. (None, None)) us db1 =
      Ok (db1(fst tc := fold (upsert_row (snd tc)) (concat (map wb_Data us)) (db1 (fst tc))), [])"
    using Cons.prems fr(2) by (intro Cons.IH) (auto simp: db1_def)
  ultimately show ?case using Cons.prems(1) by (simp add: InterfaceSlice_Data db1_def fun_eq_iff)
qed simp

section \<open>The flush of an import\<close>

lemma process_fresh_op:
  assumes "tc \<in> set main_schema" "\<forall>e \<in> set (wb_Data wo). fits (snd tc) e" "length (wb_Data wo) < 2 ^ 40"
    and "fresh (snd tc) (wb_Data wo) (db (fst tc))" "wb_Statement wo = stmt KInsert tc" "wb_Data wo \<noteq> []"
  shows "processWritebackData import_succeeds [wo] db =
    Ok (db(fst tc := fold (upsert_row (snd tc)) (wb_Data wo) (db (fst tc))), [])"
proof -
  from split_units [OF assms(2,3)] obtain us where us: "SplitStatementToDBLimit wo = Ok us"
    "concat (map wb_Data us) = wb_Data wo"
    "\<forall>u \<in> set us. wb_Statement u = wb_Statement wo \<and>
      length (InsertColumns (snd tc)) * length (wb_Data u) \<le> 65535" by blast
  have "insert_units (\<lambda>_. (None, None)) us db =
      Ok (db(fst tc := fold (upsert_row (snd tc)) (concat (map wb_Data us)) (db (fst tc))), [])"
    using us assms units_not_empty [OF us(1) assms(6)] by (intro insert_units_fresh) auto
  with us(1,2) assms(6) show ?thesis by simp
qed

lemma processWritebackData_append:
  "processWritebackData f (a @ b) db =
    and_then (processWritebackData f a db) (\<lambda>(db', logs).
    and_then (processWritebackData (\<lambda>i. f (length a + i)) b db') (\<lambda>(db'', logs'). Ok (db'', logs @ logs')))"
proof (induction a arbitrary: f db)
  case (Cons p a)
  show ?case
    by (cases "SplitStatementToDBLimit p") (auto simp: Cons and_then_assoc case_prod_unfold)
qed (simp add: case_prod_unfold)

definition module_fresh :: "string \<Rightarrow> database \<Rightarrow> module \<Rightarrow> bool" where
  "module_fresh cn db m \<longleftrightarrow> (\<forall>e \<in> set (upserts m).
     db (fst (module_table m)) (unique_key (snd (module_table m)) (WithChainName cn e)) = None)"

lemma module_import:
  assumes "\<not> p_useDBUpsert p" "well_keyed m" "small m" "removals m = []" "\<forall>i. range_order (ord i)"
  shows "\<exists>wb. complete_ops p (snd (module_FlushCache ord m)) (fst (module_FlushCache ord m)) = Ok wb \<and>
    (\<forall>db. module_fresh (p_chainName p) db m \<longrightarrow>
      processWritebackData import_succeeds wb db = Ok (module_effect (p_chainName p) m db, []))"
proof -
  let ?cn = "WithChainName (p_chainName p)"
  let ?m = "snd (module_FlushCache ord m)"
  define tc where "tc = module_table m"
  define ws where "ws = ranged (ord 0) (upserts m)"
  have tc: "tc \<in> set main_schema" unfolding tc_def by (rule module_table_schema)
  have perm: "mset ws = mset (upserts m)" using assms(5) by (simp add: ws_def)
  then have same_set: "set ws = set (upserts m)" by (rule mset_eq_setD)
  have empty: "ws = [] \<longleftrightarrow> upserts m = []" using assms(5) by (simp add: ws_def)
  have same: "module_table ?m = tc" by (cases m) (simp_all add: module_table_def tc_def)
  define op where "op = completed p ?m (module_InsertStatement ?m) (write_op ws)"
  have op: "wb_Data op = map ?cn ws" "wb_Statement op = stmt KInsert tc"
    using module_InsertStatement_stmt [of ?m] same by (simp_all add: op_def completed_def)
  have "ranged (ord 1) (removals m) = []" using assms(4,5) by simp
  then have flush: "complete_ops p ?m (fst (module_FlushCache ord m)) = Ok (if ws = [] then [] else [op])"
    using assms(1,4) empty unfolding module_flush_form [OF assms(5)] ws_def [symmetric]
    by (simp add: op_def completed_def statement_for_def)
  have "processWritebackData import_succeeds (if ws = [] then [] else [op]) db = Ok (module_effect (p_chainName p) m db, [])"
    if new: "module_fresh (p_chainName p) db m" for db
  proof -
    have uniq: "distinct (map (unique_key (snd tc)) (map ?cn (upserts m)))"
      using well_keyed_distinct [OF assms(2)] by (simp add: tc_def)
    have uniq': "distinct (map (unique_key (snd tc)) (map ?cn ws))"
      using uniq perm by (metis mset_map mset_eq_imp_distinct_iff)
    have fold: "fold (upsert_row (snd tc)) (map ?cn ws) T = fold (upsert_row (snd tc)) (map ?cn (upserts m)) T" for T
      using uniq perm by (intro fold_upsert_perm) simp_all
    have effect: "module_effect (p_chainName p) m db =
        db(fst tc := fold (upsert_row (snd tc)) (map ?cn ws) (db (fst tc)))"
      using assms(4) fold by (simp add: module_effect_def Let_def flip: tc_def)
    show ?thesis
    proof (cases "ws = []")
      case True
      with effect show ?thesis by simp
    next
      case False
      have "processWritebackData import_succeeds [op] db =
          Ok (db(fst tc := fold (upsert_row (snd tc)) (wb_Data op) (db (fst tc))), [])"
      proof (rule process_fresh_op [OF tc])
        show "\<forall>e \<in> set (wb_Data op). fits (snd tc) e"
          using pending_fits [of _ m] by (auto simp: op same_set tc_def pending_rows)
        show "length (wb_Data op) < 2 ^ 40"
          using assms(3) by (simp add: op small_def pending_rows ws_def assms(5))
        show "fresh (snd tc) (wb_Data op) (db (fst tc))"
          using uniq' new by (simp add: fresh_def op module_fresh_def same_set tc_def)
        show "wb_Data op \<noteq> []" using False by (simp add: op)
      qed (rule op)
      with False effect show ?thesis by (simp only: op if_False)
    qed
  qed
  with flush show ?thesis by blast
qed

text \<open>The modules of a processor that can be imported into a database: rows to insert only, none of which is
  there, and no two modules on one table.\<close>

definition importable :: "string \<Rightarrow> database \<Rightarrow> module list \<Rightarrow> bool" where
  "importable cn db ms \<longleftrightarrow> distinct (map (fst \<circ> module_table) ms) \<and>
     (\<forall>m \<in> set ms. well_keyed m \<and> small m \<and> module_fresh cn db m)"

lemma flush_modules_import:
  assumes "\<not> p_useDBUpsert p" "\<forall>i j. range_order (ords i j)"
  shows "importable (p_chainName p) db ms \<Longrightarrow> \<forall>m \<in> set ms. removals m = [] \<Longrightarrow>
    \<exists>wb. flush_modules p ords i ms = Ok (wb, flushed ords i ms) \<and>
      processWritebackData import_succeeds wb db = Ok (fold (module_effect (p_chainName p)) ms db, [])"
proof (induction ms arbitrary: i db)
  case (Cons m ms)
  have ord: "\<forall>j. range_order (ords i j)" using assms(2) by blast
  have m: "well_keyed m" "small m" "removals m = []" "module_fresh (p_chainName p) db m"
    using Cons.prems by (simp_all add: importable_def)
  define db1 where "db1 = module_effect (p_chainName p) m db"
  obtain wb where wb: "complete_ops p (snd (module_FlushCache (ords i) m)) (fst (module_FlushCache (ords i) m)) = Ok wb"
    "processWritebackData import_succeeds wb db = Ok (db1, [])"
    using module_import [OF assms(1) m(1-3) ord] m(4) by (auto simp: db1_def)
  have "db1 (fst (module_table m')) = db (fst (module_table m'))" if "m' \<in> set ms" for m'
  proof -
    have "fst (module_table m') \<noteq> fst (module_table m)"
      using that Cons.prems(1) by (auto simp: importable_def image_iff)
    then show ?thesis by (simp add: db1_def module_effect_def Let_def)
  qed
  then have "importable (p_chainName p) db1 ms"
    using Cons.prems(1) by (simp add: importable_def module_fresh_def)
  then obtain wbs where "flush_modules p ords (Suc i) ms = Ok (wbs, flushed ords (Suc i) ms)"
    "processWritebackData import_succeeds wbs db1 = Ok (fold (module_effect (p_chainName p)) ms db1, [])"
    using Cons.IH [of db1 "Suc i"] Cons.prems(2) by auto
  with wb show ?case by (auto simp: case_prod_unfold Let_def processWritebackData_append db1_def)
qed simp

section \<open>Processing the entries\<close>

lemma processData_removals:
  "processData e js d ms = Ok (errs, ms') \<Longrightarrow> is_write d \<Longrightarrow> \<forall>m \<in> set ms. removals m = [] \<Longrightarrow>
    \<forall>m \<in> set ms'. removals m = []"
proof (induction e js d ms arbitrary: errs ms' rule: processData.induct)
  case (2 e i js d ms)
  show ?case
  proof (cases "module_OwnsKey e (ms ! i) (vis (top_Key d))")
    case owns: True
    show ?thesis
    proof (cases "module_Process e (ms ! i) d")
      case (Ok m')
      have "\<forall>m \<in> set (ms[i := m']). removals m = []"
      proof (cases "i < length ms")
        case True
        then have "removals m' = []"
          using process_write_removals [OF "2.prems"(2) Ok] "2.prems"(3) by simp
        then show ?thesis using "2.prems"(3) set_update_subset_insert [of ms i m'] by blast
      next
        case False
        then have "ms[i := m'] = ms" by (simp add: list_update_beyond)
        with "2.prems"(3) show ?thesis by simp
      qed
      moreover have "processData e js d (ms[i := m']) = Ok (errs, ms')" using "2.prems"(1) owns Ok by simp
      ultimately show ?thesis using "2.IH"(2) [OF _ Ok] owns "2.prems"(2) by blast
    next
      case (Err err)
      then obtain errs' where "processData e js d ms = Ok (errs', ms')"
        using "2.prems"(1) owns by (auto simp: and_then_Ok)
      then show ?thesis using "2.IH"(3) [OF _ Err] owns "2.prems"(2,3) by blast
    next
      case (Panic q)
      with "2.prems"(1) owns show ?thesis by simp
    qed
  next
    case False
    with "2.prems"(1) have "processData e js d ms = Ok (errs, ms')" by simp
    from "2.IH"(1) [OF False this] "2.prems"(2,3) show ?thesis by blast
  qed
qed simp

lemma process_all_removals:
  "process_all e ds p = Ok (errs, p') \<Longrightarrow> \<forall>d \<in> set ds. is_write d \<Longrightarrow>
    \<forall>m \<in> set (p_moduleProcessors p). removals m = [] \<Longrightarrow>
    (\<forall>m \<in> set (p_moduleProcessors p'). removals m = []) \<and> p_chainName p' = p_chainName p \<and>
    p_useDBUpsert p' = p_useDBUpsert p"
proof (induction ds arbitrary: p errs)
  case (Cons d ds)
  then obtain errs1 p1 errs2 where one: "ProcessData e d p = Ok (errs1, p1)" and rest: "process_all e ds p1 = Ok (errs2, p')"
    by (auto simp: and_then_Ok)
  obtain ms where ms: "processData e (processorList p d) d (p_moduleProcessors p) = Ok (errs1, ms)"
    "p1 = p\<lparr>p_moduleProcessors := ms\<rparr>"
    using one by (auto simp: ProcessData_def and_then_Ok)
  have "\<forall>m \<in> set ms. removals m = []"
    using processData_removals [OF ms(1)] Cons.prems by simp
  with Cons.IH [OF rest] Cons.prems(2) ms(2) show ?case by simp
qed simp

section \<open>Properties\<close>

text \<open>What the import relies on: the database of the chain opens, has a latest version and loads, and nothing fails
  while it is read.\<close>

definition readable :: "chain_db \<Rightarrow> string \<Rightarrow> string list \<Rightarrow> int \<Rightarrow> bool" where
  "readable cdb path ks h \<longleftrightarrow> opens cdb (trim_db path) = None \<and> getLatestVersion cdb = Ok h \<and>
     loads cdb ks = None \<and> closes cdb = None \<and>
     (\<forall>k. iterator_error cdb k = None \<and> iterator_close cdb k = None)"

lemma first_error_readable: "readable cdb path ks h \<Longrightarrow> first_error cdb xs = Ok ()"
  by (induction xs) (simp_all add: readable_def)

lemma import_traces_write: "d \<in> set (interleave sched (map (store_traces cdb h) ks)) \<Longrightarrow> is_write d"
  using mset_eq_setD [OF mset_interleave [of sched "map (store_traces cdb h) ks"]]
  by (auto simp: store_traces_def import_trace_def is_write_def)

text \<open>C35. An import into tables that hold none of its rows writes every row the entries leave in the processor, in
  one flush, and, when no statement fails, logs no database error: the inserts do what upserts would do. This holds for every
  schedule of the goroutines and every order of range loops.\<close>

theorem import_writes:
  assumes "validateModulesList i = Ok ()"
    and "ks = (case im_Modules i of None \<Rightarrow> ImportableModulesList ord | Some ms \<Rightarrow> ms)"
    and "readable cdb (im_Path i) ks h" "\<forall>i j. range_order (ords i j)"
    and "\<forall>m \<in> set (p_moduleProcessors p). removals m = []"
    and "process_all e (interleave sched (map (store_traces cdb h) ks)) (SetDBUpsertEnabled False p) = Ok (errs, p')"
    and "importable (p_chainName p) db (p_moduleProcessors p')"
  shows "Do e ords ord sched finished cdb import_succeeds i p db = Ok (flush_effect p' db, map LogProcessing errs)"
proof -
  have kept: "\<forall>m \<in> set (p_moduleProcessors p'). removals m = []" "p_chainName p' = p_chainName p" "\<not> p_useDBUpsert p'"
    using process_all_removals [OF assms(6)] import_traces_write assms(5) by (auto simp: SetDBUpsertEnabled_def)
  obtain wb where wb: "Flush ords p' = Ok (wb, p'\<lparr>p_moduleProcessors := flushed ords 0 (p_moduleProcessors p')\<rparr>)"
    "processWritebackData import_succeeds wb db = Ok (flush_effect p' db, [])"
    using flush_modules_import [OF kept(3) assms(4), of db "p_moduleProcessors p'" 0] kept(1,2) assms(7)
    by (auto simp: Flush_def flush_effect_def)
  have faults: "opens cdb (trim_db (im_Path i)) = None" "getLatestVersion cdb = Ok h" "loads cdb ks = None" "closes cdb = None"
    using assms(3) by (simp_all add: readable_def)
  show ?thesis
    unfolding Do_def Let_def assms(2) [symmetric]
    by (simp add: assms(1,6) faults wb first_error_readable [OF assms(3)])
qed

definition empty_chain :: chain_db where
  "empty_chain = \<lparr>opens = (\<lambda>_. None), version_entry = Ok None, int64_unmarshal = (\<lambda>_. Ok 0), loads = (\<lambda>_. None),
     store_entries = (\<lambda>_. []), iterator_error = (\<lambda>_. None), iterator_close = (\<lambda>_. None), closes = None\<rparr>"

text \<open>A chain at height 9 with one entry in the store of balances.\<close>

definition coin_chain :: chain_db where
  "coin_chain = empty_chain\<lparr>version_entry := Ok (Some [8, 9]), int64_unmarshal := (\<lambda>_. Ok 9),
     store_entries := (\<lambda>s. if s = ''bank'' then [(Slice [2, 1, 7] [], [1])] else [])\<rparr>"

definition import_processor :: Processor where
  "import_processor = sample_processor\<lparr>p_moduleProcessors := [MBank \<lparr>bp_heightCache = []\<rparr>],
     p_sdkModuleMapping := [(''bank'', [0])]\<rparr>"

definition imported_processor :: Processor where
  "imported_processor = SetDBUpsertEnabled False import_processor\<lparr>p_moduleProcessors :=
     [MBank \<lparr>bp_heightCache = [((''aa'', ''uatom''), BalanceRow_at 9 ''aa'' ''7uatom'' ''uatom'')]\<rparr>]\<rparr>"

lemma import_writes_witness:
  "Do sample_env (\<lambda>_ _. forward) id [0] id coin_chain import_succeeds \<lparr>im_Path = ''application.db'', im_Modules = Some [''bank'']\<rparr>
     import_processor empty_db = Ok (flush_effect imported_processor empty_db, map LogProcessing [])"
proof (rule import_writes [where h = 9 and ks = "[''bank'']"])
  show "readable coin_chain (im_Path \<lparr>im_Path = ''application.db'', im_Modules = Some [''bank'']\<rparr>) [''bank''] 9"
    by (simp add: readable_def coin_chain_def empty_chain_def getLatestVersion_def)
  show "process_all sample_env (interleave [0] (map (store_traces coin_chain 9) [''bank'']))
      (SetDBUpsertEnabled False import_processor) = Ok ([], imported_processor)"
    by (simp add: store_traces_def import_trace_def coin_chain_def ProcessData_def processorList_def import_processor_def
        imported_processor_def SetDBUpsertEnabled_def sample_env_def sample_handler_def bank_OwnsKey_def bank_Process_def
        sample_processor_def gomap_set_def BalanceRow_at_def is_delete_def)
  show "importable (p_chainName import_processor) empty_db (p_moduleProcessors imported_processor)"
    by (auto simp: importable_def imported_processor_def import_processor_def SetDBUpsertEnabled_def module_fresh_def
        empty_db_def small_def keyed_def gomap_ok_def row_at_defs)
qed (simp_all add: validateModulesList_def SupportedSDKModuleList_def Bank_def import_processor_def)

end
