(* ===== verification/Blocktime.thy ===== *)
theory Blocktime
  imports Connection Store
begin

text \<open>
  The watcher of block times (\<open>tracelistener/blocktime/blocktime.go\<close>): connecting to the node, and the table
  of the time of the latest block of each chain. The client of the node is an argument; log output is
  left out.
\<close>

section \<open>The table\<close>

definition CreateTable :: string where
  "CreateTable = ''CREATE TABLE IF NOT EXISTS tracelistener.blocktime ('' @ [CHR 0x0A, CHR 0x09, CHR 0x09] @
     ''id serial unique primary key,'' @ [CHR 0x0A, CHR 0x09, CHR 0x09] @
     ''chain_name text not null,'' @ [CHR 0x0A, CHR 0x09, CHR 0x09] @
     ''block_time timestamp not null,'' @ [CHR 0x0A, CHR 0x09, CHR 0x09] @
     ''unique(chain_name)'' @ [CHR 0x0A, CHR 0x09] @ '')''"

text \<open>At most one row for each chain name, with its time.\<close>

type_synonym block_times = "string \<rightharpoonup> int"

record BlockTimeRow =
  bt_ChainName :: string
  bt_BlockTime :: int

text \<open>The statement: an existing row is overwritten by a later time only.\<close>

definition insertBlocktime :: "BlockTimeRow \<Rightarrow> block_times \<Rightarrow> nat \<times> block_times" where
  "insertBlocktime blo tb =
     (case tb (bt_ChainName blo) of
        None \<Rightarrow> (1, tb(bt_ChainName blo \<mapsto> bt_BlockTime blo))
      | Some block_time \<Rightarrow>
          if bt_BlockTime blo > block_time then (1, tb(bt_ChainName blo \<mapsto> bt_BlockTime blo)) else (0, tb))"

definition insertBlockTime :: "tx_fault option \<Rightarrow> BlockTimeRow \<Rightarrow> block_times \<Rightarrow> unit outcome \<times> block_times" where
  "insertBlockTime fault blo tb = Exec fault (insertBlocktime blo) tb"

section \<open>Events\<close>

text \<open>The time of the block, if there is a block; or data of another type.\<close>

datatype event_data = EventDataNewBlock "int option" | OtherData

text \<open>The message names the type of the variable, not of the data.\<close>

definition ParseBlockData ::
    "string \<Rightarrow> tx_fault option \<Rightarrow> event_data \<Rightarrow> block_times \<Rightarrow> unit outcome \<times> block_times" where
  "ParseBlockData chainName fault data tb =
     (case data of
        OtherData \<Rightarrow> (Err ''tried casting data to EventDataNewBlock, real type types.EventDataNewBlock'', tb)
      | EventDataNewBlock None \<Rightarrow> (Ok (), tb)
      | EventDataNewBlock (Some time) \<Rightarrow>
          (case insertBlockTime fault \<lparr>bt_ChainName = chainName, bt_BlockTime = time\<rparr> tb of
             (Err err, tb) \<Rightarrow>
               (if err \<noteq> ''affected rows are zero'' then Err (''cannot insert block time, '' @ err) else Ok (), tb)
           | r \<Rightarrow> r))"

text \<open>\<open>lifecycle\<close>: the loop over the events, each with what goes wrong when it is stored. The result holds the errors
  that are logged.\<close>

fun block_lifecycle ::
    "string \<Rightarrow> (event_data \<times> tx_fault option) list \<Rightarrow> block_times \<Rightarrow> string list \<times> block_times" where
  "block_lifecycle chainName [] tb = ([], tb)"
| "block_lifecycle chainName ((data, fault) # es) tb =
     (case ParseBlockData chainName fault data tb of
        (r, tb) \<Rightarrow> (case block_lifecycle chainName es tb of
          (errs, tb) \<Rightarrow> ((case r of Err err \<Rightarrow> [err] | _ \<Rightarrow> []) @ errs, tb)))"

section \<open>Connecting\<close>

text \<open>The errors of creating the client, of starting it and of the subscription.\<close>

definition Connect :: "string option \<Rightarrow> string option \<Rightarrow> string option \<Rightarrow> unit outcome" where
  "Connect new start subscribe =
     (case new of Some err \<Rightarrow> Err err | None \<Rightarrow>
     (case start of Some err \<Rightarrow> Err err | None \<Rightarrow>
     (case subscribe of Some err \<Rightarrow> Err err | None \<Rightarrow> Ok ())))"

text \<open>\<open>connectTendermint\<close> tries until a connection succeeds; \<open>attempts k\<close> is what \<open>Connect\<close> returns at the \<open>k\<close>th time. The
  result is the number of attempts that failed. It need not return.\<close>

partial_function (option) connectTendermint :: "(nat \<Rightarrow> unit outcome) \<Rightarrow> nat \<Rightarrow> nat option" where
  "connectTendermint attempts k =
     (if is_ok (attempts k) then Some k else connectTendermint attempts (Suc k))"

lemma connectTendermint_returns: "is_ok (attempts (k + n)) \<Longrightarrow> \<exists>m. connectTendermint attempts k = Some m \<and> m \<le> k + n"
proof (induction n arbitrary: k)
  case 0
  then show ?case by (subst connectTendermint.simps) simp
next
  case (Suc n)
  from Suc.IH [of "Suc k"] Suc.prems show ?case by (subst connectTendermint.simps) auto
qed

section \<open>A guarded store\<close>

text \<open>The table keeps the contract of \<open>height_guarded\<close>, with times for heights: the order of statements for distinct
  times does not matter.\<close>

interpretation block_times: height_guarded "\<lambda>blo tb. snd (insertBlocktime blo tb)" bt_ChainName bt_BlockTime bt_BlockTime
    "\<lambda>tb c. tb c" "\<lambda>t. t" "\<lambda>_. True" "\<lambda>_. True"
  by unfold_locales (auto simp: insertBlocktime_def split: option.splits)

lemma block_times_order:
  assumes "mset blos' = mset blos"
  shows "fold (\<lambda>blo tb. snd (insertBlocktime blo tb)) (map (\<lambda>t. \<lparr>bt_ChainName = c, bt_BlockTime = t\<rparr>) blos') tb k =
    fold (\<lambda>blo tb. snd (insertBlocktime blo tb)) (map (\<lambda>t. \<lparr>bt_ChainName = c, bt_BlockTime = t\<rparr>) blos) tb k"
  using assms by (intro block_times.fold_order) auto

section \<open>Facts\<close>

text \<open>The times that reach the table.\<close>

definition stored_time :: "event_data \<times> tx_fault option \<Rightarrow> int list" where
  "stored_time e = (case e of (EventDataNewBlock (Some time), None) \<Rightarrow> [time] | _ \<Rightarrow> [])"

definition latest :: "int option \<Rightarrow> int list \<Rightarrow> int option" where
  "latest q ts = (if q = None \<and> ts = [] then None else Some (Max (set_option q \<union> set ts)))"

lemma latest_Nil: "latest q [] = q"
  by (cases q) (simp_all add: latest_def)

lemma latest_Cons: "latest q (t # ts) = latest (case q of None \<Rightarrow> Some t | Some u \<Rightarrow> Some (max t u)) ts"
proof (cases q)
  case (Some u)
  have "Max (insert u (insert t (set ts))) = Max (insert (max t u) (set ts))"
  proof (cases "set ts = {}")
    case False
    then have "Max (insert u (insert t (set ts))) = max u (max t (Max (set ts)))"
      "Max (insert (max t u) (set ts)) = max (max t u) (Max (set ts))" by (simp_all add: Max_insert)
    then show ?thesis by (simp only: ac_simps)
  qed (simp add: max.commute)
  with Some show ?thesis
    by (simp only: latest_def option.case option.set list.set insert_is_Un [symmetric] Un_insert_left Un_empty_left
        option.distinct list.distinct simp_thms if_False)
qed (simp add: latest_def)

lemma ParseBlockData_stores:
  "snd (ParseBlockData c fault data tb) = tb(c := latest (tb c) (stored_time (data, fault)))"
proof (cases "stored_time (data, fault) = []")
  case True
  then have "snd (ParseBlockData c fault data tb) = tb"
    by (auto simp: stored_time_def ParseBlockData_def insertBlockTime_def Exec_def case_prod_unfold
        split: event_data.splits option.splits tx_fault.splits outcome.splits)
  with True show ?thesis by (simp add: latest_Nil)
next
  case False
  then obtain t where "data = EventDataNewBlock (Some t)" "fault = None"
    by (auto simp: stored_time_def split: event_data.splits option.splits)
  then show ?thesis
    by (auto simp: stored_time_def ParseBlockData_def insertBlockTime_def Exec_def insertBlocktime_def
        affected_zero_def latest_Cons latest_Nil fun_eq_iff split: option.splits)
qed

section \<open>Properties\<close>

text \<open>C36. Whatever events arrive and whatever transactions fail, the table holds for the chain the latest of the time
  it held and the times of the blocks whose transaction succeeded, and nothing else in it changes; when no
  transaction fails, errors are logged for events of another type only.\<close>

theorem block_times_latest:
  "snd (block_lifecycle c es tb) = tb(c := latest (tb c) (concat (map stored_time es))) \<and>
   (fst (block_lifecycle c es tb) = [] \<or> (\<exists>e \<in> set es. fst e = OtherData \<or> snd e \<noteq> None))"
proof (induction es arbitrary: tb)
  case Nil
  then show ?case by (simp add: latest_Nil)
next
  case (Cons e es)
  obtain data fault where e: "e = (data, fault)" by fastforce
  obtain r tb1 where step: "ParseBlockData c fault data tb = (r, tb1)" by fastforce
  have tb1: "tb1 = tb(c := latest (tb c) (stored_time e))"
    using ParseBlockData_stores [of c fault data tb] step by (simp add: e)
  have append: "latest (latest q (stored_time e)) ts = latest q (stored_time e @ ts)" for q ts
    by (auto simp: stored_time_def latest_Nil latest_Cons split: prod.splits event_data.splits option.splits)
  have "\<exists>u. r = Ok u" if "data \<noteq> OtherData" "fault = None"
    using step that
    by (auto simp: ParseBlockData_def insertBlockTime_def Exec_def insertBlocktime_def affected_zero_def
        split: event_data.splits option.splits if_splits)
  then have "(case r of Err err \<Rightarrow> [err] | _ \<Rightarrow> []) = [] \<or> fst e = OtherData \<or> snd e \<noteq> None"
    by (cases r) (auto simp: e)
  moreover have "block_lifecycle c (e # es) tb =
      ((case r of Err err \<Rightarrow> [err] | _ \<Rightarrow> []) @ fst (block_lifecycle c es tb1), snd (block_lifecycle c es tb1))"
    by (simp add: e step case_prod_unfold)
  moreover have "snd (block_lifecycle c es tb1) = tb(c := latest (tb c) (concat (map stored_time (e # es))))"
  proof -
    have "snd (block_lifecycle c es tb1) = tb1(c := latest (tb1 c) (concat (map stored_time es)))"
      by (rule conjunct1 [OF Cons.IH])
    also have "\<dots> = tb(c := latest (latest (tb c) (stored_time e)) (concat (map stored_time es)))"
      unfolding tb1 by simp
    finally show ?thesis unfolding append by simp
  qed
  ultimately show ?case using conjunct2 [OF Cons.IH [of tb1]] by auto
qed

lemma block_times_latest_witness:
  "snd (block_lifecycle ''c'' [(EventDataNewBlock (Some 5), None), (OtherData, None), (EventDataNewBlock (Some 3), None)]
     [''d'' \<mapsto> 4]) = [''d'' \<mapsto> 4, ''c'' \<mapsto> 5]"
proof -
  have "latest None [5, 3] = Some 5" by (simp add: latest_def)
  then show ?thesis
    using block_times_latest [of "''c''" "[(EventDataNewBlock (Some 5), None), (OtherData, None), (EventDataNewBlock (Some 3), None)]"
        "[''d'' \<mapsto> 4]"]
    by (simp only: stored_time_def list.map concat.simps) (simp add: fun_eq_iff)
qed

end
