(* ===== verification/Startup.thy ===== *)
theory Startup
  imports Bulk Blocktime Exporter_Http Command_Line
begin

text \<open>
  How the programs start: configuration (\<open>tracelistener/config\<close>, \<open>configuration\<close>, \<open>validation\<close>), command lines,
  the main program up to its loop (\<open>cmd/tracelistener/main.go\<close>), and the SQL generator's main program
  (\<open>cmd/sqlgen/main.go\<close>). The libraries for flags, configuration files and validation are arguments.
\<close>

section \<open>Missing fields\<close>

text \<open>A failed check of the validator: its tag, the name of the field and the actual tag; or another error.\<close>

record field_error =
  fe_Tag :: string
  fe_Field :: string
  fe_ActualTag :: string

datatype validation_failure = ValidationErrors "field_error list" | OtherFailure string

definition failure_text :: "(field_error list \<Rightarrow> string) \<Rightarrow> validation_failure \<Rightarrow> string" where
  "failure_text show_errors err =
     (case err of ValidationErrors ve \<Rightarrow> show_errors ve | OtherFailure msg \<Rightarrow> msg)"

text \<open>A nil slice is the empty list.\<close>

definition MissingFields :: "validation_failure \<Rightarrow> bool \<Rightarrow> string list" where
  "MissingFields err fieldName =
     (case err of
        OtherFailure msg \<Rightarrow> []
      | ValidationErrors ve \<Rightarrow>
          concat (map (\<lambda>e. if fe_Tag e = ''required''
            then [if fieldName then fe_ActualTag e else fe_Field e] else []) ve))"

definition MissingFieldsErr :: "(field_error list \<Rightarrow> string) \<Rightarrow> validation_failure \<Rightarrow> bool \<Rightarrow> string" where
  "MissingFieldsErr show_errors err fieldName =
     (let f = MissingFields err fieldName
      in if f = [] then failure_text show_errors err else ''missing fields: '' @ join '','' f)"

definition jsonTag :: "string \<Rightarrow> string" where
  "jsonTag tag = (let name = takeWhile (\<lambda>c. c \<noteq> CHR '','') tag in if name = ''-'' then [] else name)"

text \<open>Registration at the validator of an HTTP framework, if its engine is the one of the library. What the library
  does with a registration, and the parser of derivation paths, are arguments. A field of a type other than a
  text is \<open>None\<close>.\<close>

definition JSONFields :: "('v \<Rightarrow> (string \<Rightarrow> string) \<Rightarrow> 'v) \<Rightarrow> 'v option \<Rightarrow> 'v option" where
  "JSONFields RegisterTagNameFunc engine = map_option (\<lambda>v. RegisterTagNameFunc v jsonTag) engine"

definition validateDerivationPath :: "(string \<Rightarrow> 'p outcome) \<Rightarrow> string \<Rightarrow> unit outcome" where
  "validateDerivationPath ParseDerivationPath dp = and_then (ParseDerivationPath dp) (\<lambda>_. Ok ())"

definition derivation_path_check :: "(string \<Rightarrow> 'p outcome) \<Rightarrow> string option \<Rightarrow> bool outcome" where
  "derivation_path_check ParseDerivationPath field =
     (case field of
        None \<Rightarrow> Ok False
      | Some path \<Rightarrow> (case validateDerivationPath ParseDerivationPath path of
          Ok _ \<Rightarrow> Ok True | Err _ \<Rightarrow> Ok False | Panic q \<Rightarrow> Panic q))"

definition DerivationPath ::
    "('v \<Rightarrow> string \<Rightarrow> (string option \<Rightarrow> bool outcome) \<Rightarrow> 'v outcome) \<Rightarrow> (string \<Rightarrow> 'p outcome)
      \<Rightarrow> 'v option \<Rightarrow> 'v option outcome" where
  "DerivationPath RegisterValidation ParseDerivationPath engine =
     (case engine of
        None \<Rightarrow> Ok None
      | Some v \<Rightarrow>
          (case RegisterValidation v ''derivationpath'' (derivation_path_check ParseDerivationPath) of
             Ok v' \<Rightarrow> Ok (Some v') | Err err \<Rightarrow> Panic err | Panic q \<Rightarrow> Panic q))"

lemma derivation_path_check_accepts:
  "derivation_path_check ParseDerivationPath field = Ok True \<longleftrightarrow>
     (\<exists>path. field = Some path \<and> is_ok (ParseDerivationPath path))"
  by (cases field; cases "ParseDerivationPath (the field)")
    (auto simp: derivation_path_check_def validateDerivationPath_def is_ok_iff)

section \<open>Configuration\<close>

record Config =
  cfg_FIFOPath :: string
  cfg_ChainName :: string
  cfg_DatabaseConnectionURL :: string
  cfg_LogPath :: string
  cfg_Debug :: bool
  cfg_JSONLogs :: bool
  cfg_EnableCpuProfiling :: bool
  cfg_ProcessorsEnabled :: "string list option"
  cfg_ExporterHTTPPort :: string

text \<open>The validator library on this type: a required field is not empty.\<close>

definition required :: "string \<Rightarrow> string \<Rightarrow> field_error list" where
  "required field v =
     (if v = [] then [\<lparr>fe_Tag = ''required'', fe_Field = field, fe_ActualTag = ''required''\<rparr>] else [])"

definition Struct :: "Config \<Rightarrow> validation_failure option" where
  "Struct c =
     (case required ''FIFOPath'' (cfg_FIFOPath c) @ required ''ChainName'' (cfg_ChainName c) @
           required ''DatabaseConnectionURL'' (cfg_DatabaseConnectionURL c) of
        [] \<Rightarrow> None
      | ve \<Rightarrow> Some (ValidationErrors ve))"

definition Config_Validate :: "(field_error list \<Rightarrow> string) \<Rightarrow> Config \<Rightarrow> string option" where
  "Config_Validate show_errors c =
     (case Struct c of None \<Rightarrow> None | Some err \<Rightarrow> Some (MissingFieldsErr show_errors err False))"

text \<open>Reading: a missing file is no error. \<open>unmarshal\<close> fills the structure from files, environment and defaults.\<close>

datatype read_result = ConfigRead | ConfigFileNotFound | ReadFailed string

definition ReadConfig ::
    "read_result \<Rightarrow> 'c outcome \<Rightarrow> ('c \<Rightarrow> string option) \<Rightarrow> 'c outcome" where
  "ReadConfig read_file unmarshal validate =
     (case read_file of
        ReadFailed err \<Rightarrow> Err err
      | _ \<Rightarrow> (case unmarshal of
          Err err \<Rightarrow> Err (''config error: '' @ err)
        | Panic q \<Rightarrow> Panic q
        | Ok c \<Rightarrow> (case validate c of Some err \<Rightarrow> Err err | None \<Rightarrow> Ok c)))"

definition Read ::
    "(field_error list \<Rightarrow> string) \<Rightarrow> read_result \<Rightarrow> ((string \<times> string) list \<Rightarrow> Config outcome) \<Rightarrow> Config outcome" where
  "Read show_errors read_file unmarshal =
     ReadConfig read_file (unmarshal [(''FIFOPath'', ''./.tracelistener.fifo'')]) (Config_Validate show_errors)"

lemma Config_Validate_iff:
  "Config_Validate show_errors c = None \<longleftrightarrow>
     cfg_FIFOPath c \<noteq> [] \<and> cfg_ChainName c \<noteq> [] \<and> cfg_DatabaseConnectionURL c \<noteq> []"
  by (simp add: Config_Validate_def Struct_def required_def)

section \<open>Command line\<close>

record cliArgs =
  existingDatabasePath :: string
  bulkImportModules :: string
  bulkImportSupportedModules :: bool

text \<open>\<open>strings.TrimSpace\<close>: the white space of Unicode, in UTF-8.\<close>

definition spaces :: "string list" where
  "spaces = [[CHR 0x09], [CHR 0x0A], [CHR 0x0B], [CHR 0x0C], [CHR 0x0D], [CHR 0x20],
     [CHR 0xC2, CHR 0x85], [CHR 0xC2, CHR 0xA0], [CHR 0xE1, CHR 0x9A, CHR 0x80]] @
     map (\<lambda>c. [CHR 0xE2, CHR 0x80, c])
       [CHR 0x80, CHR 0x81, CHR 0x82, CHR 0x83, CHR 0x84, CHR 0x85, CHR 0x86, CHR 0x87, CHR 0x88, CHR 0x89,
        CHR 0x8A, CHR 0xA8, CHR 0xA9, CHR 0xAF] @
     [[CHR 0xE2, CHR 0x81, CHR 0x9F], [CHR 0xE3, CHR 0x80, CHR 0x80]]"

function strip :: "string list \<Rightarrow> string \<Rightarrow> string" where
  "strip sps s =
     (case filter (\<lambda>p. p \<noteq> [] \<and> prefix p s) sps of [] \<Rightarrow> s | p # ps \<Rightarrow> strip sps (drop (length p) s))"
  by auto

termination
proof (relation "measure (\<lambda>(sps, s). length s)", goal_cases)
  case (2 sps s p ps)
  then have "p \<in> set (filter (\<lambda>p. p \<noteq> [] \<and> prefix p s) sps)" by simp
  then have "0 < length p" "length p \<le> length s" by (auto dest: prefix_length_le)
  then show ?case by (cases p) simp_all
qed simp

declare strip.simps [simp del]

definition TrimSpace :: "string \<Rightarrow> string" where
  "TrimSpace s = rev (strip (map rev spaces) (rev (strip spaces s)))"

definition bulkImportModulesSlice :: "cliArgs \<Rightarrow> string list option" where
  "bulkImportModulesSlice c =
     (if bulkImportModules c = [] then None
      else Some (map TrimSpace (split_on (CHR '','') (bulkImportModules c))))"

text \<open>A trimmed module name neither starts nor ends with white space.\<close>

lemma strip_stripped: "p \<in> set sps \<Longrightarrow> p \<noteq> [] \<Longrightarrow> \<not> prefix p (strip sps s)"
proof (induction sps s rule: strip.induct)
  case (1 sps s)
  show ?case
  proof (cases "filter (\<lambda>p. p \<noteq> [] \<and> prefix p s) sps")
    case Nil
    then have "\<not> prefix p s" using "1.prems" by (auto simp: filter_empty_conv)
    with Nil show ?thesis by (simp add: strip.simps [of sps s])
  next
    case (Cons q qs)
    with 1 show ?thesis by (simp add: strip.simps [of sps s])
  qed
qed

lemma TrimSpace_end: "p \<in> set spaces \<Longrightarrow> p \<noteq> [] \<Longrightarrow> \<not> suffix p (TrimSpace s)"
  using strip_stripped [of "rev p" "map rev spaces" "rev (strip spaces s)"]
  by (simp add: TrimSpace_def suffix_to_prefix)

definition readCLI :: "given_flags \<Rightarrow> cliArgs" where
  "readCLI g =
     \<lparr>existingDatabasePath = StringVar g ''import'' [],
      bulkImportModules = StringVar g ''import-modules'' [],
      bulkImportSupportedModules = BoolVar g ''import-modules-list'' False\<rparr>"

section \<open>The main program\<close>

text \<open>What the main program finds: the SDK version compiled in, the command line, the configuration, what the
  database and its migrations answer, the chain's database, the schedule and the failing statements of an import, and the errors of
  making the fifo.\<close>

record surroundings =
  sur_SupportedSDKVersion :: string
  sur_flags :: given_flags
  sur_order :: "string list \<Rightarrow> string list"
  sur_config :: "Config outcome"
  sur_connect :: "nat \<Rightarrow> string option"
  sur_ping :: "nat \<Rightarrow> string option"
  sur_migrate :: "string \<Rightarrow> string option"
  sur_db_close :: "string option"
  sur_env :: env
  sur_orders :: "nat \<Rightarrow> orders"
  sur_sched :: "nat list"
  sur_finished :: "string list \<Rightarrow> string list"
  sur_chain_db :: chain_db
  sur_import_faults :: "nat \<Rightarrow> nat \<Rightarrow> fault \<times> fault"
  sur_OpenFifo :: "string option"
  sur_fifo_close :: "string option"

text \<open>How the start ends: the list of modules was printed, an import was done, or the loop begins, with the
  processor, the path watched, the chain of the block times and the address of the exporter.\<close>

datatype started =
    Listed string
  | Imported database "log_entry list"
  | Watching Processor string string Exporter string

text \<open>The connection of the instance, and the one of its migrations.\<close>

definition main_database :: "surroundings \<Rightarrow> string list \<Rightarrow> unit outcome \<times> string list" where
  "main_database su registered =
     New_instance (New_connection (sur_connect su 0) (sur_ping su 0))
       (New_connection (sur_connect su 1) (sur_ping su 1)) (sur_migrate su) (sur_db_close su) registered"

definition main_migrations :: "Processor \<Rightarrow> string list" where
  "main_migrations dpi =
     RegisterMigration [CreateTable] (RegisterMigration (DatabaseMigrations dpi) migrationList)"

definition main_import :: "surroundings \<Rightarrow> cliArgs \<Rightarrow> Processor \<Rightarrow> database \<Rightarrow> started outcome" where
  "main_import su ca dpi db =
     (case Do (sur_env su) (sur_orders su) (sur_order su) (sur_sched su) (sur_finished su) (sur_chain_db su) (sur_import_faults su)
           \<lparr>im_Path = existingDatabasePath ca, im_Modules = bulkImportModulesSlice ca\<rparr> dpi db of
        Err err \<Rightarrow> Panic (''import error'' @ err)
      | Panic q \<Rightarrow> Panic q
      | Ok (db', logs) \<Rightarrow> Ok (Imported db' logs))"

definition main_watch :: "surroundings \<Rightarrow> Config \<Rightarrow> Processor \<Rightarrow> started outcome" where
  "main_watch su cfg dpi =
     (case sur_OpenFifo su of Some err \<Rightarrow> Err err | None \<Rightarrow>
     (case sur_fifo_close su of Some err \<Rightarrow> Err err | None \<Rightarrow>
      and_then (New_exporter [WithLogger (Some (Sugared 0))]) (\<lambda>traceExporter.
        Ok (Watching dpi (cfg_FIFOPath cfg) (cfg_ChainName cfg) traceExporter
              (listen_address (cfg_ExporterHTTPPort cfg))))))"

text \<open>An \<open>Err\<close> is what \<open>logger.Fatal\<close> ends the program with. With the outcome come the migrations executed.\<close>

definition start_main :: "surroundings \<Rightarrow> database \<Rightarrow> started outcome \<times> string list" where
  "start_main su db =
     (if sur_SupportedSDKVersion su = [] then (Panic ''missing sdk version at compile time, panic!'', [])
      else let ca = readCLI (sur_flags su) in
      if bulkImportSupportedModules ca
      then (Ok (Listed (''Import-able modules list: '' @ join '', '' (ImportableModulesList (sur_order su)))), [])
      else case sur_config su of
        Err err \<Rightarrow> (Panic err, [])
      | Panic q \<Rightarrow> (Panic q, [])
      | Ok cfg \<Rightarrow>
         (case New (cfg_ProcessorsEnabled cfg) (cfg_ChainName cfg) of
            Err err \<Rightarrow> (Err err, [])
          | Panic q \<Rightarrow> (Panic q, [])
          | Ok dpi \<Rightarrow>
             let dpi = SetDBUpsertEnabled True dpi in
             (case main_database su (main_migrations dpi) of
                (Ok _, executed) \<Rightarrow>
                  (if existingDatabasePath ca \<noteq> [] then main_import su ca dpi db else main_watch su cfg dpi, executed)
              | (Err err, executed) \<Rightarrow> (Err err, executed)
              | (Panic q, executed) \<Rightarrow> (Panic q, executed))))"

section \<open>The main program of the SQL generator\<close>

record sqlgen_flags =
  ConfigPath :: string
  OutputDir :: string

text \<open>\<open>exists\<close>: the file is there, or cannot be examined.\<close>

definition sqlgen_Validate :: "(string \<Rightarrow> bool) \<Rightarrow> sqlgen_flags \<Rightarrow> string option" where
  "sqlgen_Validate exists f =
     (if length (ConfigPath f) = 0 then Some ''missing config file''
      else if \<not> exists (ConfigPath f) then Some (ConfigPath f @ '': file does not exist'')
      else if length (OutputDir f) = 0 then Some ''missing output directory''
      else None)"

definition GetFlags :: "given_flags \<Rightarrow> sqlgen_flags" where
  "GetFlags g =
     \<lparr>ConfigPath = StringVar g ''config'' [], OutputDir = StringVar g ''out'' ''./tracelistener/tables''\<rparr>"

record TemplateParam =
  tp_PackageName :: string
  tp_StructName :: string
  tp_Config :: TableConfig

definition template_param :: "(string \<Rightarrow> string) \<Rightarrow> TableConfig \<Rightarrow> TemplateParam" where
  "template_param Title table =
     \<lparr>tp_PackageName = ''tables'', tp_StructName = getStructName Title (tc_Name table), tp_Config = table\<rparr>"

text \<open>The loop over the tables. \<open>create\<close> is the error of creating a file of the output directory. With the outcome come
  the files that were written and what the template was executed on.\<close>

fun sqlgen_tables ::
    "unicode \<Rightarrow> (string \<Rightarrow> string) \<Rightarrow> (string \<Rightarrow> string option) \<Rightarrow> TableConfig list \<Rightarrow>
     unit outcome \<times> (string \<times> TemplateParam) list" where
  "sqlgen_tables u Title create [] = (Ok (), [])"
| "sqlgen_tables u Title create (table # tables) =
     (case TableConfig_Validate u table of
        Err err \<Rightarrow> (Panic err, [])
      | Panic q \<Rightarrow> (Panic q, [])
      | Ok _ \<Rightarrow>
         (case create (getFileName (tc_Name table)) of
            Some err \<Rightarrow> (Panic err, [])
          | None \<Rightarrow>
             (case sqlgen_tables u Title create tables of
                (r, files) \<Rightarrow> (r, (getFileName (tc_Name table), template_param Title table) # files))))"

text \<open>\<open>config_tables\<close>: the tables read from the configuration file, or the error of reading it.\<close>

definition sqlgen_main ::
    "unicode \<Rightarrow> (string \<Rightarrow> string) \<Rightarrow> (string \<Rightarrow> bool) \<Rightarrow> (string \<Rightarrow> TableConfig list outcome) \<Rightarrow>
     string option \<Rightarrow> (string \<Rightarrow> string option) \<Rightarrow> given_flags \<Rightarrow> unit outcome \<times> (string \<times> TemplateParam) list" where
  "sqlgen_main u Title exists config_tables mkdir create g =
     (let f = GetFlags g in
      case sqlgen_Validate exists f of
        Some err \<Rightarrow> (Panic err, [])
      | None \<Rightarrow>
         (case config_tables (ConfigPath f) of
            Err err \<Rightarrow> (Panic err, [])
          | Panic q \<Rightarrow> (Panic q, [])
          | Ok tables \<Rightarrow>
             (case mkdir of
                Some err \<Rightarrow> (Panic err, [])
              | None \<Rightarrow> sqlgen_tables u Title create tables)))"

text \<open>The tables are written in order up to the first one that is refused.\<close>

lemma sqlgen_tables_written:
  "sqlgen_tables u Title create ts = (r, files) \<Longrightarrow>
    (\<exists>n \<le> length ts. files = map (\<lambda>t. (getFileName (tc_Name t), template_param Title t)) (take n ts) \<and>
      (\<forall>t \<in> set (take n ts). TableConfig_Validate u t = Ok ()) \<and> (is_ok r \<longleftrightarrow> n = length ts))"
proof (induction ts arbitrary: r files)
  case (Cons t ts)
  show ?case
  proof (cases "TableConfig_Validate u t = Ok () \<and> create (getFileName (tc_Name t)) = None")
    case True
    obtain r' files' where rest: "sqlgen_tables u Title create ts = (r', files')" by (rule prod.exhaust)
    from Cons.IH [OF this] obtain n where "n \<le> length ts"
      "files' = map (\<lambda>t. (getFileName (tc_Name t), template_param Title t)) (take n ts)"
      "\<forall>t \<in> set (take n ts). TableConfig_Validate u t = Ok ()" "is_ok r' \<longleftrightarrow> n = length ts" by blast
    with True Cons.prems rest show ?thesis by (intro exI [of _ "Suc n"]) auto
  next
    case False
    show ?thesis
    proof (cases "TableConfig_Validate u t")
      case (Ok x)
      with False obtain err where "create (getFileName (tc_Name t)) = Some err" by auto
      with Ok Cons.prems show ?thesis by (intro exI [of _ 0]) auto
    next
      case (Err err)
      with Cons.prems show ?thesis by (intro exI [of _ 0]) auto
    next
      case (Panic q)
      with Cons.prems have "files = []" "r = Panic q" by auto
      then show ?thesis by (intro exI [of _ 0]) simp
    qed
  qed
qed simp

section \<open>Properties\<close>

lemma run_migrations_main:
  "main_database su ms = (Ok u, executed) \<Longrightarrow> executed = ms \<and> (\<forall>m \<in> set ms. sur_migrate su m = None)"
  using run_migrations_prefix [of "sur_migrate su" 0 ms]
  by (auto simp: main_database_def New_instance_def runMigrations_def RunMigrations_def
      split: outcome.splits prod.splits option.splits)

lemma New_migrations:
  "New ps chain = Ok p \<Longrightarrow> p_migrations p = concat (map module_Migrations (p_moduleProcessors p)) \<and>
    map module_ModuleName (p_moduleProcessors p) = enabled_of ps \<and> p_chainName p = chain"
  using build_modules [of "enabled_of ps" "[]" "[]" "[]"]
  by (auto simp: New_def enabled_of_def and_then_Ok split: option.splits)

text \<open>C37. Before the program begins to watch traces it has read a configuration with everything required, and has
  executed, without any error, the creation of the database, the migrations of the enabled modules in the order in
  which the configuration names them, and the creation of the table of block times; the processor it hands on has
  those modules, the name of the chain, and overwrites existing rows.\<close>

theorem start_migrates:
  assumes "start_main su db = (Ok (Watching dpi fifo chain ex addr), executed)"
    and "sur_config su = Read show_errors read_file unmarshal"
  shows "\<exists>cfg. sur_config su = Ok cfg \<and> fifo = cfg_FIFOPath cfg \<and> fifo \<noteq> [] \<and> chain = cfg_ChainName cfg \<and> chain \<noteq> [] \<and>
      map module_ModuleName (p_moduleProcessors dpi) = enabled_of (cfg_ProcessorsEnabled cfg) \<and>
      p_chainName dpi = chain \<and> p_useDBUpsert dpi \<and>
      executed = createDatabase # concat (map module_Migrations (p_moduleProcessors dpi)) @ [CreateTable] \<and>
      (\<forall>m \<in> set executed. sur_migrate su m = None)"
proof -
  obtain cfg where cfg: "sur_config su = Ok cfg"
    using assms(1) by (auto simp: start_main_def Let_def split: if_splits outcome.splits)
  with assms(1) obtain p where p: "New (cfg_ProcessorsEnabled cfg) (cfg_ChainName cfg) = Ok p"
    by (auto simp: start_main_def Let_def split: if_splits outcome.splits)
  obtain r run where db: "main_database su (main_migrations (SetDBUpsertEnabled True p)) = (r, run)"
    by (rule prod.exhaust)
  have r: "r = Ok ()" "executed = run" and watch: "main_watch su cfg (SetDBUpsertEnabled True p) = Ok (Watching dpi fifo chain ex addr)"
    using assms(1) by (auto simp: start_main_def Let_def cfg p db main_import_def split: if_splits outcome.splits)
  have dpi: "dpi = SetDBUpsertEnabled True p" "fifo = cfg_FIFOPath cfg" "chain = cfg_ChainName cfg"
    using watch by (auto simp: main_watch_def and_then_Ok split: option.splits)
  have "Config_Validate show_errors cfg = None"
    using assms(2) cfg by (auto simp: Read_def ReadConfig_def split: read_result.splits outcome.splits option.splits)
  then have "fifo \<noteq> []" "chain \<noteq> []" by (simp_all add: Config_Validate_iff dpi)
  moreover have "executed = createDatabase # concat (map module_Migrations (p_moduleProcessors dpi)) @ [CreateTable]"
    "\<forall>m \<in> set executed. sur_migrate su m = None"
    using run_migrations_main [of su _ "()" run] db r New_migrations [OF p]
    by (auto simp: main_migrations_def RegisterMigration_def migrationList_def DatabaseMigrations_def
        SetDBUpsertEnabled_def dpi)
  ultimately show ?thesis using cfg dpi New_migrations [OF p] by (simp add: SetDBUpsertEnabled_def)
qed

definition sample_config :: Config where
  "sample_config = \<lparr>cfg_FIFOPath = ''./.tracelistener.fifo'', cfg_ChainName = ''cosmos-hub'',
     cfg_DatabaseConnectionURL = ''postgres://db'', cfg_LogPath = [], cfg_Debug = False, cfg_JSONLogs = True,
     cfg_EnableCpuProfiling = False, cfg_ProcessorsEnabled = Some [''bank''], cfg_ExporterHTTPPort = []\<rparr>"

definition sample_surroundings :: surroundings where
  "sample_surroundings =
     \<lparr>sur_SupportedSDKVersion = ''v44'', sur_flags = no_flags, sur_order = id,
      sur_config = Read (\<lambda>_. []) ConfigFileNotFound (\<lambda>_. Ok sample_config), sur_connect = (\<lambda>_. None), sur_ping = (\<lambda>_. None),
      sur_migrate = (\<lambda>_. None), sur_db_close = None, sur_env = sample_env, sur_orders = (\<lambda>_ _. forward), sur_sched = [],
      sur_finished = id, sur_chain_db = empty_chain,
      sur_import_faults = import_succeeds, sur_OpenFifo = None, sur_fifo_close = None\<rparr>"

lemma start_migrates_witness:
  "\<exists>dpi ex. fst (start_main sample_surroundings empty_db) =
      Ok (Watching dpi ''./.tracelistener.fifo'' ''cosmos-hub'' ex '':8111'') \<and>
    snd (start_main sample_surroundings empty_db) =
      createDatabase # concat (map module_Migrations (p_moduleProcessors dpi)) @ [CreateTable]"
proof -
  have cfg: "sur_config sample_surroundings = Ok sample_config"
  proof -
    have "Config_Validate (\<lambda>_. []) sample_config = None" by (simp add: Config_Validate_iff sample_config_def)
    then show ?thesis by (simp add: sample_surroundings_def Read_def ReadConfig_def)
  qed
  have read: "sur_config sample_surroundings = Read (\<lambda>_. []) ConfigFileNotFound (\<lambda>_. Ok sample_config)"
    by (simp add: sample_surroundings_def)
  obtain p where p: "New (Some [''bank'']) ''cosmos-hub'' = Ok p"
    by (simp add: New_def processorByName_def bank_ModuleName_def Let_def)
  have db: "fst (main_database sample_surroundings ms) = Ok ()" for ms
  proof -
    have "is_ok (fst (run_migrations (\<lambda>_. None) i ms))" for i
      by (induction ms arbitrary: i) (simp_all add: case_prod_unfold)
    then have "is_ok (fst (run_migrations (\<lambda>_. None) 0 ms))" by blast
    then show ?thesis
      by (cases "run_migrations (\<lambda>_. None) 0 ms")
        (auto simp: main_database_def New_instance_def runMigrations_def RunMigrations_def New_connection_def
          NewWithDriver_def sample_surroundings_def split: outcome.splits)
  qed
  have watch: "main_watch sample_surroundings sample_config q =
      Ok (Watching q ''./.tracelistener.fifo'' ''cosmos-hub'' (new_exporter\<lparr>logger := Sugared 0\<rparr>) '':8111'')" for q
    by (simp add: main_watch_def sample_surroundings_def New_exporter_def WithLogger_def sample_config_def
        listen_address_def Let_def)
  define dpi where "dpi = SetDBUpsertEnabled True p"
  obtain r run where run: "main_database sample_surroundings (main_migrations dpi) = (r, run)" by (rule prod.exhaust)
  then have r: "r = Ok ()" using db [of "main_migrations dpi"] by simp
  have args: "readCLI (sur_flags sample_surroundings) =
      \<lparr>existingDatabasePath = [], bulkImportModules = [], bulkImportSupportedModules = False\<rparr>"
    "sur_SupportedSDKVersion sample_surroundings \<noteq> []"
    "cfg_ProcessorsEnabled sample_config = Some [''bank'']" "cfg_ChainName sample_config = ''cosmos-hub''"
    by (simp_all add: sample_surroundings_def readCLI_def sample_config_def)
  have "fst (start_main sample_surroundings empty_db) =
      Ok (Watching dpi ''./.tracelistener.fifo'' ''cosmos-hub'' (new_exporter\<lparr>logger := Sugared 0\<rparr>) '':8111'')"
    by (simp add: start_main_def cfg args p run r watch dpi_def [symmetric] Let_def)
  then show ?thesis
    using start_migrates [OF _ read, of empty_db dpi "''./.tracelistener.fifo''" "''cosmos-hub''"
        "new_exporter\<lparr>logger := Sugared 0\<rparr>" "'':8111''" "snd (start_main sample_surroundings empty_db)"]
    by (metis prod.collapse)
qed

end
