(* ===== verification/Logging.thy ===== *)
theory Logging
  imports Go_Lib
begin

text \<open>
  The loggers (\<open>logging\<close>): which outputs a configuration gives, and the middleware that puts a logger with the
  identifiers of a request into the request's context. A logger is its name and the fields added to it; the
  libraries for logging, HTTP and identifiers are represented by what is taken from them here.
\<close>

section \<open>Outputs\<close>

record LoggingConfig =
  lc_LogPath :: string
  lc_JSON :: bool
  lc_Debug :: bool

datatype log_core = FileCore string | StdoutCore

text \<open>The development logger with its encoding, or the cores of a tee.\<close>

datatype log_output = Development string | Tee "log_core list"

definition New_logger :: "LoggingConfig \<Rightarrow> log_output" where
  "New_logger lc =
     (if lc_Debug lc then Development (if lc_JSON lc then ''json'' else ''console'')
      else Tee ((if lc_LogPath lc \<noteq> [] then [FileCore (lc_LogPath lc)] else []) @ [StdoutCore]))"

lemma New_logger_stdout: "\<not> lc_Debug lc \<Longrightarrow> \<exists>cs. New_logger lc = Tee (cs @ [StdoutCore])"
  by (simp add: New_logger_def)

section \<open>Contexts of requests\<close>

text \<open>A missing value of a context is nil.\<close>

type_synonym log_fields = "(string \<times> string option) list"

datatype context_value = LoggerValue log_fields | OtherValue

record gin_context =
  gc_header :: "string \<Rightarrow> string"
  gc_response :: "string \<rightharpoonup> string"
  gc_values :: "string \<rightharpoonup> string"
  gc_params :: "(string \<times> string) list"
  gc_RawQuery :: string
  gc_set :: "string \<rightharpoonup> context_value"

definition LoggerKey :: string where
  "LoggerKey = ''logger''"

definition CorrelationIDName :: string where
  "CorrelationIDName = ''correlation_id''"

definition IntCorrelationIDName :: string where
  "IntCorrelationIDName = ''int_correlation_id''"

definition ExternalCorrelationIDName :: string where
  "ExternalCorrelationIDName = ''X-Correlation-Id''"

text \<open>\<open>uid\<close> is the text of the new identifier; when none could be made it is the one of the zero value, and the error is
  logged. The handlers that follow are left to the caller.\<close>

definition addLogger :: "string \<Rightarrow> gin_context \<Rightarrow> log_fields \<Rightarrow> gin_context" where
  "addLogger uid c l =
     (let correlationID = gc_header c ExternalCorrelationIDName;
          (c, l) = (if correlationID \<noteq> []
            then (c\<lparr>gc_values := (gc_values c)(CorrelationIDName \<mapsto> correlationID),
                    gc_response := (gc_response c)(ExternalCorrelationIDName \<mapsto> correlationID)\<rparr>,
                  l @ [(CorrelationIDName, Some correlationID)])
            else (c, l));
          c = c\<lparr>gc_values := (gc_values c)(IntCorrelationIDName \<mapsto> uid)\<rparr>;
          l = l @ [(IntCorrelationIDName, Some uid)];
          l = l @ map (\<lambda>(k, v). (k, Some v)) (gc_params c);
          l = (if length (gc_RawQuery c) > 0 then l @ [(''query'', Some (gc_RawQuery c))] else l)
      in c\<lparr>gc_set := (gc_set c)(LoggerKey \<mapsto> LoggerValue l)\<rparr>)"

text \<open>A nil context is \<open>None\<close>.\<close>

definition AddCorrelationIDToLogger :: "gin_context option \<Rightarrow> log_fields \<Rightarrow> log_fields" where
  "AddCorrelationIDToLogger c l =
     (case c of None \<Rightarrow> l
      | Some c \<Rightarrow> l @ [(CorrelationIDName, gc_values c CorrelationIDName),
                       (IntCorrelationIDName, gc_values c IntCorrelationIDName)])"

definition GetLoggerFromContext :: "gin_context \<Rightarrow> log_fields outcome" where
  "GetLoggerFromContext c =
     (case gc_set c LoggerKey of
        None \<Rightarrow> Err ''logger does not exists in context''
      | Some (LoggerValue l) \<Rightarrow> Ok l
      | Some OtherValue \<Rightarrow> Err ''invalid logger format in context'')"

section \<open>Logging a request\<close>

text \<open>The entry of a request: the logger it goes to and what it says, read after the handlers have run.\<close>

record request_info =
  ri_status :: int
  ri_method :: string
  ri_path :: string
  ri_query :: string
  ri_ip :: string
  ri_user_agent :: string

definition LogRequest ::
    "log_fields option \<Rightarrow> gin_context \<Rightarrow> request_info \<Rightarrow> string \<Rightarrow> (log_fields \<times> string \<times> log_fields) outcome" where
  "LogRequest fallBackLogger c info start =
     (let entry = (\<lambda>l. Ok (l, ri_path info,
            [(''status'', Some (itoa_int (ri_status info))), (''method'', Some (ri_method info)),
             (''path'', Some (ri_path info)), (''query'', Some (ri_query info)), (''ip'', Some (ri_ip info)),
             (''user-agent'', Some (ri_user_agent info)), (''time'', Some start)]))
      in case (GetLoggerFromContext c, fallBackLogger) of
        (Err err, None) \<Rightarrow> Panic (''Can't get logger from context error:'' @ err)
      | (Ok l, fallback) \<Rightarrow> entry l
      | (r, Some l) \<Rightarrow> entry l
      | (Panic q, None) \<Rightarrow> Panic q)"

section \<open>Facts\<close>

lemma addLogger_found:
  "\<exists>l'. GetLoggerFromContext (addLogger uid c l) = Ok (l @ l') \<and> (IntCorrelationIDName, Some uid) \<in> set l'"
  by (auto simp: addLogger_def GetLoggerFromContext_def Let_def)

text \<open>With the middleware in place a request is logged, to the logger of the context, without a fallback.\<close>

lemma LogRequest_after_addLogger:
  "\<exists>l' entry. LogRequest fb (addLogger uid c l) info start = Ok (l @ l', ri_path info, entry) \<and>
    (IntCorrelationIDName, Some uid) \<in> set l'"
  using addLogger_found [of uid c l] by (auto simp: LogRequest_def Let_def)

lemma LogRequest_panics_iff:
  "is_panic (LogRequest fb c info start) \<longleftrightarrow> fb = None \<and> (\<forall>l. gc_set c LoggerKey \<noteq> Some (LoggerValue l))"
  by (cases fb) (auto simp: LogRequest_def Let_def GetLoggerFromContext_def split: option.splits context_value.splits)

text \<open>The identifiers a logger gets from the context are those of the middleware.\<close>

lemma AddCorrelationIDToLogger_ids:
  "gc_header c ExternalCorrelationIDName \<noteq> [] \<Longrightarrow>
    AddCorrelationIDToLogger (Some (addLogger uid c l)) l' =
      l' @ [(CorrelationIDName, Some (gc_header c ExternalCorrelationIDName)), (IntCorrelationIDName, Some uid)]"
  by (simp add: AddCorrelationIDToLogger_def addLogger_def Let_def CorrelationIDName_def IntCorrelationIDName_def)

end
