(* ===== verification/Fixtures.thy ===== *)
theory Fixtures
  imports Marshaler42
begin

text \<open>
  The test data marshaler (\<open>datamarshaler/impl_test_handler.go\<close>, \<open>test_version_specific_funcs_*.go\<close>,
  \<open>codec_func_*.go\<close>): it builds SDK values from plain fields and encodes them, for the tests of the modules.
  Encoding and the texts of SDK numbers are arguments. What the facts show is that the decoding methods give
  back the fields, for every codec that decodes what it encodes.
\<close>

section \<open>Values\<close>

text \<open>The fields of SDK values that the fixtures set beside those the program reads.\<close>

record full_channel = channel +
  fch_CounterpartyPortId :: string

record full_client = tm_client +
  fcl_TrustLevel :: "u64 \<times> u64"
  fcl_UnbondingPeriod :: "64 word"
  fcl_MaxClockDrift :: "64 word"
  fcl_FrozenHeight :: "u64 \<times> u64"
  fcl_RevisionNumber :: u64
  fcl_ProofSpecs :: "(32 word \<times> 32 word) list"

record full_connection = connection_end +
  fce_Versions :: "string list"
  fce_KeyPrefix :: bytes
  fce_DelayPeriod :: u64

text \<open>The codec's encoders, the texts of \<open>sdk.NewInt\<close>, of \<open>sdk.NewDec\<close> and of a zero time, the prefix of account
  balances, and the names of connection states.\<close>

record codec =
  MarshalAccount :: "base_account \<Rightarrow> bytes outcome"
  MarshalCoin :: "coin \<Rightarrow> bytes outcome"
  MarshalDelegation :: "delegation \<Rightarrow> bytes outcome"
  MarshalChannel :: "full_channel \<Rightarrow> bytes outcome"
  MarshalClientState :: "full_client \<Rightarrow> bytes outcome"
  MarshalDenomTrace :: "denom_trace \<Rightarrow> bytes outcome"
  MarshalConnectionEnd :: "full_connection \<Rightarrow> bytes outcome"
  MarshalUnbondingDelegation :: "unbonding_delegation \<Rightarrow> bytes outcome"
  MarshalValidator :: "sdk_validator \<Rightarrow> bytes outcome"
  int_text :: "64 word \<Rightarrow> string"
  dec_text :: "64 word \<Rightarrow> string"
  zero_time :: string
  CreateAccountBalancesPrefix :: "bytes \<Rightarrow> bytes"
  State_name :: "32 word \<Rightarrow> string"

definition or_panic :: "bytes outcome \<Rightarrow> bytes outcome" where
  "or_panic r = (case r of Err err \<Rightarrow> Panic err | _ \<Rightarrow> r)"

definition marshalIfaceOrPanic :: "('a \<Rightarrow> bytes outcome) \<Rightarrow> 'a \<Rightarrow> bytes outcome" where
  "marshalIfaceOrPanic MarshalInterface p = or_panic (MarshalInterface p)"

definition marshalOrPanic :: "('a \<Rightarrow> bytes outcome) \<Rightarrow> 'a \<Rightarrow> bytes outcome" where
  "marshalOrPanic Marshal p = or_panic (Marshal p)"

section \<open>Fixtures of both versions\<close>

definition Test_Account :: "codec \<Rightarrow> u64 \<Rightarrow> u64 \<Rightarrow> string \<Rightarrow> bytes outcome" where
  "Test_Account c accountNumber sequenceNumber address =
     marshalIfaceOrPanic (MarshalAccount c)
       \<lparr>acc_Address = address, acc_PubKeyAddress = None, acc_Sequence = sequenceNumber,
        acc_AccountNumber = accountNumber\<rparr>"

definition Test_Coin :: "codec \<Rightarrow> string \<Rightarrow> 64 word \<Rightarrow> bytes outcome" where
  "Test_Coin c denom amount = marshalOrPanic (MarshalCoin c) \<lparr>coin_Denom = denom, coin_Amount = sint amount\<rparr>"

definition Test_Delegation :: "codec \<Rightarrow> string \<Rightarrow> string \<Rightarrow> 64 word \<Rightarrow> bytes outcome" where
  "Test_Delegation c validator delegator shares =
     marshalOrPanic (MarshalDelegation c)
       \<lparr>dlg_DelegatorAddress = delegator, dlg_ValidatorAddress = validator, dlg_Shares = dec_text c shares\<rparr>"

record TestFraction =
  tfr_Numerator :: u64
  tfr_Denominator :: u64

record TestProofSpec =
  tps_Hash :: "32 word"
  tps_Length :: "32 word"

record TestHeight =
  th_Number :: u64
  th_Height :: u64

record TestClientState =
  tcs_ChainId :: string
  tcs_TrustLevel :: TestFraction
  tcs_TrustingPeriod :: "64 word"
  tcs_UnbondingPeriod :: "64 word"
  tcs_MaxClockDrift :: "64 word"
  tcs_FrozenHeight :: TestHeight
  tcs_LatestHeight :: TestHeight
  tcs_ProofSpecs :: "TestProofSpec list"
  tcs_UpgradePath :: "string list"
  tcs_AllowUpdateAfterExpiry :: bool
  tcs_AllowUpdateAfterMisbehaviour :: bool

record TestConnection =
  tcn_ClientId :: string
  tcn_VersionIdentifier :: string
  tcn_State :: "32 word"
  tcn_CountClientID :: string
  tcn_CountConnectionID :: string
  tcn_CountPrefix :: string
  tcn_DelayPeriod :: u64

record TestValCommission =
  tvc_Rate :: "64 word"
  tvc_MaxRate :: "64 word"
  tvc_MaxChangeRate :: "64 word"

record TestValidator =
  tv_OperatorAddress :: string
  tv_ConsensusPubkey :: string
  tv_Jailed :: bool
  tv_Status :: "32 word"
  tv_Tokens :: "64 word"
  tv_DelegatorShares :: "64 word"
  tv_UnbondingHeight :: "64 word"
  tv_UnbondingTime :: string
  tv_Commission :: TestValCommission
  tv_MinSelfDelegation :: "64 word"

text \<open>The unbonding time of the argument is not used.\<close>

definition Test_Validator :: "codec \<Rightarrow> TestValidator \<Rightarrow> bytes outcome" where
  "Test_Validator c v =
     marshalOrPanic (MarshalValidator c)
       \<lparr>sv_OperatorAddress = tv_OperatorAddress v,
        sv_ConsensusPubkey = Some ([], bytes_of_string (tv_ConsensusPubkey v)),
        sv_Jailed = tv_Jailed v, sv_Status = tv_Status v, sv_Tokens = int_text c (tv_Tokens v),
        sv_DelegatorShares = dec_text c (tv_DelegatorShares v), sv_Moniker = [], sv_Identity = [], sv_Website = [],
        sv_SecurityContact = [], sv_Details = [], sv_UnbondingHeight = tv_UnbondingHeight v,
        sv_UnbondingTime = zero_time c, sv_Rate = dec_text c (tvc_Rate (tv_Commission v)),
        sv_MaxRate = dec_text c (tvc_MaxRate (tv_Commission v)),
        sv_MaxChangeRate = dec_text c (tvc_MaxChangeRate (tv_Commission v)), sv_UpdateTime = zero_time c,
        sv_MinSelfDelegation = int_text c (tv_MinSelfDelegation v)\<rparr>"

text \<open>A time is given by its JSON text, if it has one.\<close>

record TestUnbondingDelegationEntry =
  tue_Height :: "64 word"
  tue_Completion :: "string option"
  tue_InitialBalance :: "64 word"
  tue_Balance :: "64 word"

record TestUnbondingDelegation =
  tud_Delegator :: string
  tud_Validator :: string
  tud_Entries :: "TestUnbondingDelegationEntry list"

definition test_entry :: "codec \<Rightarrow> TestUnbondingDelegationEntry \<Rightarrow> sdk_ubd_entry" where
  "test_entry c e =
     \<lparr>se_CreationHeight = tue_Height e, se_CompletionTime = tue_Completion e,
      se_InitialBalance = int_text c (tue_InitialBalance e), se_Balance = int_text c (tue_Balance e)\<rparr>"

definition Test_UnbondingDelegation :: "codec \<Rightarrow> TestUnbondingDelegation \<Rightarrow> bytes outcome" where
  "Test_UnbondingDelegation c u =
     marshalOrPanic (MarshalUnbondingDelegation c)
       \<lparr>ud_DelegatorAddress = tud_Delegator u, ud_ValidatorAddress = tud_Validator u,
        ud_Entries = map (test_entry c) (tud_Entries u)\<rparr>"

section \<open>Fixtures of version 0.44\<close>

definition Test_BankAddress44 :: "codec \<Rightarrow> string \<Rightarrow> bytes" where
  "Test_BankAddress44 c addr = CreateAccountBalancesPrefix c (bytes_of_string addr)"

definition Test_IBCChannel44 ::
    "codec \<Rightarrow> 32 word \<Rightarrow> 32 word \<Rightarrow> string \<Rightarrow> string \<Rightarrow> string \<Rightarrow> bytes outcome" where
  "Test_IBCChannel44 c state orderingNumber counterPortID counterChannelID hop =
     marshalOrPanic (MarshalChannel c)
       \<lparr>ch_State = state, ch_Ordering = orderingNumber, ch_CounterpartyChannelId = counterChannelID,
        ch_ConnectionHops = [hop], fch_CounterpartyPortId = counterPortID\<rparr>"

text \<open>A height is its revision number and its revision height; \<open>NewHeight\<close> takes them in this order, and the
  fixture calls it with the height first.\<close>

definition NewHeight :: "u64 \<Rightarrow> u64 \<Rightarrow> u64 \<times> u64" where
  "NewHeight revisionNumber revisionHeight = (revisionNumber, revisionHeight)"

definition Test_IBCClient44 :: "codec \<Rightarrow> TestClientState \<Rightarrow> bytes outcome" where
  "Test_IBCClient44 c state =
     marshalIfaceOrPanic (MarshalClientState c)
       \<lparr>tm_ChainId = tcs_ChainId state,
        tm_RevisionHeight = snd (NewHeight (th_Height (tcs_LatestHeight state)) (th_Number (tcs_LatestHeight state))),
        tm_TrustingPeriod = tcs_TrustingPeriod state,
        fcl_TrustLevel =
          (tfr_Numerator (tcs_TrustLevel state), tfr_Denominator (tcs_TrustLevel state)),
        fcl_UnbondingPeriod = tcs_UnbondingPeriod state, fcl_MaxClockDrift = tcs_MaxClockDrift state,
        fcl_FrozenHeight = (th_Number (tcs_FrozenHeight state), th_Height (tcs_FrozenHeight state)),
        fcl_RevisionNumber =
          fst (NewHeight (th_Height (tcs_LatestHeight state)) (th_Number (tcs_LatestHeight state))),
        fcl_ProofSpecs = map (\<lambda>ps. (tps_Hash ps, tps_Length ps)) (tcs_ProofSpecs state)\<rparr>"

definition Test_IBCDenomTraces44 :: "codec \<Rightarrow> string \<Rightarrow> string \<Rightarrow> bytes outcome" where
  "Test_IBCDenomTraces44 c path baseDenom =
     marshalOrPanic (MarshalDenomTrace c) \<lparr>dt_Path = path, dt_BaseDenom = baseDenom\<rparr>"

definition Test_IBCConnection44 :: "codec \<Rightarrow> TestConnection \<Rightarrow> bytes outcome" where
  "Test_IBCConnection44 c conn =
     marshalOrPanic (MarshalConnectionEnd c)
       \<lparr>ce_ClientId = tcn_ClientId conn, ce_State = tcn_State conn, ce_CounterpartyClientId = tcn_CountClientID conn,
        ce_CounterpartyConnectionId = tcn_CountConnectionID conn, fce_Versions = [tcn_VersionIdentifier conn],
        fce_KeyPrefix = bytes_of_string (tcn_CountPrefix conn), fce_DelayPeriod = tcn_DelayPeriod conn\<rparr>"

definition Test_MapConnectionState44 :: "codec \<Rightarrow> 32 word \<Rightarrow> string" where
  "Test_MapConnectionState44 c s = State_name c s"

section \<open>Fixtures of version 0.42\<close>

definition Test_BankAddress42 :: "codec \<Rightarrow> string \<Rightarrow> bytes" where
  "Test_BankAddress42 c addr = bytes_of_string addr"

definition Test_IBCChannel42 ::
    "codec \<Rightarrow> 32 word \<Rightarrow> 32 word \<Rightarrow> string \<Rightarrow> string \<Rightarrow> string \<Rightarrow> bytes outcome" where
  "Test_IBCChannel42 c state orderingNumber counterPortID counterChannelID hop =
     marshalOrPanic (MarshalChannel c)
       \<lparr>ch_State = state, ch_Ordering = orderingNumber, ch_CounterpartyChannelId = counterChannelID,
        ch_ConnectionHops = [hop], fch_CounterpartyPortId = counterPortID\<rparr>"

definition Test_IBCClient42 :: "codec \<Rightarrow> TestClientState \<Rightarrow> bytes outcome" where
  "Test_IBCClient42 c state =
     marshalIfaceOrPanic (MarshalClientState c)
       \<lparr>tm_ChainId = tcs_ChainId state,
        tm_RevisionHeight = snd (NewHeight (th_Height (tcs_LatestHeight state)) (th_Number (tcs_LatestHeight state))),
        tm_TrustingPeriod = tcs_TrustingPeriod state,
        fcl_TrustLevel =
          (tfr_Numerator (tcs_TrustLevel state), tfr_Denominator (tcs_TrustLevel state)),
        fcl_UnbondingPeriod = tcs_UnbondingPeriod state, fcl_MaxClockDrift = tcs_MaxClockDrift state,
        fcl_FrozenHeight = (th_Number (tcs_FrozenHeight state), th_Height (tcs_FrozenHeight state)),
        fcl_RevisionNumber =
          fst (NewHeight (th_Height (tcs_LatestHeight state)) (th_Number (tcs_LatestHeight state))),
        fcl_ProofSpecs = map (\<lambda>ps. (tps_Hash ps, tps_Length ps)) (tcs_ProofSpecs state)\<rparr>"

definition Test_IBCDenomTraces42 :: "codec \<Rightarrow> string \<Rightarrow> string \<Rightarrow> bytes outcome" where
  "Test_IBCDenomTraces42 c path baseDenom =
     marshalOrPanic (MarshalDenomTrace c) \<lparr>dt_Path = path, dt_BaseDenom = baseDenom\<rparr>"

definition Test_IBCConnection42 :: "codec \<Rightarrow> TestConnection \<Rightarrow> bytes outcome" where
  "Test_IBCConnection42 c conn =
     marshalOrPanic (MarshalConnectionEnd c)
       \<lparr>ce_ClientId = tcn_ClientId conn, ce_State = tcn_State conn, ce_CounterpartyClientId = tcn_CountClientID conn,
        ce_CounterpartyConnectionId = tcn_CountConnectionID conn, fce_Versions = [tcn_VersionIdentifier conn],
        fce_KeyPrefix = bytes_of_string (tcn_CountPrefix conn), fce_DelayPeriod = tcn_DelayPeriod conn\<rparr>"

definition Test_MapConnectionState42 :: "codec \<Rightarrow> 32 word \<Rightarrow> string" where
  "Test_MapConnectionState42 c s = State_name c s"

section \<open>Decoding a fixture\<close>

text \<open>A codec that decodes what it encodes, up to the fields the program does not read.\<close>

definition decodes :: "('a \<Rightarrow> bytes outcome) \<Rightarrow> ('a \<Rightarrow> 'b) \<Rightarrow> (bytes \<Rightarrow> 'b outcome) \<Rightarrow> bool" where
  "decodes M view U = (\<forall>x b. M x = Ok b \<longrightarrow> U b = Ok (view x))"

lemma or_panic_Ok [simp]: "or_panic r = Ok b \<longleftrightarrow> r = Ok b"
  by (cases r) (auto simp: or_panic_def)

lemma or_panic_not_Err [simp]: "or_panic r \<noteq> Err e"
  by (cases r) (auto simp: or_panic_def)

lemmas marshal_defs = marshalIfaceOrPanic_def marshalOrPanic_def

lemma fixture_decodes:
  assumes "decodes M view U" "marshalOrPanic M x = Ok b"
  shows "U b = Ok (view x)"
  using assms by (auto simp: decodes_def marshal_defs)

lemma iface_fixture_decodes:
  assumes "decodes M view U" "marshalIfaceOrPanic M x = Ok b"
  shows "U b = Ok (view x)"
  using assms by (auto simp: decodes_def marshal_defs)

text \<open>The fields come back in the rows; texts of numbers are those the codec keeps.\<close>

lemma Delegations44_of_fixture:
  assumes "decodes (MarshalDelegation c) id (UnmarshalDelegation s)"
    and "Test_Delegation c validator delegator shares = Ok (top_Value data)" "\<not> is_delete data"
    and "b32Hex (DecodeAndConvert s) delegator = Ok d" "b32Hex (DecodeAndConvert s) validator = Ok v"
  shows "Delegations44 s data = Ok (DelegationRow_at (top_BlockHeight data) d v (dec_text c shares))"
  using assms fixture_decodes [OF assms(1) assms(2) [unfolded Test_Delegation_def]]
  by (simp add: Delegations44_def)

lemma Auth44_of_fixture:
  assumes "decodes (MarshalAccount c) BaseAccount (UnmarshalAccount s)"
    and "Test_Account c accountNumber sequenceNumber address = Ok (top_Value data)"
    and "length (vis (top_Key data)) \<le> MaxAddrLen s + 1"
    and "DecodeAndConvert s address = Ok (hrp, bz)"
  shows "Auth44 s data =
    Ok (AuthRow_at (top_BlockHeight data) (hex_encode bz) sequenceNumber accountNumber)"
  using assms iface_fixture_decodes [OF assms(1) assms(2) [unfolded Test_Account_def]]
  by (simp add: Auth44_def)

lemma IBCDenomTraces44_of_fixture:
  assumes "decodes (MarshalDenomTrace c) id (UnmarshalDenomTrace s)"
    and "Test_IBCDenomTraces44 c path baseDenom = Ok (top_Value data)" "baseDenom \<noteq> []"
    and "DenomTraceValidate s \<lparr>dt_Path = path, dt_BaseDenom = baseDenom\<rparr> = Ok u"
  shows "IBCDenomTraces44 s data =
    Ok (IBCDenomTraceRow_at (top_BlockHeight data) path baseDenom
          (hex_encode (DenomTraceHash s \<lparr>dt_Path = path, dt_BaseDenom = baseDenom\<rparr>)))"
  using assms fixture_decodes [OF assms(1) assms(2) [unfolded Test_IBCDenomTraces44_def]]
  by (simp add: IBCDenomTraces44_def)

definition entry_row :: "codec \<Rightarrow> TestUnbondingDelegationEntry \<Rightarrow> unbonding_entry" where
  "entry_row c e =
     \<lparr>ube_Balance = int_text c (tue_Balance e), ube_InitialBalance = int_text c (tue_InitialBalance e),
      ube_CreationHeight = tue_Height e, ube_CompletionTime = the (tue_Completion e)\<rparr>"

lemma entries_of_fixture:
  assumes "\<forall>e\<in>set es. \<exists>t. tue_Completion e = Some t"
  shows "convert_entries (map (test_entry c) es) = Ok (map (entry_row c) es)"
  using assms by (induction es) (auto simp: test_entry_def convert_entry_def entry_row_def)

lemma UnbondingDelegations44_of_fixture:
  assumes "decodes (MarshalUnbondingDelegation c) id (UnmarshalUnbondingDelegation s)"
    and "Test_UnbondingDelegation c u = Ok (top_Value data)" "\<not> is_delete data"
    and "b32Hex (DecodeAndConvert s) (tud_Delegator u) = Ok d"
    and "b32Hex (DecodeAndConvert s) (tud_Validator u) = Ok v"
    and "\<forall>e\<in>set (tud_Entries u). \<exists>t. tue_Completion e = Some t"
  shows "UnbondingDelegations44 s data =
    Ok (UnbondingDelegationRow_at (top_BlockHeight data) d v (map (entry_row c) (tud_Entries u)))"
  using assms fixture_decodes [OF assms(1) assms(2) [unfolded Test_UnbondingDelegation_def]]
  by (simp add: UnbondingDelegations44_def entries_of_fixture)

text \<open>The latest height of the row is the revision number of the fixture, not its height.\<close>

lemma IBCClients44_of_fixture:
  assumes "decodes (MarshalClientState c) (\<lambda>x. TendermintClient (tm_client.truncate x)) (UnmarshalClientState s)"
    and "Test_IBCClient44 c state = Ok (top_Value data)"
    and "\<And>dest. ClientValidate s dest = Ok ()"
    and "split_on (CHR ''/'') (string_of_bytes (vis (top_Key data))) = [dir, clientID]"
  shows "IBCClients44 s data =
    Ok (IBCClientStateRow_at (top_BlockHeight data)
          (parseIBCChainID (tcs_ChainId state) (th_Number (tcs_LatestHeight state))) clientID
          (th_Number (tcs_LatestHeight state)) (tcs_TrustingPeriod state))"
  using assms iface_fixture_decodes [OF assms(1) assms(2) [unfolded Test_IBCClient44_def]]
  by (simp add: IBCClients44_def NewHeight_def tm_client.truncate_def)

end
