(* ===== verification/Scanning.thy ===== *)
theory Scanning
  imports Json Models
begin

text \<open>
  The \<open>Scan\<close> methods of \<open>models/models.go\<close>, which read the entries of a row back from its JSON column. A slice is
  filled in place, as \<open>encoding/json\<close> does it: an element is stored over what the memory of the slice holds at
  its place. The scanner of \<open>encoding/json\<close> is an argument. After an error the content of the slice is not
  represented.
\<close>

section \<open>Arrays of structs\<close>

text \<open>\<open>old\<close> is what the slice holds up to its capacity; memory behind it is zero.\<close>

fun store_elements ::
    "(string \<Rightarrow> json \<Rightarrow> 's \<Rightarrow> 's outcome) \<Rightarrow> 's \<Rightarrow> json list \<Rightarrow> 's list \<Rightarrow> 's list outcome" where
  "store_elements set_field zero [] old = Ok []"
| "store_elements set_field zero (v # vs) old =
     and_then (store_struct set_field v (case old of [] \<Rightarrow> zero | x # _ \<Rightarrow> x)) (\<lambda>x.
     and_then (store_elements set_field zero vs (tl old)) (\<lambda>xs. Ok (x # xs)))"

definition store_array ::
    "(string \<Rightarrow> json \<Rightarrow> 's \<Rightarrow> 's outcome) \<Rightarrow> 's \<Rightarrow> json \<Rightarrow> 's list \<Rightarrow> 's list outcome" where
  "store_array set_field zero v old =
     (case v of JNull \<Rightarrow> Ok [] | JArr vs \<Rightarrow> store_elements set_field zero vs old | _ \<Rightarrow> Err json_error)"

section \<open>The methods\<close>

text \<open>What a driver hands to \<open>Scan\<close>: bytes, a text, or a value of another type. The slice is its elements and what
  the memory behind them holds.\<close>

datatype column_value = ColumnBytes bytes | ColumnText string | ColumnOther

definition zero_unbonding_entry :: unbonding_entry where
  "zero_unbonding_entry =
     \<lparr>ube_Balance = [], ube_InitialBalance = [], ube_CreationHeight = 0, ube_CompletionTime = []\<rparr>"

definition ube_set_field :: "string \<Rightarrow> json \<Rightarrow> unbonding_entry \<Rightarrow> unbonding_entry outcome" where
  "ube_set_field k v s =
     (if k = ''balance'' then and_then (store_string v (ube_Balance s)) (\<lambda>x. Ok (s\<lparr>ube_Balance := x\<rparr>))
      else if k = ''initial_balance'' then
        and_then (store_string v (ube_InitialBalance s)) (\<lambda>x. Ok (s\<lparr>ube_InitialBalance := x\<rparr>))
      else if k = ''creation_height'' then
        and_then (store_int64 v (ube_CreationHeight s)) (\<lambda>x. Ok (s\<lparr>ube_CreationHeight := x\<rparr>))
      else if k = ''completion_time'' then
        and_then (store_string v (ube_CompletionTime s)) (\<lambda>x. Ok (s\<lparr>ube_CompletionTime := x\<rparr>))
      else Ok s)"

definition zero_redelegation_entry :: redelegation_entry where
  "zero_redelegation_entry =
     \<lparr>rde_CreationHeight = 0, rde_CompletionTime = [], rde_InitialBalance = [], rde_SharesDst = []\<rparr>"

definition rde_set_field :: "string \<Rightarrow> json \<Rightarrow> redelegation_entry \<Rightarrow> redelegation_entry outcome" where
  "rde_set_field k v s =
     (if k = ''creation_height'' then
        and_then (store_int64 v (rde_CreationHeight s)) (\<lambda>x. Ok (s\<lparr>rde_CreationHeight := x\<rparr>))
      else if k = ''completion_time'' then
        and_then (store_string v (rde_CompletionTime s)) (\<lambda>x. Ok (s\<lparr>rde_CompletionTime := x\<rparr>))
      else if k = ''initial_balance'' then
        and_then (store_string v (rde_InitialBalance s)) (\<lambda>x. Ok (s\<lparr>rde_InitialBalance := x\<rparr>))
      else if k = ''shares_dst'' then
        and_then (store_string v (rde_SharesDst s)) (\<lambda>x. Ok (s\<lparr>rde_SharesDst := x\<rparr>))
      else Ok s)"

definition UnbondingDelegationEntries_Scan ::
    "(bytes \<Rightarrow> json outcome) \<Rightarrow> column_value \<Rightarrow> unbonding_entry list \<Rightarrow> unbonding_entry list
      \<Rightarrow> unbonding_entry list outcome" where
  "UnbondingDelegationEntries_Scan scan src entries hidden =
     (let unmarshal = (\<lambda>data. and_then (scan data) (\<lambda>v.
            store_array ube_set_field zero_unbonding_entry v (entries @ hidden)))
      in case src of
        ColumnBytes data \<Rightarrow> unmarshal data
      | ColumnText s \<Rightarrow> unmarshal (bytes_of_string s)
      | ColumnOther \<Rightarrow> Ok entries)"

definition RedelegationEntries_Scan ::
    "(bytes \<Rightarrow> json outcome) \<Rightarrow> column_value \<Rightarrow> redelegation_entry list \<Rightarrow> redelegation_entry list
      \<Rightarrow> redelegation_entry list outcome" where
  "RedelegationEntries_Scan scan src entries hidden =
     (let unmarshal = (\<lambda>data. and_then (scan data) (\<lambda>v.
            store_array rde_set_field zero_redelegation_entry v (entries @ hidden)))
      in case src of
        ColumnBytes data \<Rightarrow> unmarshal data
      | ColumnText s \<Rightarrow> unmarshal (bytes_of_string s)
      | ColumnOther \<Rightarrow> Ok entries)"

section \<open>Facts\<close>

text \<open>Elements that set every field replace what was there.\<close>

lemma store_elements_total:
  assumes "\<And>x s. x \<in> set xs \<Longrightarrow> store_struct set_field (enc x) s = Ok x"
  shows "store_elements set_field zero (map enc xs) old = Ok xs"
  using assms by (induction xs arbitrary: old) auto

definition json_int :: "64 word \<Rightarrow> json" where
  "json_int w = JNum (sint w < 0) (nat \<bar>sint w\<bar>) [] None"

lemma store_json_int [simp]: "store_int64 (json_int w) old = Ok w"
proof -
  have "- (2 ^ 63) \<le> sint w" "sint w < 2 ^ 63" using sint_greater_eq [of w] sint_less [of w] by simp_all
  then show ?thesis by (simp add: json_int_def)
qed

text \<open>The objects the encoder writes for an entry.\<close>

definition ube_json :: "unbonding_entry \<Rightarrow> json" where
  "ube_json e = JObj [(''balance'', JStr (ube_Balance e)), (''initial_balance'', JStr (ube_InitialBalance e)),
     (''creation_height'', json_int (ube_CreationHeight e)), (''completion_time'', JStr (ube_CompletionTime e))]"

definition rde_json :: "redelegation_entry \<Rightarrow> json" where
  "rde_json e = JObj [(''creation_height'', json_int (rde_CreationHeight e)),
     (''completion_time'', JStr (rde_CompletionTime e)), (''initial_balance'', JStr (rde_InitialBalance e)),
     (''shares_dst'', JStr (rde_SharesDst e))]"

lemma fold_key_columns:
  "fold_key ''balance'' = ''balance''" "fold_key ''initial_balance'' = ''initial_balance''"
  "fold_key ''creation_height'' = ''creation_height''" "fold_key ''completion_time'' = ''completion_time''"
  "fold_key ''shares_dst'' = ''shares_dst''"
  by code_simp+

declare fold_key.simps [simp del]

lemma store_ube_json: "store_struct ube_set_field (ube_json e) s = Ok e"
  by (simp add: store_struct_def ube_json_def fold_key_columns ube_set_field_def)

lemma store_rde_json: "store_struct rde_set_field (rde_json e) s = Ok e"
  by (simp add: store_struct_def rde_json_def fold_key_columns rde_set_field_def)

text \<open>Scanning the JSON of a list of entries gives the list, whatever the slice held.\<close>

lemma Scan_unbonding_entries:
  assumes "scan data = Ok (JArr (map ube_json es))"
  shows "UnbondingDelegationEntries_Scan scan (ColumnBytes data) entries hidden = Ok es"
  using assms by (simp add: UnbondingDelegationEntries_Scan_def store_array_def store_elements_total store_ube_json)

lemma Scan_redelegation_entries:
  assumes "scan data = Ok (JArr (map rde_json es))"
  shows "RedelegationEntries_Scan scan (ColumnBytes data) entries hidden = Ok es"
  using assms by (simp add: RedelegationEntries_Scan_def store_array_def store_elements_total store_rde_json)

text \<open>An element that leaves a field out keeps the field of the entry that was there before, and a value that is
  neither bytes nor text leaves the slice as it was, without an error.\<close>

lemma Scan_keeps_old_fields:
  assumes "scan data = Ok (JArr [JObj [(''balance'', JStr b)]])"
  shows "UnbondingDelegationEntries_Scan scan (ColumnBytes data) (e # es) hidden = Ok [e\<lparr>ube_Balance := b\<rparr>]"
  using assms
  by (simp add: UnbondingDelegationEntries_Scan_def store_array_def store_struct_def fold_key_columns ube_set_field_def)

lemma Scan_other: "UnbondingDelegationEntries_Scan scan ColumnOther entries hidden = Ok entries"
  by (simp add: UnbondingDelegationEntries_Scan_def)

end
