(* ===== verification/Spec2Isabelle.thy ===== *)
theory Spec2Isabelle
  imports Pipeline Staking_Tables Exporter_Ends Resetter Startup Logging Fixtures Scanning
begin

text \<open>
  \<^bold>\<open>Tracelistener.\<close> A full node of a Cosmos chain writes one line of JSON for every access to its stores to a
  named pipe. The program reads the pipe, turns the accesses it knows into rows, collects the rows of a block
  and writes them to CockroachDB tables that other programs read. Beside that it can import the stores of a
  stopped node, export raw traces to a file on request of an HTTP client, and record the time of the latest block.
  Two tools come with it: a generator of the table code and a program that deletes the rows of a chain.

  \<^bold>\<open>The way of a trace.\<close> A line reaches the \<open>TraceWatcher\<close>, which filters it, parses it and hands the trace to the
  processor, one goroutine for each trace (theory \<open>Watcher\<close>; parsing in \<open>Trace\<close> on top of \<open>Json\<close>). The processor
  (\<open>Processor\<close>) compares the block height: a new one first flushes all modules. Then the trace goes to the modules
  that own its key. A module (\<open>Write_Modules\<close>, \<open>Delete_Modules\<close>) has the data marshaler (\<open>Marshaler44\<close>,
  \<open>Marshaler42\<close>, with \<open>Keys\<close> and \<open>Sdk\<close>) make a row of it and puts the row into a cache. A flush turns the caches
  into \<open>WritebackOp\<close>s (\<open>Writeback\<close>), which the main loop (\<open>Main_Loop\<close>) splits and executes as SQL statements
  (\<open>Sql_Gen\<close>, \<open>Gen_Tables\<close>, with their effect on a table in \<open>Store\<close>).

  \<^bold>\<open>Theories and sources.\<close>
  \<^item> \<open>Prelude\<close>, \<open>Go_Lib\<close>, \<open>Float64\<close>, \<open>Json\<close>, \<open>Parsing\<close>, \<open>Command_Line\<close>: outcomes (value, error, panic), Go maps,
    and what the program uses of Go's standard library. They map to no source line.
  \<^item> \<open>Models\<close>, \<open>Scanning\<close>: \<open>models/models.go\<close>. \<open>Keys\<close>: \<open>tracelistener/keys.go\<close>. \<open>Trace\<close>: \<open>tracelistener/trace.go\<close>.
  \<^item> \<open>Writeback\<close>, \<open>Watcher\<close>: \<open>tracelistener/tracelistener.go\<close>.
  \<^item> \<open>Sql_Gen\<close>: \<open>cmd/sqlgen\<close>; \<open>Gen_Tables\<close>: \<open>tracelistener/tables\<close>; \<open>Store\<close>: the meaning of the SQL text.
  \<^item> \<open>Sdk\<close>, \<open>Marshaler44\<close>, \<open>Marshaler42\<close>: \<open>tracelistener/processor/datamarshaler\<close>.
  \<^item> \<open>Cache\<close> (interfaces), \<open>Write_Modules\<close>, \<open>Delete_Modules\<close>, \<open>All_Modules\<close>: the modules under
    \<open>tracelistener/processor\<close>; \<open>Processor\<close>: \<open>processor.go\<close>.
  \<^item> \<open>Blocks\<close>, \<open>Schema\<close>, \<open>Typed_Tables\<close>, \<open>Ledger\<close>, \<open>Staking_Tables\<close>, \<open>Pipeline\<close>: facts about the components together.
  \<^item> \<open>Main_Loop\<close>: the loop of \<open>cmd/tracelistener/main.go\<close>; \<open>Startup\<close>: the rest of that file, the configuration
    (\<open>tracelistener/config\<close>, \<open>configuration\<close>, \<open>validation\<close>) and \<open>cmd/sqlgen/main.go\<close>.
  \<^item> \<open>Exporter_Params\<close>, \<open>Exporter\<close>, \<open>Exporter_Http\<close>, \<open>Exporter_Runs\<close>, \<open>Exporter_Overlap\<close>,
    \<open>Exporter_Ends\<close>: \<open>exporter\<close>.
  \<^item> \<open>Connection\<close>: \<open>database\<close>, \<open>tracelistener/database\<close>; \<open>Blocktime\<close>: \<open>tracelistener/blocktime\<close>;
    \<open>Bulk\<close>: \<open>tracelistener/bulk\<close>; \<open>Resetter\<close>: \<open>cmd/resetchain\<close>; \<open>Logging\<close>: \<open>logging\<close>.
  \<^item> \<open>Fixtures\<close>: the test data marshaler of \<open>datamarshaler\<close>; decoding what it encodes gives the fields back.

  \<^bold>\<open>State.\<close> A Go struct is a record, without loggers and mutexes; a method that holds a mutex all along runs as one step. The
  methods of the exporter hold none: each is a \<open>call\<close>, a sequence of reads and writes of the shared state, and what it
  does when nothing comes between is proved beside it (\<open>Init_alone\<close> and the like). A Go
  map is an association list with one entry for each key; a range loop over it gets its order as an argument. A
  slice keeps its spare capacity where subslicing can see it. The database is a map from table names to tables, a
  table a map from the values of the unique columns to a row. Heights are 64-bit words, bytes 8-bit words; file
  sizes and trace counts of the exporter wrap at 32 bits. A call is an outcome: \<open>Ok\<close>, \<open>Err\<close> with the error's
  text, or \<open>Panic\<close>.

  \<^bold>\<open>Interfaces.\<close> The locales of \<open>Cache\<close> say what the processor and the flush rely on: \<open>flushing\<close> (a flush hands over
  each pending row once and clears the cache), refined by \<open>write_cache\<close> and \<open>write_delete_cache\<close>, interpreted by
  each of the eleven modules and by their sum. \<open>height_guarded\<close> of \<open>Store\<close> says what an upsert guarded by a height
  promises; the tables and the table of block times interpret it. \<open>rounding\<close> of \<open>Float64\<close> holds what the
  arithmetic of \<open>SplitStatements\<close> needs of a rounding function.

  \<^bold>\<open>What is shown.\<close>
  \<^item> The goroutines together (\<open>Pipeline\<close>, a step relation over the watcher, the goroutines of traces and batches, the
    processor and the main loop): every run amounts to a run of the parts in sequence, nothing is lost or taken
    twice, and the system never gets stuck; with \<open>Ledger\<close>, what the tables show at the end of a run.
  \<^item> End to end in sequence (\<open>Ledger\<close>, \<open>Main_Loop\<close>, \<open>Typed_Tables\<close>): the table of a module that only writes
    (token infos excepted) holds for each key whose rows carry their trace's height the row of the last trace of the
    complete blocks, in whatever order the batches arrive; a batch whose statements reach the database has the
    effect of upserting and deleting the rows of each module at once; no batch makes the loop panic or stores a row of wrong
    type.
  \<^item> Processor and modules: routing, blocks, what a flush hands over, construction.
  \<^item> Keys, traces, splitting: exact sets of accepted inputs, round trips, and exactly when the code panics.
  \<^item> Generator: validation, and that the generated code in the repository is what the generator yields.
  \<^item> Exporter, when every request and line is handled before the next, in any order with the steps of the goroutines
    (\<open>Exporter_Runs\<close>): no panic, complete files, limits kept, and, if closing the file does not fail, that a stopped export ends; and
    the ways in which an export never ends. When calls overlap step by step (\<open>Exporter_Overlap\<close>): no panic as long as
    none is a start request; and runs in which a stop request panics, an accepted trace is lost and an export
    takes more traces than asked for.
  \<^item> Import, block times, resetter, start: what is in the database afterwards, under any schedule and any failures
    the driver can report.
  \<^item> Places where the code does not do what it means to are stated as theorems too: deletions that beat later
    writes (\<open>flush_deletes\<close>), rows that never change again (\<open>unbonding_rows_stuck\<close>), deletions that miss
    (\<open>validator_delete_misses\<close>), keys refused by a wrap-around (\<open>SplitDelegationKey_rejects_255\<close>).

  \<^bold>\<open>Parameters.\<close> Code that is not in the repository is an argument: the functions of the Cosmos SDK and IBC packages
  (record \<open>sdk\<close>), the scanner of \<open>encoding/json\<close>, the tail library, the driver's answers (each statement comes with a \<open>fault\<close>: an error with which it
  fails without effect, or none), the operating system's answers to the exporter, the node's database and its stores (\<open>chain_db\<close>), the
  libraries for configuration files and YAML. Which goroutine moves, which ready case a \<open>select\<close> takes and in which
  order a map is ranged over are arguments or choices of a step relation.

  \<^bold>\<open>Bounds.\<close> No definition has fuel. Loops are structural or have a measure; the two that need not end are
  \<open>connectTendermint\<close> (a partial function whose result is the number of failed attempts) and the watcher's loop, which
  follows the list of tailing sessions. Properties about splitting assume fewer than \<open>2 ^ 40\<close> rows in an
  operation, so that the floating-point numbers in it are exact enough.

  \<^bold>\<open>Not modelled.\<close> Log output and profiling (\<open>Logging\<close> has the configuration and middleware of \<open>logging\<close>);
  the HTTP router and the listening socket; the bits of a \<open>float64\<close> beyond what
  splitting and heights use; the serial \<open>id\<close> of a row outside the resetter; the refusal of unsigned numbers above
  \<open>2 ^ 63\<close> by the driver; the stop channel of the processor, which the import alone uses before any trace is read.
\<close>

end
